(* ===== verification/Prelude.thy ===== *)
theory Prelude
  imports Complex_Main "HOL-Library.Multiset"
begin

text \<open>
  Shared vocabulary of the development: the dense vectors and matrices that
  \<open>numpy\<close> arrays become (lists of \<open>real\<close>, rows of a matrix as a list of
  rows), the dot product \<open>np.dot\<close>, the numerical tolerance \<open>1e-10\<close> that
  \<open>src/optimizer.py\<close> writes in three places, and \<open>xreal\<close>, the reals
  extended with Python's \<open>float('inf')\<close>, ordered as Python compares them.
  \<open>py_error\<close> names the Python exceptions the modelled code raises, and
  \<open>sbind\<close> propagates them.
  Floating-point rounding is not modelled: every array entry is an exact real,
  so the tolerance only matters where the code compares against it.
\<close>

named_theorems dot_simps "arithmetic of the dot product on lists of equal length"

type_synonym vec = "real list"
type_synonym mat = "real list list"

section \<open>Dot product\<close>

text \<open>\<open>np.dot\<close> on two vectors; both have the same length wherever the code
  calls it (numpy raises on a mismatch).\<close>

fun dot :: "vec \<Rightarrow> vec \<Rightarrow> real" where
  "dot (x # xs) (y # ys) = x * y + dot xs ys"
| "dot _ _ = 0"

text \<open>\<open>np.dot(A, x)\<close> for a matrix: one dot product per row.\<close>

definition mat_vec :: "mat \<Rightarrow> vec \<Rightarrow> vec" where
  "mat_vec A x = map (\<lambda>r. dot r x) A"

text \<open>The tolerance \<open>1e-10\<close> of \<open>optimizer.py\<close> (lines 33, 82, 87).\<close>

definition tol :: real where
  "tol = 1 / 10 ^ 10"

lemma tol_bounds: "0 < tol" "tol < 1 / 2"
  by (simp_all add: tol_def)

section \<open>First index of a minimum\<close>

text \<open>\<open>np.argmin\<close>: the first index of a least element. The scan keeps the best
  index and value so far and moves only on a strictly smaller value.\<close>

fun argmin_from :: "nat \<Rightarrow> nat \<Rightarrow> real \<Rightarrow> real list \<Rightarrow> nat" where
  "argmin_from best i m [] = best"
| "argmin_from best i m (x # xs) =
     (if x < m then argmin_from i (Suc i) x xs else argmin_from best (Suc i) m xs)"

definition argmin :: "real list \<Rightarrow> nat" where
  "argmin xs = (case xs of [] \<Rightarrow> 0 | x # xs' \<Rightarrow> argmin_from 0 1 x xs')"

section \<open>Python floats with infinity\<close>

text \<open>\<open>best_val\<close> in \<open>branch_and_bound\<close> starts as \<open>float('inf')\<close>, and an
  infeasible node returns it; every other value is a finite cost.\<close>

datatype xreal = Fin real | PInf

instantiation xreal :: linorder
begin

fun less_eq_xreal :: "xreal \<Rightarrow> xreal \<Rightarrow> bool" where
  "less_eq_xreal (Fin a) (Fin b) = (a \<le> b)"
| "less_eq_xreal _ PInf = True"
| "less_eq_xreal PInf (Fin _) = False"

definition less_xreal :: "xreal \<Rightarrow> xreal \<Rightarrow> bool" where
  "less_xreal x y = (x \<le> y \<and> \<not> y \<le> x)"

instance
proof
  fix x y z :: xreal
  show "(x < y) = (x \<le> y \<and> \<not> y \<le> x)" by (simp add: less_xreal_def)
  show "x \<le> x" by (cases x) simp_all
  show "x \<le> y \<Longrightarrow> y \<le> z \<Longrightarrow> x \<le> z" by (cases x; cases y; cases z) simp_all
  show "x \<le> y \<Longrightarrow> y \<le> x \<Longrightarrow> x = y" by (cases x; cases y) simp_all
  show "x \<le> y \<or> y \<le> x" by (cases x; cases y) auto
qed

end

lemma less_xreal_simps [simp]:
  "Fin a < Fin b \<longleftrightarrow> a < b"
  "Fin a < PInf"
  "\<not> PInf < x"
  by (auto simp: less_xreal_def elim: less_eq_xreal.elims)

lemma PInf_le_iff [simp]: "PInf \<le> x \<longleftrightarrow> x = PInf"
  by (cases x) simp_all

section \<open>Python exceptions\<close>

text \<open>The exceptions the modelled code can raise: \<open>KeyError\<close> for a missing
  dictionary key (\<open>data['costs'][(port, hotel)]\<close>), \<open>TypeError\<close> for
  indexing \<open>None\<close> (\<open>optimal_point[idx]\<close> when the search found nothing),
  \<open>IndexError\<close> for an index past the end of a list, \<open>ZeroDivisionError\<close>
  for a division by zero, \<open>ValueError\<close> for an argument out of range (an
  empty \<open>max()\<close>, a matplotlib \<open>alpha\<close> outside \<open>[0, 1]\<close>), \<open>FileNotFoundError\<close> for a file written into a
  missing directory. A computation that may raise returns
  \<open>py_error + 'a\<close>, \<open>Inl\<close> the exception; \<open>sbind\<close> runs the rest of the code
  only when no exception was raised, as Python does.\<close>

datatype py_error = KeyError | TypeError | IndexError | ZeroDivisionError | ValueError
  | FileNotFoundError

definition sbind :: "py_error + 'a \<Rightarrow> ('a \<Rightarrow> py_error + 'b) \<Rightarrow> py_error + 'b" where
  "sbind r f = (case r of Inl e \<Rightarrow> Inl e | Inr a \<Rightarrow> f a)"

section \<open>Lemmas on the dot product\<close>

lemma dot_Nil [simp, dot_simps]: "dot [] ys = 0" "dot xs [] = 0"
  by (cases xs) simp_all

lemma dot_sub [dot_simps]:
  "length r = length p \<Longrightarrow>
   dot (map2 (\<lambda>u v. u - f * v) r p) y = dot r y - f * dot p y"
proof (induction r p arbitrary: y rule: list_induct2)
  case Nil
  then show ?case by simp
next
  case (Cons a r b p)
  then show ?case by (cases y) (simp_all add: algebra_simps)
qed

lemma dot_replicate_0 [simp, dot_simps]: "dot r (replicate k 0) = 0"
proof (induction r arbitrary: k)
  case Nil
  then show ?case by simp
next
  case (Cons a r)
  then show ?case by (cases k) simp_all
qed

lemma dot_replicate_0_left [simp, dot_simps]: "dot (replicate k 0) y = 0"
proof (induction k arbitrary: y)
  case 0
  then show ?case by simp
next
  case (Suc k)
  then show ?case by (cases y) simp_all
qed

lemma dot_add [dot_simps]:
  "length x = length y \<Longrightarrow> dot r (map2 (+) x y) = dot r x + dot r y"
proof (induction x y arbitrary: r rule: list_induct2)
  case Nil
  then show ?case by simp
next
  case (Cons a x b y)
  then show ?case by (cases r) (simp_all add: algebra_simps)
qed

lemma dot_append [dot_simps]:
  "length r = length x \<Longrightarrow> dot (r @ r') (x @ x') = dot r x + dot r' x'"
  by (induction r x rule: list_induct2) simp_all

text \<open>The dot product as a finite sum over the common indices.\<close>

lemma dot_sum: "dot xs ys = (\<Sum>k<min (length xs) (length ys). xs ! k * ys ! k)"
proof (induction xs ys rule: dot.induct)
  case (1 x xs y ys)
  then show ?case by (simp del: sum.lessThan_Suc add: sum.lessThan_Suc_shift)
qed simp_all

lemma dot_indicator:
  "length x = n \<Longrightarrow>
   dot (map (\<lambda>k. if k \<in> S then 1 else 0) [0..<n]) x = (\<Sum>k\<in>S \<inter> {..<n}. x ! k)"
proof -
  assume len: "length x = n"
  have "dot (map (\<lambda>k. if k \<in> S then 1 else 0) [0..<n]) x
        = (\<Sum>k<n. (if k \<in> S then 1 else 0) * x ! k)"
    using len by (simp add: dot_sum)
  also have "\<dots> = (\<Sum>k<n. if k \<in> S then x ! k else 0)"
    by (intro sum.cong) auto
  also have "\<dots> = (\<Sum>k\<in>{..<n} \<inter> S. x ! k)"
    by (simp add: sum.inter_restrict)
  finally show ?thesis by (simp add: Int_commute)
qed

text \<open>A row of non-negative coefficients is monotone in the point.\<close>

lemma dot_mono:
  "list_all2 (\<le>) x y \<Longrightarrow> list_all (\<lambda>a. 0 \<le> a) r \<Longrightarrow> dot r x \<le> dot r y"
proof (induction x y arbitrary: r rule: list_all2_induct)
  case (Cons x xs y ys)
  then show ?case by (cases r) (auto intro: add_mono mult_left_mono)
qed simp

section \<open>Exceptions\<close>

lemma sbind_simps [simp]:
  "sbind (Inl e) f = Inl e"
  "sbind (Inr a) f = f a"
  by (simp_all add: sbind_def)

lemma sbind_cong [fundef_cong]:
  "r = r' \<Longrightarrow> (\<And>a. r' = Inr a \<Longrightarrow> f a = g a) \<Longrightarrow> sbind r f = sbind r' g"
  by (cases r') simp_all

lemma sbind_Inr_eq_Inl: "sbind r (\<lambda>a. Inr (f a)) = Inl e \<longleftrightarrow> r = Inl e"
  by (cases r) simp_all

lemma sbind_eq_Inl: "sbind r f = Inl x \<longleftrightarrow> r = Inl x \<or> (\<exists>a. r = Inr a \<and> f a = Inl x)"
  by (cases r) simp_all

lemma sbind_eq_Inr:
  "sbind r f = Inr b \<longleftrightarrow> (\<exists>a. r = Inr a \<and> f a = Inr b)"
  by (cases r) simp_all

section \<open>Lemmas on lists\<close>

lemma list_all2_map_upt:
  "length ys = n \<Longrightarrow> list_all2 P (map f [0..<n]) ys \<longleftrightarrow> (\<forall>i<n. P (f i) (ys ! i))"
  by (simp add: list_all2_conv_all_nth)

text \<open>Setting entries of a list to one in a loop, as \<open>A[i, j] = 1\<close> does in
  numpy, gives the indicator of the positions written.\<close>

lemma fold_set_ones:
  "\<forall>j\<in>set js. g j < n \<Longrightarrow>
   fold (\<lambda>j row. row[g j := 1]) js (map f [0..<n])
     = map (\<lambda>k. if k \<in> g ` set js then 1 else f k) [0..<n]"
proof (induction js arbitrary: f)
  case Nil
  then show ?case by simp
next
  case (Cons j js)
  from Cons.prems have "(map f [0..<n])[g j := 1] = map (f(g j := 1)) [0..<n]"
    by (simp add: list_eq_iff_nth_eq nth_list_update)
  with Cons show ?case by (simp add: fun_upd_def)
qed

lemma fold_set_ones_01:
  "set xs \<subseteq> {0, 1} \<Longrightarrow> set (fold (\<lambda>j row. row[g j := 1]) js xs) \<subseteq> {0, 1 :: real}"
proof (induction js arbitrary: xs)
  case (Cons j js)
  have "set (xs[g j := 1]) \<subseteq> {0, 1}"
    using order_trans [OF set_update_subset_insert [of xs "g j" 1] insert_mono [OF Cons.prems]]
    by (simp add: insert_commute)
  with Cons.IH show ?case by simp
qed simp

lemma take_drop_Suc:
  "i < length x \<Longrightarrow> take (Suc n) (drop i x) = x ! i # take n (drop (Suc i) x)"
  by (metis Cons_nth_drop_Suc take_Suc_Cons)

lemma concat_map_filter_pairs:
  "concat (map (\<lambda>(i, p). if P p then g i else []) xs) = concat (map (g \<circ> fst) (filter (P \<circ> snd) xs))"
  by (induction xs) auto

lemma filter_enumerate_distinct:
  "distinct xs \<Longrightarrow> i < length xs \<Longrightarrow>
   filter (\<lambda>q. snd q = xs ! i) (enumerate n xs) = [(n + i, xs ! i)]"
proof (induction xs arbitrary: n i)
  case (Cons y ys)
  show ?case
  proof (cases i)
    case 0
    with Cons.prems have "\<forall>q\<in>set (enumerate (Suc n) ys). snd q \<noteq> y"
      by (auto simp: in_set_enumerate_eq)
    with 0 show ?thesis by (simp add: filter_empty_conv)
  next
    case (Suc i')
    with Cons.prems have "y \<noteq> ys ! i'" by (auto simp: nth_mem)
    with Suc Cons.prems Cons.IH [of i' "Suc n"] show ?thesis by simp
  qed
qed simp

lemma sum_list_upt_lessThan: "(\<Sum>j\<leftarrow>[0..<n]. f j) = (\<Sum>j<n. f j)"
  by (simp add: sum_set_upt_conv_sum_list_nat [symmetric] atLeast0LessThan)

text \<open>Swapping two rows (as a pivoting step does) keeps the set of rows.\<close>

lemma set_tl_swap0:
  assumes "p < length rs"
  shows "insert (rs ! p) (set (tl (rs[0 := rs ! p, p := rs ! 0]))) = set rs"
proof -
  from assms have ne: "rs \<noteq> []" by auto
  let ?s = "rs[0 := rs ! p, p := rs ! 0]"
  from ne have "0 < length rs" by simp
  then have "?s ! 0 = rs ! p" by (cases "p = 0") simp_all
  moreover have "?s \<noteq> []" using ne by simp
  ultimately have "set ?s = insert (rs ! p) (set (tl ?s))"
    by (metis hd_conv_nth list.collapse list.simps(15))
  moreover have "set ?s = set rs" using assms ne by simp
  ultimately show ?thesis by simp
qed

lemma length_tl_swap0 [simp]:
  "length (tl (rs[0 := a, p := b])) = length rs - 1"
  by simp

section \<open>Lemmas on argmin\<close>

lemma argmin_from_spec:
  assumes "best < i" "xs ! best = m" "length xs = i + length ys" "drop i xs = ys"
    "\<forall>j<best. m < xs ! j" "\<forall>j<i. m \<le> xs ! j"
  shows "argmin_from best i m ys < length xs \<and>
    (\<forall>y\<in>set xs. xs ! argmin_from best i m ys \<le> y) \<and>
    (\<forall>j<argmin_from best i m ys. xs ! argmin_from best i m ys < xs ! j)"
    (is "?Q (argmin_from best i m ys)")
  using assms
proof (induction best i m ys rule: argmin_from.induct)
  case (1 best i m)
  have "xs ! best \<le> y" if "y \<in> set xs" for y
  proof -
    from that obtain j where "j < length xs" "y = xs ! j" by (auto simp: in_set_conv_nth)
    with "1.prems" show ?thesis by simp
  qed
  with "1.prems" show ?case by simp
next
  case (2 best i m x ys)
  from "2.prems"(4) have xi: "xs ! i = x" by (rule nth_via_drop)
  from "2.prems"(4) have dr: "drop (Suc i) xs = ys" by (metis drop_Suc list.sel(3) tl_drop)
  show ?case
  proof (cases "x < m")
    case True
    have "x < xs ! j" if "j < i" for j
      using "2.prems"(6) that True by fastforce
    moreover have "x \<le> xs ! j" if "j < Suc i" for j
    proof (cases "j = i")
      case True
      with xi show ?thesis by simp
    next
      case False
      with that have "j < i" by simp
      with calculation [OF this] show ?thesis by simp
    qed
    ultimately have "?Q (argmin_from i (Suc i) x ys)"
      using True "2.prems"(3) xi dr by (intro "2.IH"(1)) auto
    with True show ?thesis by simp
  next
    case False
    have "m \<le> xs ! j" if "j < Suc i" for j
      using "2.prems"(6) that xi False by (cases "j = i") (auto simp: less_Suc_eq)
    then have "?Q (argmin_from best (Suc i) m ys)"
      using False "2.prems" dr by (intro "2.IH"(2)) auto
    with False show ?thesis by simp
  qed
qed

lemma argmin_spec:
  assumes "xs \<noteq> []"
  shows "argmin xs < length xs" "\<forall>y\<in>set xs. xs ! argmin xs \<le> y"
    "\<forall>j<argmin xs. xs ! argmin xs < xs ! j"
proof -
  from assms obtain x ys where xs: "xs = x # ys" by (cases xs) auto
  have "argmin_from 0 1 x ys < length xs \<and>
    (\<forall>y\<in>set xs. xs ! argmin_from 0 1 x ys \<le> y) \<and>
    (\<forall>j<argmin_from 0 1 x ys. xs ! argmin_from 0 1 x ys < xs ! j)"
    by (rule argmin_from_spec) (simp_all add: xs)
  then show "argmin xs < length xs" "\<forall>y\<in>set xs. xs ! argmin xs \<le> y"
    "\<forall>j<argmin xs. xs ! argmin xs < xs ! j"
    by (simp_all add: argmin_def xs)
qed

lemma argmin_map_le:
  assumes "x \<in> set xs"
  shows "f (xs ! argmin (map f xs)) \<le> f x"
proof -
  from assms have ne: "map f xs \<noteq> []" by auto
  from assms have "f x \<in> set (map f xs)" by simp
  with argmin_spec(2) [OF ne] have "map f xs ! argmin (map f xs) \<le> f x" by blast
  with argmin_spec(1) [OF ne] show ?thesis by simp
qed

lemma argmin_map_less:
  "xs \<noteq> [] \<Longrightarrow> argmin (map f xs) < length xs"
  using argmin_spec(1) [of "map f xs"] by simp

end
