(* ===== verification/LinSolve.thy ===== *)
theory LinSolve
  imports Prelude
begin

text \<open>
  \<open>np.linalg.solve(A_sub, b_sub)\<close>, called at \<open>src/optimizer.py\<close> line 30,
  is LAPACK's \<open>gesv\<close>: Gaussian elimination with partial pivoting (the pivot
  of a column is the first row of largest absolute value), then back
  substitution; a zero pivot raises \<open>LinAlgError\<close>, which the caller catches
  (line 35). The library is not part of the repository, so it is modelled from
  its documented contract, in exact arithmetic: \<open>solve_rows\<close> eliminates the
  first unknown and recurses on the rest, and \<open>None\<close> is the
  \<open>LinAlgError\<close>. The lemmas show that \<open>Some x\<close> is returned exactly when
  the square system has the unique solution \<open>x\<close>, and that \<open>None\<close> means a
  non-zero vector in the kernel, i.e. a singular matrix.
\<close>

type_synonym eqn = "vec \<times> real"

section \<open>Definitions\<close>

text \<open>LAPACK \<open>idamax\<close> on the pivot column: the first index of largest
  absolute value, i.e. the first index of least \<open>-\<bar>a\<bar>\<close>.\<close>

definition pivot_idx :: "eqn list \<Rightarrow> nat" where
  "pivot_idx rs = argmin (map (\<lambda>e. - \<bar>hd (fst e)\<bar>) rs)"

text \<open>One elimination step: subtract the multiple of the pivot row that
  clears the first coefficient, and drop that column.\<close>

definition elim_row :: "eqn \<Rightarrow> eqn \<Rightarrow> eqn" where
  "elim_row pe e =
     (let f = hd (fst e) / hd (fst pe)
      in (map2 (\<lambda>u v. u - f * v) (tl (fst e)) (tl (fst pe)), snd e - f * snd pe))"

text \<open>Elimination of \<open>k\<close> unknowns from \<open>k\<close> equations: swap the pivot row
  to the top (as \<open>getrf\<close> does), eliminate below it, solve the rest, and
  substitute back.\<close>

fun solve_rows :: "nat \<Rightarrow> eqn list \<Rightarrow> vec option" where
  "solve_rows 0 rs = Some []"
| "solve_rows (Suc k) rs =
     (if rs = [] then None
      else
        let p = pivot_idx rs; pe = rs ! p; a = hd (fst pe)
        in if a = 0 then None
           else
             case solve_rows k (map (elim_row pe) (tl (rs[0 := rs ! p, p := rs ! 0]))) of
               None \<Rightarrow> None
             | Some y \<Rightarrow> Some ((snd pe - dot (tl (fst pe)) y) / a # y))"

text \<open>The shape check of \<open>np.linalg.solve\<close> (a non-square matrix also
  raises \<open>LinAlgError\<close>), then the elimination on the augmented rows.\<close>

definition lin_solve :: "mat \<Rightarrow> vec \<Rightarrow> vec option" where
  "lin_solve A b =
     (if length b = length A \<and> list_all (\<lambda>r. length r = length A) A
      then solve_rows (length A) (zip A b) else None)"

text \<open>The abstract contract: \<open>x\<close> solves every equation.\<close>

definition sol_of :: "eqn list \<Rightarrow> vec \<Rightarrow> bool" where
  "sol_of rs x = list_all (\<lambda>e. dot (fst e) x = snd e) rs"

definition square :: "nat \<Rightarrow> eqn list \<Rightarrow> bool" where
  "square k rs = (length rs = k \<and> list_all (\<lambda>e. length (fst e) = k) rs)"

section \<open>The pivot\<close>

lemma pivot_idx_less: "rs \<noteq> [] \<Longrightarrow> pivot_idx rs < length rs"
  unfolding pivot_idx_def by (rule argmin_map_less)

lemma pivot_idx_max:
  "e \<in> set rs \<Longrightarrow> \<bar>hd (fst e)\<bar> \<le> \<bar>hd (fst (rs ! pivot_idx rs))\<bar>"
  using argmin_map_le [of e rs "\<lambda>e. - \<bar>hd (fst e)\<bar>"] by (simp add: pivot_idx_def)

section \<open>One elimination step\<close>

lemma sol_of_iff: "sol_of rs x \<longleftrightarrow> (\<forall>e\<in>set rs. dot (fst e) x = snd e)"
  by (simp add: sol_of_def list_all_iff)

lemma square_iff: "square k rs \<longleftrightarrow> length rs = k \<and> (\<forall>e\<in>set rs. length (fst e) = k)"
  by (simp add: square_def list_all_iff)

lemma elim_row_length:
  "length (fst (elim_row pe e)) = min (length (fst e) - 1) (length (fst pe) - 1)"
  by (simp add: elim_row_def Let_def)

text \<open>The eliminated row is the old row minus \<open>f\<close> times the pivot row, with
  the first column (now zero) dropped: both sides agree on any vector.\<close>

lemma elim_row_dot:
  assumes "length (fst e) = Suc k" "length (fst pe) = Suc k" "hd (fst pe) \<noteq> 0"
  shows "dot (fst (elim_row pe e)) z
           = dot (fst e) (z0 # z) - hd (fst e) / hd (fst pe) * dot (fst pe) (z0 # z)"
    and "snd (elim_row pe e) = snd e - hd (fst e) / hd (fst pe) * snd pe"
proof -
  obtain r0 r where e: "fst e = r0 # r" using assms(1) by (cases "fst e") auto
  obtain a p where pe: "fst pe = a # p" using assms(2) by (cases "fst pe") auto
  from assms e pe have "length r = length p" by simp
  then have "dot (fst (elim_row pe e)) z = dot r z - r0 / a * dot p z"
    unfolding elim_row_def Let_def e pe fst_conv list.sel by (rule dot_sub)
  with assms(3) e pe show "dot (fst (elim_row pe e)) z
           = dot (fst e) (z0 # z) - hd (fst e) / hd (fst pe) * dot (fst pe) (z0 # z)"
    by (simp add: field_simps)
  show "snd (elim_row pe e) = snd e - hd (fst e) / hd (fst pe) * snd pe"
    by (simp add: elim_row_def Let_def)
qed

text \<open>The facts every proof about \<open>solve_rows (Suc k)\<close> needs: the pivot is a
  row of the system, the other rows are the rest, and the reduced system is
  square again.\<close>

lemma pivot_step:
  assumes "square (Suc k) rs"
  defines "p \<equiv> pivot_idx rs"
  defines "rest \<equiv> tl (rs[0 := rs ! p, p := rs ! 0])"
  shows "rs \<noteq> []" "rs ! p \<in> set rs" "set rs = insert (rs ! p) (set rest)"
    "square k (map (elim_row (rs ! p)) rest)"
    "\<forall>e\<in>set rs. \<bar>hd (fst e)\<bar> \<le> \<bar>hd (fst (rs ! p))\<bar>"
proof -
  from assms(1) show ne: "rs \<noteq> []" by (auto simp: square_iff)
  then have pl: "p < length rs" by (simp add: p_def pivot_idx_less)
  then show "rs ! p \<in> set rs" by simp
  from pl show set_eq: "set rs = insert (rs ! p) (set rest)"
    unfolding rest_def by (rule set_tl_swap0 [symmetric])
  have "length (fst (rs ! p)) = Suc k" using assms(1) pl by (auto simp: square_iff)
  moreover have "\<forall>e\<in>set rest. length (fst e) = Suc k"
    using assms(1) set_eq by (auto simp: square_iff)
  ultimately show "square k (map (elim_row (rs ! p)) rest)"
    using assms(1) by (simp add: square_iff rest_def elim_row_length)
  show "\<forall>e\<in>set rs. \<bar>hd (fst e)\<bar> \<le> \<bar>hd (fst (rs ! p))\<bar>"
    by (simp add: p_def pivot_idx_max)
qed

text \<open>The two outcomes of one step of \<open>solve_rows\<close>, read off its equation.\<close>

lemma solve_rows_SucE:
  assumes "solve_rows (Suc k) rs = r"
  defines "pe \<equiv> rs ! pivot_idx rs"
  defines "red \<equiv> map (elim_row pe) (tl (rs[0 := pe, pivot_idx rs := rs ! 0]))"
  obtains (stop) "r = None" "rs = [] \<or> hd (fst pe) = 0"
    | (rec) "rs \<noteq> []" "hd (fst pe) \<noteq> 0" "r = (case solve_rows k red of None \<Rightarrow> None
        | Some y \<Rightarrow> Some ((snd pe - dot (tl (fst pe)) y) / hd (fst pe) # y))"
proof (cases "rs = [] \<or> hd (fst pe) = 0")
  case True
  with assms(1) show ?thesis by (intro stop) (auto simp: pe_def)
next
  case False
  have "r = (case solve_rows k red of None \<Rightarrow> None
        | Some y \<Rightarrow> Some ((snd pe - dot (tl (fst pe)) y) / hd (fst pe) # y))"
    using False assms(1) unfolding pe_def red_def by (simp add: Let_def)
  with False show ?thesis by (intro rec) simp_all
qed

section \<open>Correctness of the elimination\<close>

theorem solve_rows_sound:
  "square k rs \<Longrightarrow> solve_rows k rs = Some x \<Longrightarrow> length x = k \<and> sol_of rs x"
proof (induction k arbitrary: rs x)
  case 0
  then show ?case by (simp add: square_iff sol_of_def)
next
  case (Suc k rs x)
  define pe where "pe = rs ! pivot_idx rs"
  define rest where "rest = tl (rs[0 := pe, pivot_idx rs := rs ! 0])"
  note step = pivot_step [OF Suc.prems(1), folded pe_def, folded rest_def]
  from Suc.prems(2) obtain y where a: "hd (fst pe) \<noteq> 0"
    and y: "solve_rows k (map (elim_row pe) rest) = Some y"
    and x: "x = (snd pe - dot (tl (fst pe)) y) / hd (fst pe) # y"
    by (cases rule: solve_rows_SucE) (auto simp: pe_def rest_def split: option.splits)
  from Suc.IH [OF step(4) y] have ly: "length y = k"
    and sy: "sol_of (map (elim_row pe) rest) y" by auto
  have lpe: "length (fst pe) = Suc k" using Suc.prems(1) step(2) by (auto simp: square_iff)
  have piv: "dot (fst pe) x = snd pe"
  proof -
    from lpe obtain a0 t where "fst pe = a0 # t" by (cases "fst pe") auto
    with a x show ?thesis by (simp add: field_simps)
  qed
  have "dot (fst e) x = snd e" if "e \<in> set rest" for e
  proof -
    have le: "length (fst e) = Suc k" using Suc.prems(1) step(3) that by (auto simp: square_iff)
    from sy that have "dot (fst (elim_row pe e)) y = snd (elim_row pe e)"
      by (auto simp: sol_of_iff)
    with elim_row_dot(1) [OF le lpe a, of y "hd x"] elim_row_dot(2) [OF le lpe a] piv x
    show ?thesis by simp
  qed
  with piv step(3) ly x show ?case by (auto simp: sol_of_iff)
qed

theorem solve_rows_unique:
  "square k rs \<Longrightarrow> solve_rows k rs = Some x \<Longrightarrow> length z = k \<Longrightarrow> sol_of rs z \<Longrightarrow> z = x"
proof (induction k arbitrary: rs x z)
  case 0
  then show ?case by simp
next
  case (Suc k rs x z)
  define pe where "pe = rs ! pivot_idx rs"
  define rest where "rest = tl (rs[0 := pe, pivot_idx rs := rs ! 0])"
  note step = pivot_step [OF Suc.prems(1), folded pe_def, folded rest_def]
  from Suc.prems(2) obtain y where a: "hd (fst pe) \<noteq> 0"
    and y: "solve_rows k (map (elim_row pe) rest) = Some y"
    and x: "x = (snd pe - dot (tl (fst pe)) y) / hd (fst pe) # y"
    by (cases rule: solve_rows_SucE) (auto simp: pe_def rest_def split: option.splits)
  from Suc.prems(3) obtain z0 z' where z: "z = z0 # z'" and lz: "length z' = k"
    by (cases z) auto
  have lpe: "length (fst pe) = Suc k" using Suc.prems(1) step(2) by (auto simp: square_iff)
  have zpe: "dot (fst pe) z = snd pe" using Suc.prems(4) step(2) by (auto simp: sol_of_iff)
  have "sol_of (map (elim_row pe) rest) z'"
  proof (unfold sol_of_iff, intro ballI)
    fix e'
    assume "e' \<in> set (map (elim_row pe) rest)"
    then obtain e where e: "e \<in> set rest" and e': "e' = elim_row pe e" by auto
    have le: "length (fst e) = Suc k" using Suc.prems(1) step(3) e by (auto simp: square_iff)
    have "dot (fst e) z = snd e" using Suc.prems(4) step(3) e by (auto simp: sol_of_iff)
    with elim_row_dot(1) [OF le lpe a, of z' z0] elim_row_dot(2) [OF le lpe a] zpe z e'
    show "dot (fst e') z' = snd e'" by simp
  qed
  with Suc.IH [OF step(4) y lz] have "z' = y" by simp
  moreover from lpe obtain a0 t where "fst pe = a0 # t" by (cases "fst pe") auto
  ultimately show ?case using zpe z x a by (simp add: field_simps)
qed

text \<open>\<open>LinAlgError\<close> is raised only for a singular matrix: some non-zero vector
  is mapped to zero.\<close>

theorem solve_rows_None:
  "square k rs \<Longrightarrow> solve_rows k rs = None \<Longrightarrow>
   \<exists>v. length v = k \<and> v \<noteq> replicate k 0 \<and> (\<forall>e\<in>set rs. dot (fst e) v = 0)"
proof (induction k arbitrary: rs)
  case 0
  then show ?case by simp
next
  case (Suc k rs)
  define pe where "pe = rs ! pivot_idx rs"
  define rest where "rest = tl (rs[0 := pe, pivot_idx rs := rs ! 0])"
  note step = pivot_step [OF Suc.prems(1), folded pe_def, folded rest_def]
  have lpe: "length (fst pe) = Suc k" using Suc.prems(1) step(2) by (auto simp: square_iff)
  from Suc.prems(2) show ?case
  proof (cases rule: solve_rows_SucE)
    case stop
    with step(1) have a: "hd (fst pe) = 0" by (simp add: pe_def)
    have "dot (fst e) (1 # replicate k 0) = 0" if "e \<in> set rs" for e
    proof -
      from step(5) that a have "hd (fst e) = 0" by (auto simp: pe_def)
      moreover have "fst e \<noteq> []" using Suc.prems(1) that by (auto simp: square_iff)
      ultimately show ?thesis by (cases "fst e") simp_all
    qed
    then show ?thesis by (intro exI [of _ "1 # replicate k 0"]) simp
  next
    case rec
    then have a: "hd (fst pe) \<noteq> 0" and red: "solve_rows k (map (elim_row pe) rest) = None"
      by (simp_all add: pe_def rest_def split: option.splits)
    from Suc.IH [OF step(4) red] obtain w where lw: "length w = k"
      and nz: "w \<noteq> replicate k 0" and kw: "\<forall>e\<in>set (map (elim_row pe) rest). dot (fst e) w = 0"
      by blast
    define v where "v = - dot (tl (fst pe)) w / hd (fst pe) # w"
    have vpe: "dot (fst pe) v = 0"
    proof -
      from lpe obtain a0 t where "fst pe = a0 # t" by (cases "fst pe") auto
      with a show ?thesis by (simp add: v_def field_simps)
    qed
    have "dot (fst e) v = 0" if "e \<in> set rest" for e
    proof -
      have le: "length (fst e) = Suc k" using Suc.prems(1) step(3) that by (auto simp: square_iff)
      from kw that have "dot (fst (elim_row pe e)) w = 0" by simp
      with elim_row_dot(1) [OF le lpe a, of w "hd v"] vpe show ?thesis by (simp add: v_def)
    qed
    with vpe step(3) lw nz show ?thesis by (intro exI [of _ v]) (auto simp: v_def)
  qed
qed

section \<open>The contract of \<open>np.linalg.solve\<close>\<close>

lemma sol_of_zip:
  "length A = length b \<Longrightarrow> sol_of (zip A b) x \<longleftrightarrow> mat_vec A x = b"
  by (induction A b rule: list_induct2) (simp_all add: sol_of_def mat_vec_def)

lemma square_zip:
  "length b = length A \<Longrightarrow> list_all (\<lambda>r. length r = length A) A \<Longrightarrow>
   square (length A) (zip A b)"
  by (auto simp: square_iff list_all_iff set_zip)

lemma sol_of_shift:
  assumes "sol_of rs x" "\<forall>e\<in>set rs. dot (fst e) v = 0" "length x = length v"
  shows "sol_of rs (map2 (+) x v)"
  using assms by (simp add: sol_of_iff dot_add)

lemma map2_add_eq_self:
  "length x = length v \<Longrightarrow> map2 (+) x v = x \<Longrightarrow> v = replicate (length v) (0::real)"
  by (induction x v rule: list_induct2) simp_all

text \<open>\<open>lin_solve A b\<close> returns \<open>x\<close> exactly when \<open>A\<close> is square and \<open>x\<close>
  is the one and only solution of \<open>A x = b\<close>; otherwise (a singular matrix,
  or a wrong shape) it raises \<open>LinAlgError\<close>.\<close>

theorem lin_solve_correct:
  "lin_solve A b = Some x \<longleftrightarrow>
     length b = length A \<and> list_all (\<lambda>r. length r = length A) A \<and>
     length x = length A \<and> mat_vec A x = b \<and>
     (\<forall>z. length z = length A \<longrightarrow> mat_vec A z = b \<longrightarrow> z = x)"
proof
  assume l: "lin_solve A b = Some x"
  then have shape: "length b = length A" "list_all (\<lambda>r. length r = length A) A"
    by (simp_all add: lin_solve_def split: if_splits)
  then have sq: "square (length A) (zip A b)" by (rule square_zip)
  from l shape have s: "solve_rows (length A) (zip A b) = Some x" by (simp add: lin_solve_def)
  from solve_rows_sound [OF sq s] shape have lx: "length x = length A" and sx: "mat_vec A x = b"
    by (simp_all add: sol_of_zip)
  have "z = x" if "length z = length A" "mat_vec A z = b" for z
  proof (rule solve_rows_unique [OF sq s that(1)])
    from that(2) shape(1) show "sol_of (zip A b) z" by (simp add: sol_of_zip)
  qed
  with shape lx sx show "length b = length A \<and> list_all (\<lambda>r. length r = length A) A \<and>
     length x = length A \<and> mat_vec A x = b \<and>
     (\<forall>z. length z = length A \<longrightarrow> mat_vec A z = b \<longrightarrow> z = x)"
    by blast
next
  assume r: "length b = length A \<and> list_all (\<lambda>r. length r = length A) A \<and>
     length x = length A \<and> mat_vec A x = b \<and>
     (\<forall>z. length z = length A \<longrightarrow> mat_vec A z = b \<longrightarrow> z = x)"
  then have lb: "length b = length A" and la: "list_all (\<lambda>r. length r = length A) A"
    and lx: "length x = length A" and ax: "mat_vec A x = b"
    and uniq: "\<And>z. length z = length A \<Longrightarrow> mat_vec A z = b \<Longrightarrow> z = x"
    by blast+
  from lb la have sq: "square (length A) (zip A b)" by (rule square_zip)
  from lb ax have sx: "sol_of (zip A b) x" by (simp add: sol_of_zip)
  show "lin_solve A b = Some x"
  proof (cases "solve_rows (length A) (zip A b)")
    case None
    from solve_rows_None [OF sq None] obtain v where lv: "length v = length A"
      and nz: "v \<noteq> replicate (length A) 0" and kv: "\<forall>e\<in>set (zip A b). dot (fst e) v = 0"
      by blast
    from lx lv have lxv: "length x = length v" by simp
    from sol_of_shift [OF sx kv lxv] lb have "mat_vec A (map2 (+) x v) = b"
      by (simp add: sol_of_zip)
    with lxv lx have "map2 (+) x v = x" by (intro uniq) simp_all
    with map2_add_eq_self [OF lxv] lv nz show ?thesis by simp
  next
    case (Some y)
    from solve_rows_sound [OF sq Some] lb have "length y = length A" "mat_vec A y = b"
      by (simp_all add: sol_of_zip)
    then have "y = x" by (rule uniq)
    with lb la Some show ?thesis by (simp add: lin_solve_def)
  qed
qed

end
