(* ===== verification/Combinations.thy ===== *)
theory Combinations
  imports Prelude "HOL-Library.Sublist" "HOL-Library.List_Lexorder"
begin

text \<open>
  \<open>itertools.combinations(range(len(b)), n)\<close>, the enumeration of the row
  subsets at \<open>src/optimizer.py\<close> line 24. The library is not part of the
  repository; it is modelled from its documented contract: the \<open>k\<close>-element
  subsequences of the input, in lexicographic order of positions. The lemmas
  show exactly that (\<open>combinations_iff\<close>, \<open>combinations_range\<close>), that
  there are \<open>m choose k\<close> of them with no repetition, and that the order is
  the strict lexicographic order on index lists, which fixes which vertex wins
  a tie in \<open>optimizerLP\<close>.
\<close>

fun combinations :: "nat \<Rightarrow> 'a list \<Rightarrow> 'a list list" where
  "combinations 0 xs = [[]]"
| "combinations (Suc k) [] = []"
| "combinations (Suc k) (x # xs) = map ((#) x) (combinations k xs) @ combinations (Suc k) xs"

lemma combinations_iff: "c \<in> set (combinations k xs) \<longleftrightarrow> subseq c xs \<and> length c = k"
proof (induction k xs arbitrary: c rule: combinations.induct)
  case (1 xs)
  then show ?case by auto
next
  case (2 k)
  then show ?case by auto
next
  case (3 k x xs)
  show ?case
  proof
    assume "c \<in> set (combinations (Suc k) (x # xs))"
    with "3.IH" show "subseq c (x # xs) \<and> length c = Suc k" by auto
  next
    assume c: "subseq c (x # xs) \<and> length c = Suc k"
    then obtain y c' where yc: "c = y # c'" by (cases c) auto
    show "c \<in> set (combinations (Suc k) (x # xs))"
    proof (cases "y = x")
      case True
      with c yc "3.IH"(1) show ?thesis by simp
    next
      case False
      with c yc "3.IH"(2) show ?thesis by simp
    qed
  qed
qed

lemma length_combinations: "length (combinations k xs) = length xs choose k"
  by (induction k xs rule: combinations.induct) simp_all

lemma distinct_combinations: "distinct xs \<Longrightarrow> distinct (combinations k xs)"
proof (induction k xs rule: combinations.induct)
  case (3 k x xs)
  have "x # c \<notin> set (combinations (Suc k) xs)" for c
    using "3.prems" by (auto simp: combinations_iff dest: list_emb_set)
  with "3.IH" "3.prems" show ?case by (auto simp: distinct_map)
qed simp_all

lemma sorted_combination:
  "sorted_wrt (<) xs \<Longrightarrow> c \<in> set (combinations k xs) \<Longrightarrow> sorted_wrt (<) c"
proof (induction k xs arbitrary: c rule: combinations.induct)
  case (3 k x xs)
  from "3.prems"(2) consider c' where "c = x # c'" "c' \<in> set (combinations k xs)"
    | "c \<in> set (combinations (Suc k) xs)" by auto
  then show ?case
  proof cases
    case 1
    with "3.prems"(1) "3.IH"(1) show ?thesis
      by (auto simp: combinations_iff dest: list_emb_set)
  next
    case 2
    with "3.prems"(1) "3.IH"(2) show ?thesis by simp
  qed
qed auto

text \<open>The order of the enumeration: strictly increasing in the lexicographic
  order of lists, as itertools documents for a sorted input.\<close>

lemma combinations_lex_sorted:
  fixes xs :: "'a::linorder list"
  shows "sorted_wrt (<) xs \<Longrightarrow> sorted_wrt (<) (combinations k xs)"
proof (induction k xs rule: combinations.induct)
  case (3 k x xs)
  have "x # a < b" if "b \<in> set (combinations (Suc k) xs)" for a b
  proof -
    from that have sub: "subseq b xs" and len: "length b = Suc k"
      by (simp_all add: combinations_iff)
    from len obtain y b' where b: "b = y # b'" by (cases b) auto
    from sub b have "y \<in> set xs" by (auto elim: list_emb_set)
    with "3.prems" b show ?thesis by simp
  qed
  with "3.IH" "3.prems" show ?case by (simp add: sorted_wrt_append sorted_wrt_map)
qed simp_all

text \<open>Over \<open>range(m)\<close>: the strictly increasing index lists of length \<open>k\<close>
  below \<open>m\<close>, each once.\<close>

lemma combinations_range:
  "c \<in> set (combinations k [0..<m]) \<longleftrightarrow>
     sorted_wrt (<) c \<and> length c = k \<and> (\<forall>i\<in>set c. i < m)"
proof
  assume c: "c \<in> set (combinations k [0..<m])"
  then have "sorted_wrt (<) c" by (rule sorted_combination [rotated]) simp
  moreover from c have "subseq c [0..<m]" "length c = k" by (simp_all add: combinations_iff)
  moreover have "i < m" if "i \<in> set c" for i
    using \<open>subseq c [0..<m]\<close> that by (auto elim: list_emb_set)
  ultimately show "sorted_wrt (<) c \<and> length c = k \<and> (\<forall>i\<in>set c. i < m)"
    by blast
next
  assume c: "sorted_wrt (<) c \<and> length c = k \<and> (\<forall>i\<in>set c. i < m)"
  have "subseq c [0..<m]"
  proof (rule sorted_subset_imp_subseq)
    from c show "set c \<subseteq> set [0..<m]" by auto
    from c show "sorted_wrt (<) c" by simp
    show "sorted_wrt (\<le>) [0..<m]" by (simp add: sorted_wrt_iff_nth_less)
  qed
  with c show "c \<in> set (combinations k [0..<m])" by (simp add: combinations_iff)
qed

end
