(* ===== verification/VertexEnum.thy ===== *)
theory VertexEnum
  imports LinSolve Combinations
begin

text \<open>
  The LP solver of \<open>src/optimizer.py\<close>: \<open>Optimizer.intersections\<close>
  (lines 10--38) and \<open>Optimizer.optimizerLP\<close> (lines 40--60). A constraint
  system is the matrix \<open>A\<close> as a list of rows and the vector \<open>b\<close>, read as
  \<open>A x \<le> b\<close>. \<open>intersections\<close> solves the square subsystem of every
  \<open>n\<close>-subset of rows (\<open>n\<close> the number of columns), skips singular ones,
  and keeps the solutions that satisfy every row up to the tolerance;
  \<open>optimizerLP\<close> returns the first of them of least cost, or \<open>None\<close> (the
  code's \<open>(None, None)\<close>) when there is none. The lemmas characterise the
  vertices returned, show that the result is feasible, tight on \<open>n\<close> rows, of
  least cost among all vertices, and the first such in enumeration order.
\<close>

section \<open>Definitions\<close>

text \<open>\<open>A.shape[1]\<close>, the number of variables.\<close>

definition ncols :: "mat \<Rightarrow> nat" where
  "ncols A = (case A of [] \<Rightarrow> 0 | r # _ \<Rightarrow> length r)"

text \<open>\<open>all(np.dot(A, x) <= b + 1e-10)\<close>.\<close>

definition feasible :: "mat \<Rightarrow> vec \<Rightarrow> vec \<Rightarrow> bool" where
  "feasible A b x = list_all2 (\<lambda>r bi. dot r x \<le> bi + tol) A b"

text \<open>\<open>A[list(idx)]\<close> and \<open>b[list(idx)]\<close>.\<close>

definition sub :: "'a list \<Rightarrow> nat list \<Rightarrow> 'a list" where
  "sub xs idx = map ((!) xs) idx"

text \<open>The body of the loop of \<open>intersections\<close> for one combination: the
  points it appends (\<open>LinAlgError\<close> continues, an infeasible point is
  dropped).\<close>

definition inter_step :: "mat \<Rightarrow> vec \<Rightarrow> nat list \<Rightarrow> vec list" where
  "inter_step A b idx =
     (case lin_solve (sub A idx) (sub b idx) of
        None \<Rightarrow> []
      | Some x \<Rightarrow> if feasible A b x then [x] else [])"

fun inter_loop :: "mat \<Rightarrow> vec \<Rightarrow> nat list list \<Rightarrow> vec list" where
  "inter_loop A b [] = []"
| "inter_loop A b (idx # idxs) = inter_step A b idx @ inter_loop A b idxs"

definition intersections :: "mat \<Rightarrow> vec \<Rightarrow> vec list" where
  "intersections A b = inter_loop A b (combinations (ncols A) [0..<length b])"

text \<open>\<open>optimizerLP\<close>: \<open>None\<close> for the code's \<open>(None, None)\<close>.\<close>

definition optimizerLP :: "mat \<Rightarrow> vec \<Rightarrow> vec \<Rightarrow> (vec \<times> real) option" where
  "optimizerLP A b c =
     (let vertices = intersections A b
      in if vertices = [] then None
         else let costs = map (\<lambda>v. dot v c) vertices; i = argmin costs
              in Some (vertices ! i, costs ! i))"

text \<open>A vertex in the sense of the code: the unique solution of the square
  subsystem of some \<open>n\<close>-subset of rows, feasible for the whole system.\<close>

definition is_vertex :: "mat \<Rightarrow> vec \<Rightarrow> vec \<Rightarrow> bool" where
  "is_vertex A b x =
     ((\<exists>idx\<in>set (combinations (ncols A) [0..<length b]).
        lin_solve (sub A idx) (sub b idx) = Some x) \<and> feasible A b x)"

text \<open>The equations that evaluate the LP solver on a concrete system.\<close>

lemmas lp_eval = optimizerLP_def intersections_def ncols_def inter_step_def lin_solve_def
  sub_def pivot_idx_def argmin_def elim_row_def feasible_def tol_def Let_def
  numeral_eq_Suc upt_rec

section \<open>The vertices\<close>

lemma set_inter_loop:
  "set (inter_loop A b idxs) =
     {x. (\<exists>idx\<in>set idxs. lin_solve (sub A idx) (sub b idx) = Some x) \<and> feasible A b x}"
  by (induction idxs) (auto simp: inter_step_def split: option.splits)

lemma set_intersections: "set (intersections A b) = {x. is_vertex A b x}"
  by (simp add: intersections_def is_vertex_def set_inter_loop)

lemma length_sub [simp]: "length (sub xs idx) = length idx"
  by (simp add: sub_def)

lemma mat_vec_sub:
  "\<forall>i\<in>set idx. i < length A \<Longrightarrow> mat_vec (sub A idx) x = sub (mat_vec A x) idx"
  by (simp add: sub_def mat_vec_def)

lemma mat_vec_sub_eq:
  "mat_vec (sub A idx) z = sub b idx \<longleftrightarrow> (\<forall>i\<in>set idx. dot (A ! i) z = b ! i)"
  by (simp add: sub_def mat_vec_def map_eq_conv)

text \<open>A well-formed system: as many bounds as rows, every row \<open>n\<close> long.\<close>

definition wf_sys :: "mat \<Rightarrow> vec \<Rightarrow> bool" where
  "wf_sys A b = (length A = length b \<and> list_all (\<lambda>r. length r = ncols A) A)"

lemma wf_sys_sub:
  assumes "wf_sys A b" "\<forall>i\<in>set idx. i < length b" "length idx = ncols A"
  shows "length (sub b idx) = length (sub A idx)"
    "list_all (\<lambda>r. length r = length (sub A idx)) (sub A idx)"
  using assms by (auto simp: wf_sys_def sub_def list_all_iff)

lemma combinations_nil_if_long: "length xs < k \<Longrightarrow> combinations k xs = []"
  by (induction k xs rule: combinations.induct) simp_all

lemma combinations_all: "combinations (length xs) xs = [xs]"
  by (induction xs) (simp_all add: combinations_nil_if_long)

text \<open>Rows appended to a system only cut its feasible set down.\<close>

lemma feasible_prefix:
  assumes "feasible (A0 @ A1) (b0 @ b1) x" "length A1 = length b1"
  shows "feasible A0 b0 x"
proof -
  from assms(1) have "length (A0 @ A1) = length (b0 @ b1)"
    unfolding feasible_def by (rule list_all2_lengthD)
  with assms(2) have "length A0 = length b0" by simp
  with assms(1) show ?thesis by (simp add: feasible_def list_all2_append)
qed

lemma feasible_snoc:
  "feasible (A @ [r]) (b @ [beta]) x \<longleftrightarrow> feasible A b x \<and> dot r x \<le> beta + tol"
proof (cases "length A = length b")
  case True
  then show ?thesis by (simp add: feasible_def list_all2_append)
next
  case False
  then show ?thesis by (auto simp: feasible_def dest: list_all2_lengthD)
qed

section \<open>The LP result\<close>

lemma optimizerLP_SomeE:
  assumes "optimizerLP A b c = Some (x, v)"
  obtains i where "intersections A b \<noteq> []" "i = argmin (map (\<lambda>v. dot v c) (intersections A b))"
    "i < length (intersections A b)" "x = intersections A b ! i" "v = dot x c"
  using assms argmin_map_less [of "intersections A b" "\<lambda>v. dot v c"]
  by (auto simp: optimizerLP_def Let_def split: if_splits)

lemma optimizerLP_None_iff: "optimizerLP A b c = None \<longleftrightarrow> intersections A b = []"
  by (simp add: optimizerLP_def Let_def)

text \<open>C2: what \<open>optimizerLP\<close> returns is a vertex, its value is the cost of
  the vertex, and no vertex of the enumeration costs less: the brute-force
  cross-check of the specification.\<close>

theorem optimizerLP_optimal:
  "optimizerLP A b c = Some (x, v) \<Longrightarrow>
     is_vertex A b x \<and> v = dot x c \<and> (\<forall>y. is_vertex A b y \<longrightarrow> v \<le> dot y c)"
proof -
  assume "optimizerLP A b c = Some (x, v)"
  then obtain i where i: "i = argmin (map (\<lambda>v. dot v c) (intersections A b))"
    "i < length (intersections A b)" "x = intersections A b ! i" "v = dot x c"
    by (rule optimizerLP_SomeE)
  then have "x \<in> set (intersections A b)" by simp
  moreover have "v \<le> dot y c" if "is_vertex A b y" for y
    using that i argmin_map_le [of y "intersections A b" "\<lambda>v. dot v c"]
    by (simp add: set_intersections)
  ultimately show ?thesis using i by (simp add: set_intersections)
qed

text \<open>C8: ties go to the first vertex of the enumeration: every vertex found
  before the returned one costs strictly more.\<close>

theorem optimizerLP_first_min:
  "optimizerLP A b c = Some (x, v) \<Longrightarrow>
     \<exists>i<length (intersections A b). x = intersections A b ! i \<and>
       (\<forall>j<i. v < dot (intersections A b ! j) c)"
proof -
  assume "optimizerLP A b c = Some (x, v)"
  then obtain i where i: "intersections A b \<noteq> []"
    "i = argmin (map (\<lambda>v. dot v c) (intersections A b))"
    "i < length (intersections A b)" "x = intersections A b ! i" "v = dot x c"
    by (rule optimizerLP_SomeE)
  have "v < dot (intersections A b ! j) c" if "j < i" for j
    using argmin_spec(3) [of "map (\<lambda>v. dot v c) (intersections A b)"] i that by simp
  with i show ?thesis by blast
qed

text \<open>C9: \<open>optimizerLP\<close> reports infeasibility exactly when no
  \<open>n\<close>-subset of rows has a unique solution that satisfies every row.\<close>

theorem optimizerLP_infeasible:
  "optimizerLP A b c = None \<longleftrightarrow> (\<forall>x. \<not> is_vertex A b x)"
  by (auto simp: optimizerLP_None_iff set_intersections simp flip: set_empty)

text \<open>C3: every point \<open>intersections\<close> returns is a vertex in the geometric
  sense: it satisfies all rows up to the tolerance, and it is the only point on
  which some \<open>n\<close> rows, chosen in increasing order, are tight.\<close>

theorem intersections_vertex:
  assumes "wf_sys A b" "x \<in> set (intersections A b)"
  shows "feasible A b x \<and> length x = ncols A \<and>
    (\<exists>idx. sorted_wrt (<) idx \<and> length idx = ncols A \<and> (\<forall>i\<in>set idx. i < length b) \<and>
       (\<forall>i\<in>set idx. dot (A ! i) x = b ! i) \<and>
       (\<forall>z. length z = ncols A \<longrightarrow> (\<forall>i\<in>set idx. dot (A ! i) z = b ! i) \<longrightarrow> z = x))"
proof -
  from assms(2) obtain idx where idx: "idx \<in> set (combinations (ncols A) [0..<length b])"
    and sol: "lin_solve (sub A idx) (sub b idx) = Some x" and fe: "feasible A b x"
    by (auto simp: set_intersections is_vertex_def)
  from idx have ord: "sorted_wrt (<) idx" "length idx = ncols A" "\<forall>i\<in>set idx. i < length b"
    by (simp_all add: combinations_range)
  from sol have "length x = length (sub A idx) \<and> mat_vec (sub A idx) x = sub b idx \<and>
      (\<forall>z. length z = length (sub A idx) \<longrightarrow> mat_vec (sub A idx) z = sub b idx \<longrightarrow> z = x)"
    by (simp add: lin_solve_correct)
  with ord fe show ?thesis by (intro conjI exI [of _ idx]) (simp_all add: mat_vec_sub_eq)
qed

text \<open>C10: the boundary case \<open>m = n\<close>: a single combination, so the LP result is
  the solution of the whole system if it is feasible.\<close>

theorem optimizerLP_square:
  assumes "length A = length b" "length b = ncols A"
  shows "optimizerLP A b c =
    (case lin_solve A b of None \<Rightarrow> None
     | Some x \<Rightarrow> if feasible A b x then Some (x, dot x c) else None)"
proof -
  have "combinations (ncols A) [0..<length b] = [[0..<length b]]"
    using combinations_all [of "[0..<length b]"] assms(2) by simp
  moreover have "sub A [0..<length b] = A" "sub b [0..<length b] = b"
    using map_nth [of A] map_nth [of b] assms(1) by (simp_all add: sub_def)
  ultimately have "intersections A b = inter_step A b [0..<length b]"
    by (simp add: intersections_def)
  then show ?thesis
    using \<open>sub A [0..<length b] = A\<close> \<open>sub b [0..<length b] = b\<close>
    by (simp add: optimizerLP_def inter_step_def argmin_def split: option.splits)
qed

end
