(* ===== verification/BranchBound.thy ===== *)
theory BranchBound
  imports VertexEnum "HOL-Library.Monad_Syntax"
begin

text \<open>
  The integer solver of \<open>src/optimizer.py\<close>: \<open>Optimizer.optimizerIPBB\<close>
  and its inner \<open>branch_and_bound\<close> (lines 62--117). Each call solves the LP
  relaxation with \<open>optimizerLP\<close>, returns \<open>(None, inf)\<close> if it is
  infeasible, prunes when the relaxed value is not below the incumbent, accepts an
  integral solution, and otherwise branches on the first fractional coordinate:
  the floor child appends the row \<open>e_i\<close> with bound \<open>floor(x_i)\<close>, the ceil
  child appends the same row with bound \<open>-ceil(x_i)\<close>, and the incumbent is
  threaded from the floor child into the ceil child. The recursion has no
  termination argument (a branch need not shrink the region), so it is a
  \<open>partial_function (option)\<close>; \<open>None\<close> is non-termination. The fuel variant
  \<open>bb_fuel\<close> computes the same results and is what concrete runs evaluate.
\<close>

section \<open>Definitions\<close>

text \<open>Python's \<open>round\<close> on a float: the nearest integer, ties to even.\<close>

definition py_round :: "real \<Rightarrow> real" where
  "py_round x =
     (let f = \<lfloor>x\<rfloor>; d = x - of_int f
      in if d < 1 / 2 then of_int f
         else if 1 / 2 < d then of_int f + 1
         else if even f then of_int f else of_int f + 1)"

text \<open>\<open>all(abs(x - round(x)) < 1e-10 for x in sol)\<close> (line 82).\<close>

definition is_integral :: "vec \<Rightarrow> bool" where
  "is_integral sol = list_all (\<lambda>x. \<bar>x - py_round x\<bar> < tol) sol"

text \<open>The loop of line 86: the first index whose value is more than the
  tolerance away from an integer (line 87), where the loop breaks.\<close>

fun first_frac_from :: "nat \<Rightarrow> vec \<Rightarrow> nat option" where
  "first_frac_from i [] = None"
| "first_frac_from i (x # xs) =
     (if tol < \<bar>x - py_round x\<bar> then Some i else first_frac_from (Suc i) xs)"

definition first_frac :: "vec \<Rightarrow> nat option" where
  "first_frac sol = first_frac_from 0 sol"

text \<open>\<open>[0] * i + [1] + [0] * (len(sol) - i - 1)\<close> (line 93).\<close>

definition branch_row :: "nat \<Rightarrow> nat \<Rightarrow> vec" where
  "branch_row n i = replicate i 0 @ [1] @ replicate (n - i - 1) 0"

text \<open>\<open>A_new\<close>, \<open>b_floor\<close> and \<open>b_ceil\<close> (lines 93, 96, 105).\<close>

definition A_new :: "mat \<Rightarrow> vec \<Rightarrow> nat \<Rightarrow> mat" where
  "A_new A sol i = A @ [branch_row (length sol) i]"

definition b_floor :: "vec \<Rightarrow> vec \<Rightarrow> nat \<Rightarrow> vec" where
  "b_floor b sol i = b @ [of_int \<lfloor>sol ! i\<rfloor>]"

definition b_ceil :: "vec \<Rightarrow> vec \<Rightarrow> nat \<Rightarrow> vec" where
  "b_ceil b sol i = b @ [- of_int \<lceil>sol ! i\<rceil>]"

text \<open>Lines 100--102 and 109--111: keep the child's result only if it is
  strictly better.\<close>

definition keep_better :: "vec option \<times> xreal \<Rightarrow> vec option \<times> xreal \<Rightarrow> vec option \<times> xreal" where
  "keep_better best child = (if snd child < snd best then child else best)"

partial_function (option) branch_and_bound ::
  "mat \<Rightarrow> vec \<Rightarrow> vec \<Rightarrow> vec option \<Rightarrow> xreal \<Rightarrow> (vec option \<times> xreal) option" where
  "branch_and_bound A b c best_sol best_val =
     (case optimizerLP A b c of
        None \<Rightarrow> Some (None, PInf)
      | Some (sol, val) \<Rightarrow>
          if best_val \<le> Fin val then Some (best_sol, best_val)
          else if is_integral sol then Some (Some sol, Fin val)
          else case first_frac sol of
            None \<Rightarrow> Some (best_sol, best_val)
          | Some i \<Rightarrow> do {
              fl \<leftarrow> branch_and_bound (A_new A sol i) (b_floor b sol i) c best_sol best_val;
              let best = keep_better (best_sol, best_val) fl;
              ce \<leftarrow> branch_and_bound (A_new A sol i) (b_ceil b sol i) c (fst best) (snd best);
              Some (keep_better best ce)
            })"

definition optimizerIPBB :: "mat \<Rightarrow> vec \<Rightarrow> vec \<Rightarrow> (vec option \<times> xreal) option" where
  "optimizerIPBB A b c = branch_and_bound A b c None PInf"

text \<open>The same recursion with a bound on its depth, for evaluation.\<close>

fun bb_fuel ::
  "nat \<Rightarrow> mat \<Rightarrow> vec \<Rightarrow> vec \<Rightarrow> vec option \<Rightarrow> xreal \<Rightarrow> (vec option \<times> xreal) option" where
  "bb_fuel 0 A b c best_sol best_val = None"
| "bb_fuel (Suc n) A b c best_sol best_val =
     (case optimizerLP A b c of
        None \<Rightarrow> Some (None, PInf)
      | Some (sol, val) \<Rightarrow>
          if best_val \<le> Fin val then Some (best_sol, best_val)
          else if is_integral sol then Some (Some sol, Fin val)
          else case first_frac sol of
            None \<Rightarrow> Some (best_sol, best_val)
          | Some i \<Rightarrow> do {
              fl \<leftarrow> bb_fuel n (A_new A sol i) (b_floor b sol i) c best_sol best_val;
              let best = keep_better (best_sol, best_val) fl;
              ce \<leftarrow> bb_fuel n (A_new A sol i) (b_ceil b sol i) c (fst best) (snd best);
              Some (keep_better best ce)
            })"

text \<open>The branching tree of a system, independent of the incumbent: a node
  whose relaxation is infeasible, integral or has no fractional coordinate is
  a leaf, and every other node has the floor and the ceil child. The tree has
  depth at most \<open>k\<close> when \<open>settled_within k\<close> holds.\<close>

fun settled_within :: "nat \<Rightarrow> mat \<Rightarrow> vec \<Rightarrow> vec \<Rightarrow> bool" where
  "settled_within 0 A b c = False"
| "settled_within (Suc k) A b c =
     (case optimizerLP A b c of
        None \<Rightarrow> True
      | Some (sol, val) \<Rightarrow>
          is_integral sol \<or>
          (case first_frac sol of
             None \<Rightarrow> True
           | Some i \<Rightarrow> settled_within k (A_new A sol i) (b_floor b sol i) c \<and>
                       settled_within k (A_new A sol i) (b_ceil b sol i) c))"

text \<open>The equations that evaluate a search step on a concrete system.\<close>

lemmas ip_eval = is_integral_def py_round_def first_frac_def A_new_def b_floor_def b_ceil_def
  branch_row_def keep_better_def tol_def

section \<open>The fuel variant computes the recursion\<close>

lemma bb_fuel_sound:
  "bb_fuel n A b c s v = Some r \<Longrightarrow> branch_and_bound A b c s v = Some r"
proof (induction n arbitrary: A b c s v r)
  case 0
  then show ?case by simp
next
  case (Suc n)
  show ?case
    using Suc.prems Suc.IH
    by (subst branch_and_bound.simps)
       (auto simp: Let_def split: option.splits if_splits prod.splits bind_splits)
qed

section \<open>Helpers\<close>

lemma keep_better_cases: "keep_better best child = best \<or> keep_better best child = child"
  by (simp add: keep_better_def)

lemma keep_better_le: "snd (keep_better best child) \<le> snd best"
  by (simp add: keep_better_def order.strict_implies_order)

lemma dot_branch_row:
  "i < length y \<Longrightarrow> dot (branch_row (length y) i) y = y ! i"
proof (induction y arbitrary: i)
  case Nil
  then show ?case by simp
next
  case (Cons y0 y)
  then show ?case
    by (cases i) (simp_all add: branch_row_def)
qed

text \<open>The children's systems are the parent's with one row appended.\<close>

lemma children_extend:
  "A_new A sol i = A @ [branch_row (length sol) i]"
  "b_floor b sol i = b @ [of_int \<lfloor>sol ! i\<rfloor>]"
  "b_ceil b sol i = b @ [- of_int \<lceil>sol ! i\<rceil>]"
  by (simp_all add: A_new_def b_floor_def b_ceil_def)

text \<open>The two outcomes of a branching step, read off the equation.\<close>

lemma bb_branchE:
  assumes "(do {
      fl \<leftarrow> f (A_new A sol i) (b_floor b sol i) c s v;
      let best = keep_better (s, v) fl;
      ce \<leftarrow> f (A_new A sol i) (b_ceil b sol i) c (fst best) (snd best);
      Some (keep_better best ce)
    }) = Some r"
  obtains fl ce where "f (A_new A sol i) (b_floor b sol i) c s v = Some fl"
    "f (A_new A sol i) (b_ceil b sol i) c (fst (keep_better (s, v) fl))
       (snd (keep_better (s, v) fl)) = Some ce"
    "r = keep_better (keep_better (s, v) fl) ce"
  using assms by (auto simp: Let_def split: bind_splits)

text \<open>The invariant of the incumbent: none, with value \<open>inf\<close>, or an integral
  point feasible for the root system, with its cost as value.\<close>

definition inc_ok :: "mat \<Rightarrow> vec \<Rightarrow> vec \<Rightarrow> vec option \<Rightarrow> xreal \<Rightarrow> bool" where
  "inc_ok A b c s v =
     (case s of None \<Rightarrow> v = PInf | Some x \<Rightarrow> is_integral x \<and> feasible A b x \<and> v = Fin (dot x c))"

lemma inc_ok_keep_better:
  "inc_ok A b c (fst best) (snd best) \<Longrightarrow> inc_ok A b c (fst child) (snd child) \<Longrightarrow>
   inc_ok A b c (fst (keep_better best child)) (snd (keep_better best child))"
  using keep_better_cases [of best child] by auto

section \<open>The incumbent invariant\<close>

text \<open>Fixpoint induction over the recursion: for a node whose system extends
  the root system \<open>A0, b0\<close> by appended rows, an incumbent that is valid for
  the root stays valid. Every node's system extends the root's, so what the
  search returns is valid for the root.\<close>

lemma bb_inc_ok:
  assumes "branch_and_bound A b c s v = Some r"
  shows "\<forall>A0 A1 b0 b1. A = A0 @ A1 \<longrightarrow> b = b0 @ b1 \<longrightarrow> length A1 = length b1 \<longrightarrow>
           inc_ok A0 b0 c s v \<longrightarrow> inc_ok A0 b0 c (fst r) (snd r)"
proof (rule branch_and_bound.raw_induct [where P = "\<lambda>A b c s v r.
    \<forall>A0 A1 b0 b1. A = A0 @ A1 \<longrightarrow> b = b0 @ b1 \<longrightarrow> length A1 = length b1 \<longrightarrow>
      inc_ok A0 b0 c s v \<longrightarrow> inc_ok A0 b0 c (fst r) (snd r)", OF _ assms])
  fix f A b c s v r
  assume IH: "\<And>A b c s v r. f A b c s v = Some r \<Longrightarrow>
    \<forall>A0 A1 b0 b1. A = A0 @ A1 \<longrightarrow> b = b0 @ b1 \<longrightarrow> length A1 = length b1 \<longrightarrow>
      inc_ok A0 b0 c s v \<longrightarrow> inc_ok A0 b0 c (fst r) (snd r)"
  assume body: "(case optimizerLP A b c of None \<Rightarrow> Some (None, PInf)
      | Some (sol, val) \<Rightarrow>
          if v \<le> Fin val then Some (s, v)
          else if is_integral sol then Some (Some sol, Fin val)
          else case first_frac sol of None \<Rightarrow> Some (s, v)
            | Some i \<Rightarrow> do {
                fl \<leftarrow> f (A_new A sol i) (b_floor b sol i) c s v;
                let best = keep_better (s, v) fl;
                ce \<leftarrow> f (A_new A sol i) (b_ceil b sol i) c (fst best) (snd best);
                Some (keep_better best ce)
              }) = Some r"
  show "\<forall>A0 A1 b0 b1. A = A0 @ A1 \<longrightarrow> b = b0 @ b1 \<longrightarrow> length A1 = length b1 \<longrightarrow>
      inc_ok A0 b0 c s v \<longrightarrow> inc_ok A0 b0 c (fst r) (snd r)"
  proof (intro allI impI)
    fix A0 A1 b0 b1
    assume A: "A = A0 @ A1" and B: "b = b0 @ b1" and L: "length A1 = length b1"
      and inc: "inc_ok A0 b0 c s v"
    show "inc_ok A0 b0 c (fst r) (snd r)"
    proof (cases "optimizerLP A b c")
      case None
      with body have "r = (None, PInf)" by simp
      then show ?thesis by (simp add: inc_ok_def)
    next
      case (Some p)
      then obtain sol val where lp: "optimizerLP A b c = Some (sol, val)" by (cases p) auto
      from optimizerLP_optimal [OF lp] have "feasible A b sol" and val: "val = dot sol c"
        by (simp_all add: is_vertex_def)
      with A B L have fs: "feasible A0 b0 sol" by (simp add: feasible_prefix)
      consider (prune) "v \<le> Fin val" | (int) "\<not> v \<le> Fin val" "is_integral sol"
        | (gap) "\<not> v \<le> Fin val" "\<not> is_integral sol" "first_frac sol = None"
        | (br) i where "\<not> v \<le> Fin val" "\<not> is_integral sol" "first_frac sol = Some i"
        by (cases "first_frac sol") auto
      then show ?thesis
      proof cases
        case prune
        with body lp have "r = (s, v)" by simp
        with inc show ?thesis by simp
      next
        case int
        with body lp have "r = (Some sol, Fin val)" by simp
        with int fs val show ?thesis by (simp add: inc_ok_def)
      next
        case gap
        with body lp have "r = (s, v)" by simp
        with inc show ?thesis by simp
      next
        case br
        with body lp obtain fl ce
          where fl: "f (A_new A sol i) (b_floor b sol i) c s v = Some fl"
          and ce: "f (A_new A sol i) (b_ceil b sol i) c (fst (keep_better (s, v) fl))
                     (snd (keep_better (s, v) fl)) = Some ce"
          and r: "r = keep_better (keep_better (s, v) fl) ce"
          by (auto elim: bb_branchE)
        have ext: "A_new A sol i = A0 @ (A1 @ [branch_row (length sol) i])"
          "b_floor b sol i = b0 @ (b1 @ [of_int \<lfloor>sol ! i\<rfloor>])"
          "b_ceil b sol i = b0 @ (b1 @ [- of_int \<lceil>sol ! i\<rceil>])"
          by (simp_all add: children_extend A B)
        from IH [OF fl] ext L inc have "inc_ok A0 b0 c (fst fl) (snd fl)" by simp
        with inc have k1: "inc_ok A0 b0 c (fst (keep_better (s, v) fl)) (snd (keep_better (s, v) fl))"
          using inc_ok_keep_better [of A0 b0 c "(s, v)"] by simp
        from IH [OF ce] ext L k1 have "inc_ok A0 b0 c (fst ce) (snd ce)" by simp
        with k1 r show ?thesis by (simp add: inc_ok_keep_better)
      qed
    qed
  qed
qed

section \<open>Properties of the search\<close>

text \<open>C1: whatever \<open>optimizerIPBB\<close> returns is a valid answer: either no point
  with value \<open>inf\<close>, or an integral point that satisfies every row of the
  original system up to the tolerance, with its cost as value.\<close>

theorem optimizerIPBB_sound:
  "optimizerIPBB A b c = Some (s, v) \<Longrightarrow>
     (case s of None \<Rightarrow> v = PInf
      | Some x \<Rightarrow> is_integral x \<and> feasible A b x \<and> v = Fin (dot x c))"
proof -
  assume "optimizerIPBB A b c = Some (s, v)"
  then have "branch_and_bound A b c None PInf = Some (s, v)" by (simp add: optimizerIPBB_def)
  from bb_inc_ok [OF this, rule_format, of A "[]" b "[]"] show ?thesis
    by (simp add: inc_ok_def)
qed

text \<open>C6: when the LP relaxation of the root is already integral, the integer
  solver returns that point and value.\<close>

theorem optimizerIPBB_integral_relaxation:
  "optimizerLP A b c = Some (x, w) \<Longrightarrow> is_integral x \<Longrightarrow>
   optimizerIPBB A b c = Some (Some x, Fin w)"
  by (simp add: optimizerIPBB_def branch_and_bound.simps)

text \<open>C7: a node whose relaxation is infeasible returns \<open>(None, inf)\<close>, whatever
  the incumbent it was given; at the root this is the report that there is
  no solution.\<close>

theorem bb_infeasible_node:
  "optimizerLP A b c = None \<Longrightarrow> branch_and_bound A b c s v = Some (None, PInf)"
  by (simp add: branch_and_bound.simps)

text \<open>C11: a node whose relaxed value is not below the incumbent is pruned: it
  returns the incumbent unchanged.\<close>

theorem bb_prune:
  "optimizerLP A b c = Some (x, w) \<Longrightarrow> v \<le> Fin w \<Longrightarrow>
   branch_and_bound A b c s v = Some (s, v)"
  by (simp add: branch_and_bound.simps)

text \<open>C12: a node with a feasible relaxation never returns a worse value than the
  incumbent it was given.\<close>

theorem bb_value_le:
  assumes "branch_and_bound A b c s v = Some r" "optimizerLP A b c \<noteq> None"
  shows "snd r \<le> v"
proof -
  from assms(2) obtain sol val where lp: "optimizerLP A b c = Some (sol, val)" by auto
  note body = assms(1) [unfolded branch_and_bound.simps [of A b c s v], unfolded lp]
  consider (stop) "r = (s, v)" | (int) "r = (Some sol, Fin val)" "\<not> v \<le> Fin val"
    | (br) i where "first_frac sol = Some i" "(do {
         fl \<leftarrow> branch_and_bound (A_new A sol i) (b_floor b sol i) c s v;
         let best = keep_better (s, v) fl;
         ce \<leftarrow> branch_and_bound (A_new A sol i) (b_ceil b sol i) c (fst best) (snd best);
         Some (keep_better best ce) }) = Some r"
    using body by (auto split: if_splits option.splits)
  then show ?thesis
  proof cases
    case stop
    then show ?thesis by simp
  next
    case int
    then show ?thesis by auto
  next
    case br
    from br(2) obtain fl ce where "r = keep_better (keep_better (s, v) fl) ce"
      by (rule bb_branchE)
    then show ?thesis
      using keep_better_le [of "keep_better (s, v) fl" ce] keep_better_le [of "(s, v)" fl]
      by simp
  qed
qed

text \<open>C13: the floor child restricts the branching coordinate as intended: its
  feasible points are the parent's with \<open>x_i \<le> floor(sol_i)\<close>.\<close>

theorem floor_child_feasible:
  "i < length sol \<Longrightarrow> length y = length sol \<Longrightarrow>
   feasible (A_new A sol i) (b_floor b sol i) y \<longleftrightarrow>
     feasible A b y \<and> y ! i \<le> of_int \<lfloor>sol ! i\<rfloor> + tol"
  by (simp add: children_extend feasible_snoc dot_branch_row [of i y, symmetric])

text \<open>C5: the ceil child does not: it appends the row \<open>e_i\<close> with bound
  \<open>-ceil(sol_i)\<close>, i.e. \<open>x_i \<le> -ceil(sol_i)\<close>, so for a positive fractional
  coordinate no point of the ceil child has \<open>x_i \<ge> ceil(sol_i)\<close>, the bound the
  branch is meant to impose.\<close>

theorem ceil_child_excludes_ceiling:
  assumes "i < length sol" "length y = length sol" "0 < sol ! i"
    "feasible (A_new A sol i) (b_ceil b sol i) y"
  shows "y ! i < of_int \<lceil>sol ! i\<rceil>"
proof -
  from assms(1,2,4) have "y ! i \<le> - of_int \<lceil>sol ! i\<rceil> + tol"
    by (simp add: children_extend feasible_snoc dot_branch_row [of i y, symmetric])
  moreover from assms(3) have "(1::real) \<le> of_int \<lceil>sol ! i\<rceil>" by simp
  ultimately show ?thesis using tol_bounds by linarith
qed

lemma py_round_of_int: "py_round (of_int k) = of_int k"
  by (simp add: py_round_def)

lemma is_integral_replicate_int: "is_integral (replicate n (of_int k))"
  using tol_bounds(1) by (simp add: is_integral_def py_round_of_int list_all_iff)

lemma settled_bb_fuel: "settled_within k A b c \<Longrightarrow> \<exists>r. bb_fuel k A b c s v = Some r"
proof (induction k arbitrary: A b c s v)
  case 0
  then show ?case by simp
next
  case (Suc k)
  show ?case
  proof (cases "optimizerLP A b c")
    case None
    then show ?thesis by simp
  next
    case (Some p)
    obtain sol val where p: "p = (sol, val)" by (cases p)
    show ?thesis
    proof (cases "v \<le> Fin val \<or> is_integral sol \<or> first_frac sol = None")
      case True
      with Some p show ?thesis by auto
    next
      case False
      then obtain i where i: "first_frac sol = Some i" "\<not> is_integral sol" by auto
      with Suc.prems Some p have fl: "settled_within k (A_new A sol i) (b_floor b sol i) c"
        and ce: "settled_within k (A_new A sol i) (b_ceil b sol i) c" by simp_all
      obtain r1 where r1: "bb_fuel k (A_new A sol i) (b_floor b sol i) c s v = Some r1"
        using Suc.IH [OF fl] by blast
      obtain r2 where r2: "bb_fuel k (A_new A sol i) (b_ceil b sol i) c
          (fst (keep_better (s, v) r1)) (snd (keep_better (s, v) r1)) = Some r2"
        using Suc.IH [OF ce] by blast
      from False Some p i r1 r2 show ?thesis by simp
    qed
  qed
qed


end
