(* ===== verification/HajjData.thy ===== *)
theory HajjData
  imports VertexEnum
begin

text \<open>
  The problem instances of \<open>src/data/sample_data.py\<close>: class \<open>HajjData\<close>
  holds three examples (dictionaries of ports with their pilgrims, hotels with
  their capacities, a bus capacity and a cost per port-hotel pair), and
  \<open>get_problem_matrices\<close> turns one into the system \<open>A x \<le> b\<close> and the cost
  vector \<open>c\<close> over the variables \<open>x[i * n_hotels + j]\<close>, the pilgrims sent
  from port \<open>i\<close> to hotel \<open>j\<close>. A dictionary is an association list in
  insertion order (Python 3.7 dictionaries iterate in that order), and a
  missing cost is Python's \<open>KeyError\<close>. The rows are built by the code's
  loops over zero matrices; the lemmas give them in closed form and show that
  the system says exactly: each port sends at most its pilgrims, each hotel
  receives at most its capacity, each route carries at most the bus
  capacity. There is no lower bound on any variable.
\<close>

section \<open>Data\<close>

record hajj_data =
  ports :: "(string \<times> real) list"
  hotels :: "(string \<times> real) list"
  bus_capacity :: real
  costs :: "((string \<times> string) \<times> real) list"

text \<open>Sample 1: 2 ports, 2 hotels (lines 8--24).\<close>

definition small_example :: hajj_data where
  "small_example = \<lparr>
     ports = [(''p1'', 60), (''p2'', 40)],
     hotels = [(''h1'', 80), (''h2'', 40)],
     bus_capacity = 50,
     costs = [((''p1'', ''h1''), 100),
        ((''p1'', ''h2''), 80),
        ((''p2'', ''h1''), 90),
        ((''p2'', ''h2''), 120)]\<rparr>"

text \<open>Sample 2: 3 ports, 4 hotels (lines 27--54).\<close>

definition medium_example :: hajj_data where
  "medium_example = \<lparr>
     ports = [(''Jeddah_Airport'', 200), (''Medina_Airport'', 150), (''Land_Border'', 100)],
     hotels = [(''Makkah_H1'', 150), (''Makkah_H2'', 100), (''Madinah_H1'', 120), (''Madinah_H2'', 80)],
     bus_capacity = 50,
     costs = [((''Jeddah_Airport'', ''Makkah_H1''), 150),
        ((''Jeddah_Airport'', ''Makkah_H2''), 160),
        ((''Jeddah_Airport'', ''Madinah_H1''), 300),
        ((''Jeddah_Airport'', ''Madinah_H2''), 310),
        ((''Medina_Airport'', ''Makkah_H1''), 280),
        ((''Medina_Airport'', ''Makkah_H2''), 290),
        ((''Medina_Airport'', ''Madinah_H1''), 100),
        ((''Medina_Airport'', ''Madinah_H2''), 110),
        ((''Land_Border'', ''Makkah_H1''), 200),
        ((''Land_Border'', ''Makkah_H2''), 210),
        ((''Land_Border'', ''Madinah_H1''), 250),
        ((''Land_Border'', ''Madinah_H2''), 260)]\<rparr>"

text \<open>Sample 3: 5 ports, 6 hotels (lines 57--115).\<close>

definition large_example :: hajj_data where
  "large_example = \<lparr>
     ports = [(''Jeddah_Int_Airport'', 300), (''Medina_Int_Airport'', 250), (''Taif_Airport'', 150), (''Yanbu_Seaport'', 100), (''Northern_Border'', 200)],
     hotels = [(''Makkah_Premium'', 200), (''Makkah_Standard1'', 150), (''Makkah_Standard2'', 150), (''Madinah_Premium'', 180), (''Madinah_Standard1'', 120), (''Madinah_Standard2'', 120)],
     bus_capacity = 50,
     costs = [((''Jeddah_Int_Airport'', ''Makkah_Premium''), 180),
        ((''Jeddah_Int_Airport'', ''Makkah_Standard1''), 160),
        ((''Jeddah_Int_Airport'', ''Makkah_Standard2''), 160),
        ((''Jeddah_Int_Airport'', ''Madinah_Premium''), 350),
        ((''Jeddah_Int_Airport'', ''Madinah_Standard1''), 330),
        ((''Jeddah_Int_Airport'', ''Madinah_Standard2''), 330),
        ((''Medina_Int_Airport'', ''Makkah_Premium''), 320),
        ((''Medina_Int_Airport'', ''Makkah_Standard1''), 300),
        ((''Medina_Int_Airport'', ''Makkah_Standard2''), 300),
        ((''Medina_Int_Airport'', ''Madinah_Premium''), 120),
        ((''Medina_Int_Airport'', ''Madinah_Standard1''), 100),
        ((''Medina_Int_Airport'', ''Madinah_Standard2''), 100),
        ((''Taif_Airport'', ''Makkah_Premium''), 150),
        ((''Taif_Airport'', ''Makkah_Standard1''), 130),
        ((''Taif_Airport'', ''Makkah_Standard2''), 130),
        ((''Taif_Airport'', ''Madinah_Premium''), 400),
        ((''Taif_Airport'', ''Madinah_Standard1''), 380),
        ((''Taif_Airport'', ''Madinah_Standard2''), 380),
        ((''Yanbu_Seaport'', ''Makkah_Premium''), 380),
        ((''Yanbu_Seaport'', ''Makkah_Standard1''), 360),
        ((''Yanbu_Seaport'', ''Makkah_Standard2''), 360),
        ((''Yanbu_Seaport'', ''Madinah_Premium''), 180),
        ((''Yanbu_Seaport'', ''Madinah_Standard1''), 160),
        ((''Yanbu_Seaport'', ''Madinah_Standard2''), 160),
        ((''Northern_Border'', ''Makkah_Premium''), 450),
        ((''Northern_Border'', ''Makkah_Standard1''), 430),
        ((''Northern_Border'', ''Makkah_Standard2''), 430),
        ((''Northern_Border'', ''Madinah_Premium''), 250),
        ((''Northern_Border'', ''Madinah_Standard1''), 230),
        ((''Northern_Border'', ''Madinah_Standard2''), 230)]\<rparr>"

section \<open>Building the matrices\<close>

text \<open>The choice of example at lines 125--130.\<close>

definition select_example :: "string \<Rightarrow> hajj_data" where
  "select_example e =
     (if e = ''small'' then small_example
      else if e = ''medium'' then medium_example
      else large_example)"

text \<open>\<open>data['costs'][(port, hotel)]\<close>.\<close>

definition cost_of :: "hajj_data \<Rightarrow> string \<Rightarrow> string \<Rightarrow> py_error + real" where
  "cost_of d p h = (case map_of (costs d) (p, h) of None \<Rightarrow> Inl KeyError | Some v \<Rightarrow> Inr v)"

text \<open>The loops of lines 140--142, hotel by hotel inside port by port: the
  entry for port \<open>i\<close> and hotel \<open>j\<close> lands at index \<open>i * n_hotels + j\<close>.\<close>

fun cost_row :: "hajj_data \<Rightarrow> string \<Rightarrow> string list \<Rightarrow> py_error + vec" where
  "cost_row d p [] = Inr []"
| "cost_row d p (h # hs) =
     (case cost_of d p h of
        Inl e \<Rightarrow> Inl e
      | Inr v \<Rightarrow> (case cost_row d p hs of Inl e \<Rightarrow> Inl e | Inr r \<Rightarrow> Inr (v # r)))"

fun cost_vector :: "hajj_data \<Rightarrow> string list \<Rightarrow> string list \<Rightarrow> py_error + vec" where
  "cost_vector d [] hs = Inr []"
| "cost_vector d (p # ps) hs =
     (case cost_row d p hs of
        Inl e \<Rightarrow> Inl e
      | Inr r \<Rightarrow> (case cost_vector d ps hs of Inl e \<Rightarrow> Inl e | Inr rest \<Rightarrow> Inr (r @ rest)))"

text \<open>Lines 158--160: row \<open>i\<close> of \<open>A_port\<close>, ones at \<open>i * n_hotels + j\<close>.\<close>

definition port_row :: "nat \<Rightarrow> nat \<Rightarrow> nat \<Rightarrow> vec" where
  "port_row nh nv i = fold (\<lambda>j row. row[i * nh + j := 1]) [0..<nh] (replicate nv 0)"

text \<open>Lines 164--166: row \<open>j\<close> of \<open>A_hotel\<close>, ones at \<open>i * n_hotels + j\<close>.\<close>

definition hotel_row :: "nat \<Rightarrow> nat \<Rightarrow> nat \<Rightarrow> nat \<Rightarrow> vec" where
  "hotel_row np nh nv j = fold (\<lambda>i row. row[i * nh + j := 1]) [0..<np] (replicate nv 0)"

text \<open>Line 151: row \<open>k\<close> of \<open>np.eye(n_variables)\<close>.\<close>

definition eye_row :: "nat \<Rightarrow> nat \<Rightarrow> vec" where
  "eye_row nv k = (replicate nv 0)[k := 1]"

text \<open>Lines 132--173: \<open>A\<close> stacks the port, hotel and bus rows, \<open>b\<close> the
  pilgrims, the capacities and the bus capacity.\<close>

definition problem_matrices :: "hajj_data \<Rightarrow> py_error + (mat \<times> vec \<times> vec)" where
  "problem_matrices d =
     (let ps = map fst (ports d); hs = map fst (hotels d);
          np = length ps; nh = length hs; nv = np * nh
      in case cost_vector d ps hs of
           Inl e \<Rightarrow> Inl e
         | Inr c \<Rightarrow> Inr (map (port_row nh nv) [0..<np] @ map (hotel_row np nh nv) [0..<nh]
                          @ map (eye_row nv) [0..<nv],
                        map snd (ports d) @ map snd (hotels d) @ replicate nv (bus_capacity d),
                        c))"

definition get_problem_matrices :: "string \<Rightarrow> py_error + (mat \<times> vec \<times> vec)" where
  "get_problem_matrices e = problem_matrices (select_example e)"

text \<open>What the dictionaries of \<open>HajjData\<close> guarantee: keys are distinct (they
  are dictionary keys), every port-hotel pair has a cost, and supplies,
  capacities and the bus capacity are positive.\<close>

definition wf_data :: "hajj_data \<Rightarrow> bool" where
  "wf_data d \<longleftrightarrow>
     distinct (map fst (ports d)) \<and> distinct (map fst (hotels d)) \<and>
     list_all (\<lambda>p. list_all (\<lambda>h. map_of (costs d) (p, h) \<noteq> None) (map fst (hotels d)))
       (map fst (ports d)) \<and>
     list_all (\<lambda>v. 0 < v) (map snd (ports d) @ map snd (hotels d)) \<and> 0 < bus_capacity d"

section \<open>The system in closed form\<close>

lemma dot_ones_at:
  assumes inj: "inj_on g {..<m}" and bnd: "\<forall>j<m. g j < n" and len: "length x = n"
  shows "dot (fold (\<lambda>j row. row[g j := 1]) [0..<m] (replicate n 0)) x = (\<Sum>j<m. x ! g j)"
proof -
  have r: "replicate n (0::real) = map (\<lambda>_. 0) [0..<n]" by (simp add: map_replicate_const)
  have "\<forall>j\<in>set [0..<m]. g j < n" using bnd by simp
  from fold_set_ones [OF this, of "\<lambda>_. 0"]
  have "fold (\<lambda>j row. row[g j := 1]) [0..<m] (replicate n (0::real))
      = map (\<lambda>k. if k \<in> g ` set [0..<m] then 1 else 0) [0..<n]"
    by (simp only: r)
  also have "set [0..<m] = {..<m}" by (simp add: atLeast0LessThan)
  finally have "fold (\<lambda>j row. row[g j := 1]) [0..<m] (replicate n (0::real))
      = map (\<lambda>k. if k \<in> g ` {..<m} then 1 else 0) [0..<n]" .
  moreover have "g ` {..<m} \<inter> {..<n} = g ` {..<m}" using bnd by auto
  ultimately show ?thesis
    using len inj by (simp add: dot_indicator sum.reindex)
qed

lemma port_index_less: "(i::nat) < np \<Longrightarrow> j < nh \<Longrightarrow> i * nh + j < np * nh"
proof -
  assume "i < np" "j < nh"
  then have "i * nh + j < Suc i * nh" by simp
  also have "\<dots> \<le> np * nh" using \<open>i < np\<close> by (intro mult_le_mono1) simp
  finally show ?thesis .
qed

lemma dot_port_row:
  "i < np \<Longrightarrow> length x = np * nh \<Longrightarrow>
   dot (port_row nh (np * nh) i) x = (\<Sum>j<nh. x ! (i * nh + j))"
proof -
  assume i: "i < np" and len: "length x = np * nh"
  have "inj_on (\<lambda>j. i * nh + j) {..<nh}" by (intro inj_onI) simp
  moreover have "\<forall>j<nh. i * nh + j < np * nh" using i by (blast intro: port_index_less)
  ultimately show ?thesis
    unfolding port_row_def using len by (rule dot_ones_at)
qed

lemma dot_hotel_row:
  "j < nh \<Longrightarrow> length x = np * nh \<Longrightarrow>
   dot (hotel_row np nh (np * nh) j) x = (\<Sum>i<np. x ! (i * nh + j))"
proof -
  assume j: "j < nh" and len: "length x = np * nh"
  have "inj_on (\<lambda>i. i * nh + j) {..<np}"
    using j by (intro inj_onI) simp
  moreover have "\<forall>i<np. i * nh + j < np * nh" using j by (blast intro: port_index_less)
  ultimately show ?thesis
    unfolding hotel_row_def using len by (rule dot_ones_at)
qed

lemma dot_eye_row: "k < n \<Longrightarrow> length x = n \<Longrightarrow> dot (eye_row n k) x = x ! k"
proof -
  assume k: "k < n" and len: "length x = n"
  have "eye_row n k = map (\<lambda>l. if l \<in> {k} then 1 else 0) [0..<n]"
    by (simp add: eye_row_def list_eq_iff_nth_eq nth_list_update)
  with k len dot_indicator [of x n "{k}"] show ?thesis by simp
qed

lemma problem_matrices_InrE:
  assumes "problem_matrices d = Inr (A, b, c)"
  obtains "A = map (port_row (length (hotels d)) (length (ports d) * length (hotels d))) [0..<length (ports d)]
             @ map (hotel_row (length (ports d)) (length (hotels d)) (length (ports d) * length (hotels d))) [0..<length (hotels d)]
             @ map (eye_row (length (ports d) * length (hotels d))) [0..<length (ports d) * length (hotels d)]"
    "b = map snd (ports d) @ map snd (hotels d) @ replicate (length (ports d) * length (hotels d)) (bus_capacity d)"
    "cost_vector d (map fst (ports d)) (map fst (hotels d)) = Inr c"
  using assms by (auto simp: problem_matrices_def Let_def split: sum.splits)

lemma feasible_problem_matrices_rows:
  assumes "problem_matrices d = Inr (A, b, c)"
  shows "feasible A b x \<longleftrightarrow>
     (\<forall>i<length (ports d). dot (port_row (length (hotels d)) (length (ports d) * length (hotels d)) i) x
        \<le> snd (ports d ! i) + tol) \<and>
     (\<forall>j<length (hotels d).
        dot (hotel_row (length (ports d)) (length (hotels d)) (length (ports d) * length (hotels d)) j) x
        \<le> snd (hotels d ! j) + tol) \<and>
     (\<forall>k<length (ports d) * length (hotels d).
        dot (eye_row (length (ports d) * length (hotels d)) k) x \<le> bus_capacity d + tol)"
  using assms
proof (rule problem_matrices_InrE)
  let ?np = "length (ports d)" and ?nh = "length (hotels d)"
  assume A: "A = map (port_row ?nh (?np * ?nh)) [0..<?np]
             @ map (hotel_row ?np ?nh (?np * ?nh)) [0..<?nh]
             @ map (eye_row (?np * ?nh)) [0..<?np * ?nh]"
    and b: "b = map snd (ports d) @ map snd (hotels d) @ replicate (?np * ?nh) (bus_capacity d)"
  show ?thesis
    unfolding A b feasible_def
    by (simp only: list_all2_append list_all2_map_upt length_map length_replicate length_upt
        diff_zero) simp
qed

text \<open>C15: refinement of the matrices built by \<open>get_problem_matrices\<close>: a
  point of the right length satisfies \<open>A x \<le> b\<close> (up to the tolerance)
  exactly when every port sends at most its pilgrims, every hotel receives at
  most its capacity, and every route carries at most the bus capacity, with
  route \<open>(i, j)\<close> at index \<open>i * n_hotels + j\<close>.\<close>

theorem problem_matrices_feasible:
  assumes pm: "problem_matrices d = Inr (A, b, c)"
    and len: "length x = length (ports d) * length (hotels d)"
  shows "feasible A b x \<longleftrightarrow>
     (\<forall>i<length (ports d).
        (\<Sum>j<length (hotels d). x ! (i * length (hotels d) + j)) \<le> snd (ports d ! i) + tol) \<and>
     (\<forall>j<length (hotels d).
        (\<Sum>i<length (ports d). x ! (i * length (hotels d) + j)) \<le> snd (hotels d ! j) + tol) \<and>
     (\<forall>k<length x. x ! k \<le> bus_capacity d + tol)"
  using len by (simp add: feasible_problem_matrices_rows [OF pm] dot_port_row dot_hotel_row dot_eye_row)

lemma problem_matrices_rows_01:
  assumes "problem_matrices d = Inr (A, b, c)" "r \<in> set A"
  shows "set r \<subseteq> {0, 1}"
proof -
  have z: "set (replicate n (0::real)) \<subseteq> {0, 1}" for n by auto
  have e: "set (eye_row n k) \<subseteq> {0, 1}" for n k
    unfolding eye_row_def
    using order_trans [OF set_update_subset_insert [of _ k 1] insert_mono [OF z]] by (simp add: insert_commute)
  have p: "set (port_row nh n i) \<subseteq> {0, 1}" for nh n i
    unfolding port_row_def using z by (rule fold_set_ones_01)
  have h: "set (hotel_row np nh n j) \<subseteq> {0, 1}" for np nh n j
    unfolding hotel_row_def using z by (rule fold_set_ones_01)
  from assms(1) show ?thesis
  proof (rule problem_matrices_InrE)
    assume "A = map (port_row (length (hotels d)) (length (ports d) * length (hotels d))) [0..<length (ports d)]
             @ map (hotel_row (length (ports d)) (length (hotels d)) (length (ports d) * length (hotels d))) [0..<length (hotels d)]
             @ map (eye_row (length (ports d) * length (hotels d))) [0..<length (ports d) * length (hotels d)]"
    with assms(2) have "(\<exists>i. r = port_row (length (hotels d)) (length (ports d) * length (hotels d)) i)
       \<or> (\<exists>j. r = hotel_row (length (ports d)) (length (hotels d)) (length (ports d) * length (hotels d)) j)
       \<or> (\<exists>k. r = eye_row (length (ports d) * length (hotels d)) k)"
      by (simp only: set_append set_map Un_iff image_iff) blast
    with e p h show ?thesis by blast
  qed
qed

text \<open>C19: every coefficient of the system is 0 or 1 and no row bounds a
  variable from below, so lowering any routes of a feasible allocation keeps
  it feasible.\<close>

theorem problem_matrices_down_closed:
  assumes "problem_matrices d = Inr (A, b, c)" "feasible A b y" "list_all2 (\<le>) x y"
  shows "feasible A b x"
proof -
  have le: "dot r x \<le> dot r y" if "r \<in> set A" for r
  proof (rule dot_mono [OF assms(3)])
    from problem_matrices_rows_01 [OF assms(1) that]
    show "list_all (\<lambda>a. 0 \<le> a) r" by (auto simp: list_all_iff)
  qed
  from assms(2) have len: "length A = length b"
    and y: "\<forall>i<length A. dot (A ! i) y \<le> b ! i + tol"
    by (simp_all add: feasible_def list_all2_conv_all_nth)
  show ?thesis unfolding feasible_def list_all2_conv_all_nth
  proof (intro conjI allI impI)
    show "length A = length b" by (rule len)
    fix i assume i: "i < length A"
    then have "dot (A ! i) x \<le> dot (A ! i) y" by (intro le nth_mem)
    also have "\<dots> \<le> b ! i + tol" using y i by blast
    finally show "dot (A ! i) x \<le> b ! i + tol" .
  qed
qed


section \<open>The cost vector and the KeyError path\<close>

lemma cost_row_spec:
  "cost_row d p hs =
     (if \<forall>h\<in>set hs. map_of (costs d) (p, h) \<noteq> None
      then Inr (map (\<lambda>h. the (map_of (costs d) (p, h))) hs) else Inl KeyError)"
  by (induction hs) (auto simp: cost_of_def split: option.splits)

lemma cost_vector_spec:
  "cost_vector d ps hs =
     (if \<forall>p\<in>set ps. \<forall>h\<in>set hs. map_of (costs d) (p, h) \<noteq> None
      then Inr (concat (map (\<lambda>p. map (\<lambda>h. the (map_of (costs d) (p, h))) hs) ps))
      else Inl KeyError)"
  by (induction ps) (auto simp: cost_row_spec)

lemma nth_concat_rows:
  "i < length ps \<Longrightarrow> j < length hs \<Longrightarrow>
   concat (map (\<lambda>p. map (g p) hs) ps) ! (i * length hs + j) = g (ps ! i) (hs ! j)"
proof (induction ps arbitrary: i)
  case (Cons p ps)
  then show ?case by (cases i) (simp_all add: nth_append add.assoc)
qed simp

lemma length_concat_rows [simp]:
  "length (concat (map (\<lambda>p. map (g p) hs) ps)) = length ps * length hs"
  by (induction ps) simp_all

lemma problem_matrices_Inl_iff:
  "problem_matrices d = Inl e \<longleftrightarrow>
     e = KeyError \<and>
     (\<exists>p\<in>set (map fst (ports d)). \<exists>h\<in>set (map fst (hotels d)). map_of (costs d) (p, h) = None)"
  by (auto simp: problem_matrices_def Let_def cost_vector_spec split: sum.splits)

lemma problem_matrices_cost_vector:
  "problem_matrices d = Inr (A, b, c) \<Longrightarrow>
   c = concat (map (\<lambda>p. map (\<lambda>h. the (map_of (costs d) (p, h))) (map fst (hotels d))) (map fst (ports d)))
   \<and> (\<forall>p\<in>set (map fst (ports d)). \<forall>h\<in>set (map fst (hotels d)). map_of (costs d) (p, h) \<noteq> None)"
  by (elim problem_matrices_InrE) (simp add: cost_vector_spec split: if_splits)

text \<open>C25: the cost vector holds \<open>data['costs'][(port_i, hotel_j)]\<close> at index
  \<open>i * n_hotels + j\<close>, and has that length.\<close>

theorem problem_matrices_costs:
  assumes "problem_matrices d = Inr (A, b, c)" "i < length (ports d)" "j < length (hotels d)"
  shows "map_of (costs d) (fst (ports d ! i), fst (hotels d ! j)) = Some (c ! (i * length (hotels d) + j))"
proof -
  note cv = problem_matrices_cost_vector [OF assms(1)]
  from assms(2,3) have "fst (ports d ! i) \<in> set (map fst (ports d))"
    "fst (hotels d ! j) \<in> set (map fst (hotels d))" by (simp_all add: nth_mem)
  with cv have "map_of (costs d) (fst (ports d ! i), fst (hotels d ! j)) \<noteq> None" by blast
  moreover from assms(2,3) cv
  have "c ! (i * length (hotels d) + j) = the (map_of (costs d) (fst (ports d ! i), fst (hotels d ! j)))"
    using nth_concat_rows [of i "map fst (ports d)" j "map fst (hotels d)"] by simp
  ultimately show ?thesis by auto
qed

text \<open>C26: \<open>get_problem_matrices\<close> raises (and then only \<open>KeyError\<close>) exactly
  when some port-hotel pair has no cost.\<close>

theorem problem_matrices_KeyError:
  "(\<exists>e. problem_matrices d = Inl e) \<longleftrightarrow>
     (\<exists>p\<in>set (map fst (ports d)). \<exists>h\<in>set (map fst (hotels d)). map_of (costs d) (p, h) = None)"
  by (simp add: problem_matrices_Inl_iff)

lemma length_fold_set: "length (fold (\<lambda>j row. row[g j := v]) js xs) = length xs"
  by (induction js arbitrary: xs) simp_all

lemma length_rows [simp]:
  "length (port_row nh nv i) = nv" "length (hotel_row np nh nv j) = nv" "length (eye_row nv k) = nv"
  by (simp_all add: port_row_def hotel_row_def eye_row_def length_fold_set)

text \<open>C27: the shapes of the result: one right-hand side per row, every row and
  the cost vector of length \<open>n_ports * n_hotels\<close>, and at least as many rows
  as variables (the input contract of the solvers).\<close>

theorem problem_matrices_shape:
  assumes "problem_matrices d = Inr (A, b, c)"
  shows "length b = length A \<and> length c = length (ports d) * length (hotels d)
    \<and> list_all (\<lambda>r. length r = length (ports d) * length (hotels d)) A
    \<and> length (ports d) * length (hotels d) \<le> length A"
proof -
  from conjunct1 [OF problem_matrices_cost_vector [OF assms]]
  have "length c = length (ports d) * length (hotels d)"
    by (simp only: length_concat_rows length_map)
  with assms show ?thesis
    by (elim problem_matrices_InrE)
      (auto simp: list_all_iff)
qed

lemma wf_dataD:
  assumes "wf_data d"
  shows "distinct (map fst (ports d))" "distinct (map fst (hotels d))"
    "\<forall>p\<in>set (map fst (ports d)). \<forall>h\<in>set (map fst (hotels d)). map_of (costs d) (p, h) \<noteq> None"
    "\<forall>v\<in>set (map snd (ports d) @ map snd (hotels d)). v \<noteq> 0"
  using assms by (auto simp: wf_data_def list_all_iff)

lemma wf_problem_matrices: "wf_data d \<Longrightarrow> \<exists>A b c. problem_matrices d = Inr (A, b, c)"
  using problem_matrices_Inl_iff [of d] wf_dataD(3) [of d] by (cases "problem_matrices d") auto

text \<open>C28: the three sample instances have distinct names, a cost for every
  pair, positive supplies and capacities, and \<open>get_problem_matrices\<close>
  returns matrices for every choice of example.\<close>

theorem samples_wf: "wf_data (select_example e) \<and> (\<exists>A b c. get_problem_matrices e = Inr (A, b, c))"
proof -
  have "wf_data (select_example e)"
    by (simp add: select_example_def wf_data_def small_example_def medium_example_def
        large_example_def)
  with wf_problem_matrices show ?thesis by (simp add: get_problem_matrices_def)
qed

end
