(* ===== verification/Report.thy ===== *)
theory Report
  imports HajjData BranchBound
begin

text \<open>
  The solution report of \<open>src/main.py\<close> (\<open>create_solution_report\<close>, lines
  18--79) and the pipeline that produces it (\<open>solve_and_visualize\<close>, lines
  81--104). The report's numbers are modelled, not its text: the allocation
  lines with their pilgrims and costs, the total number of pilgrims, the
  average cost, and the use of every port and hotel with its percentage. The
  text of the report is written from these values in theory \<open>ReportText\<close>;
  the charts and the file output are in \<open>Charts\<close>, \<open>Visualisation\<close> and
  \<open>Driver\<close>. Every exception the code can raise
  on the way is a value: \<open>TypeError\<close> when the search returned no point,
  \<open>IndexError\<close> past the end of the point, \<open>KeyError\<close> for a missing cost,
  \<open>ZeroDivisionError\<close> for a Python division by zero. The value of a found
  solution is a numpy \<open>float64\<close>, whose division by zero gives an infinity
  or \<open>nan\<close> (with a warning) instead of raising; \<open>float('inf')\<close>, the value
  when nothing was found, is a Python float and raises.
\<close>

section \<open>Values\<close>

text \<open>\<open>int(x)\<close> on a float: truncation toward zero.\<close>

definition py_int :: "real \<Rightarrow> int" where
  "py_int x = (if 0 \<le> x then \<lfloor>x\<rfloor> else \<lceil>x\<rceil>)"

text \<open>The float values the report prints, with IEEE infinities and \<open>nan\<close>.\<close>

datatype pyfloat = Num real | PosInf | NegInf | NaN

text \<open>Line 58, \<open>optimal_value / total_pilgrims\<close>.\<close>

definition avg_cost :: "xreal \<Rightarrow> int \<Rightarrow> py_error + pyfloat" where
  "avg_cost v n =
     (case v of
        PInf \<Rightarrow> (if n = 0 then Inl ZeroDivisionError else Inr (if 0 < n then PosInf else NegInf))
      | Fin a \<Rightarrow> Inr (if n \<noteq> 0 then Num (a / of_int n)
                     else if 0 < a then PosInf else if a < 0 then NegInf else NaN))"

text \<open>\<open>optimal_point[k]\<close>: \<open>None\<close> is not subscriptable.\<close>

definition point_at :: "vec option \<Rightarrow> nat \<Rightarrow> py_error + real" where
  "point_at pt k =
     (case pt of None \<Rightarrow> Inl TypeError
      | Some x \<Rightarrow> if k < length x then Inr (x ! k) else Inl IndexError)"

section \<open>The allocation table\<close>

text \<open>One line of the table printed at lines 49--52.\<close>

record alloc_line =
  line_port :: string
  line_hotel :: string
  line_pilgrims :: int
  line_cost :: real
  line_total :: real

text \<open>The inner loop of lines 44--54 for one port, threading \<open>idx\<close> and
  \<open>total_pilgrims\<close>: a route with a positive (truncated) number of pilgrims
  gets a line and adds to the total; the others are skipped.\<close>

fun alloc_hotels ::
  "hajj_data \<Rightarrow> vec option \<Rightarrow> string \<Rightarrow> string list \<Rightarrow> nat \<Rightarrow> int
   \<Rightarrow> py_error + (alloc_line list \<times> nat \<times> int)" where
  "alloc_hotels d pt p [] idx tot = Inr ([], idx, tot)"
| "alloc_hotels d pt p (h # hs) idx tot =
     sbind (point_at pt idx) (\<lambda>v.
       if 0 < py_int v then
         sbind (cost_of d p h) (\<lambda>cpp.
           sbind (alloc_hotels d pt p hs (Suc idx) (tot + py_int v)) (\<lambda>(ls, r).
             Inr (\<lparr>line_port = p, line_hotel = h, line_pilgrims = py_int v, line_cost = cpp,
                   line_total = of_int (py_int v) * cpp\<rparr> # ls, r)))
       else alloc_hotels d pt p hs (Suc idx) tot)"

text \<open>The outer loop of line 43, over the ports.\<close>

fun alloc_ports ::
  "hajj_data \<Rightarrow> vec option \<Rightarrow> string list \<Rightarrow> string list \<Rightarrow> nat \<Rightarrow> int
   \<Rightarrow> py_error + (alloc_line list \<times> nat \<times> int)" where
  "alloc_ports d pt [] hs idx tot = Inr ([], idx, tot)"
| "alloc_ports d pt (p # ps) hs idx tot =
     sbind (alloc_hotels d pt p hs idx tot) (\<lambda>(ls, idx', tot').
       sbind (alloc_ports d pt ps hs idx' tot') (\<lambda>(ls', r). Inr (ls @ ls', r)))"

section \<open>Capacity utilisation\<close>

text \<open>\<open>sum(int(optimal_point[k]) for k in ...)\<close>, left to right.\<close>

fun sum_at :: "vec option \<Rightarrow> nat list \<Rightarrow> py_error + int" where
  "sum_at pt [] = Inr 0"
| "sum_at pt (k # ks) = sbind (point_at pt k) (\<lambda>v. sbind (sum_at pt ks) (\<lambda>s. Inr (py_int v + s)))"

text \<open>The indices the generator of lines 65--67 visits for a port: every
  position \<open>i\<close> holding that name, and all its hotels.\<close>

definition port_indices :: "string list \<Rightarrow> nat \<Rightarrow> string \<Rightarrow> nat list" where
  "port_indices ps nh port =
     concat (map (\<lambda>(i, p). if p = port then map (\<lambda>j. i * nh + j) [0..<nh] else []) (enumerate 0 ps))"

text \<open>The same for a hotel, lines 73--75.\<close>

definition hotel_indices :: "nat \<Rightarrow> string list \<Rightarrow> string \<Rightarrow> nat list" where
  "hotel_indices np hs hotel =
     concat (map (\<lambda>i. concat (map (\<lambda>(j, h). if h = hotel then [i * length hs + j] else [])
                                  (enumerate 0 hs))) [0..<np])"

record usage_line =
  usage_name :: string
  usage_used :: int
  usage_capacity :: real
  usage_percent :: real

text \<open>The loops of lines 64--69 and 72--77 over \<open>data[...].items()\<close>:
  the use, then \<open>used / capacity * 100\<close>.\<close>

fun usage_loop ::
  "(string \<times> real) list \<Rightarrow> (string \<Rightarrow> py_error + int) \<Rightarrow> py_error + usage_line list" where
  "usage_loop [] f = Inr []"
| "usage_loop ((n, cap) # rest) f =
     sbind (f n) (\<lambda>u.
       if cap = 0 then Inl ZeroDivisionError
       else sbind (usage_loop rest f) (\<lambda>r.
         Inr (\<lparr>usage_name = n, usage_used = u, usage_capacity = cap,
               usage_percent = of_int u / cap * 100\<rparr> # r)))"

section \<open>The report\<close>

record report =
  rep_total_cost :: xreal
  rep_ports :: nat
  rep_hotels :: nat
  rep_lines :: "alloc_line list"
  rep_total_pilgrims :: int
  rep_average :: pyfloat
  rep_port_usage :: "usage_line list"
  rep_hotel_usage :: "usage_line list"

definition create_solution_report :: "hajj_data \<Rightarrow> vec option \<Rightarrow> xreal \<Rightarrow> py_error + report" where
  "create_solution_report d pt v =
     (let ps = map fst (ports d); hs = map fst (hotels d)
      in sbind (alloc_ports d pt ps hs 0 0) (\<lambda>(ls, _, tot).
         sbind (avg_cost v tot) (\<lambda>avg.
         sbind (usage_loop (ports d) (\<lambda>p. sum_at pt (port_indices ps (length hs) p))) (\<lambda>pu.
         sbind (usage_loop (hotels d) (\<lambda>h. sum_at pt (hotel_indices (length ps) hs h))) (\<lambda>hu.
         Inr \<lparr>rep_total_cost = v, rep_ports = length ps, rep_hotels = length hs, rep_lines = ls,
              rep_total_pilgrims = tot, rep_average = avg, rep_port_usage = pu,
              rep_hotel_usage = hu\<rparr>)))))"

text \<open>\<open>solve_and_visualize\<close> up to the report (lines 86--104): the matrices,
  the search, the report. \<open>None\<close> is a search that does not return.\<close>

definition solve_report :: "string \<Rightarrow> (py_error + report) option" where
  "solve_report e =
     (case get_problem_matrices e of
        Inl err \<Rightarrow> Some (Inl err)
      | Inr (A, b, c) \<Rightarrow>
          map_option (\<lambda>(pt, v). create_solution_report (select_example e) pt v) (optimizerIPBB A b c))"

section \<open>The report as a specification\<close>

text \<open>The table the loops of lines 41--54 print, written without the index:
  one line for every route, in row-major order of \<open>(port, hotel)\<close>, whose
  truncated number of pilgrims is positive; the total counts those
  pilgrims only. \<open>usage_of\<close> is the result of the utilisation loops.\<close>

definition line_of :: "hajj_data \<Rightarrow> (string \<times> string) \<times> real \<Rightarrow> alloc_line list" where
  "line_of d c = (let ((p, h), v) = c; n = py_int v; cpp = the (map_of (costs d) (p, h)) in
     if 0 < n then [\<lparr>line_port = p, line_hotel = h, line_pilgrims = n, line_cost = cpp,
                     line_total = of_int n * cpp\<rparr>] else [])"

definition alloc_spec :: "hajj_data \<Rightarrow> vec \<Rightarrow> string list \<Rightarrow> string list \<Rightarrow> alloc_line list" where
  "alloc_spec d x ps hs = concat (map (line_of d) (zip (List.product ps hs) x))"

definition pilgrims_spec :: "vec \<Rightarrow> int" where
  "pilgrims_spec x = sum_list (map (\<lambda>v. max 0 (py_int v)) x)"

definition usage_of :: "(string \<times> real) list \<Rightarrow> (string \<Rightarrow> int) \<Rightarrow> usage_line list" where
  "usage_of l g = map (\<lambda>(n, cap). \<lparr>usage_name = n, usage_used = g n, usage_capacity = cap,
                                     usage_percent = of_int (g n) / cap * 100\<rparr>) l"

section \<open>Properties\<close>


text \<open>\<open>int()\<close> of an integral float gives the integer back.\<close>

theorem py_int_of_int: "py_int (of_int k) = k"
  by (simp add: py_int_def)

lemma py_int_Ints: "v \<in> \<int> \<Longrightarrow> of_int (py_int v) = v"
  by (auto simp: py_int_def elim: Ints_cases)

lemma alloc_hotels_spec:
  assumes "idx + length hs \<le> length x" "\<forall>h\<in>set hs. map_of (costs d) (p, h) \<noteq> None"
  shows "alloc_hotels d (Some x) p hs idx tot =
     Inr (alloc_spec d (take (length hs) (drop idx x)) [p] hs, idx + length hs,
          tot + pilgrims_spec (take (length hs) (drop idx x)))"
  using assms
proof (induction hs arbitrary: idx tot)
  case Nil
  then show ?case by (simp add: alloc_spec_def pilgrims_spec_def)
next
  case (Cons h hs)
  then have i: "idx < length x" by simp
  from Cons.prems obtain cpp where cpp: "map_of (costs d) (p, h) = Some cpp" by auto
  from Cons.IH [of "Suc idx"] Cons.prems show ?case
    by (simp add: take_drop_Suc [OF i] point_at_def i cost_of_def cpp alloc_spec_def
        pilgrims_spec_def line_of_def Let_def)
qed

lemma alloc_spec_Cons:
  "length xs = length hs \<Longrightarrow>
   alloc_spec d (xs @ ys) (p # ps) hs = alloc_spec d xs [p] hs @ alloc_spec d ys ps hs"
  by (simp add: alloc_spec_def zip_append)

lemma pilgrims_spec_append: "pilgrims_spec (xs @ ys) = pilgrims_spec xs + pilgrims_spec ys"
  by (simp add: pilgrims_spec_def)

lemma alloc_ports_spec_gen:
  assumes "idx + length ps * length hs \<le> length x"
    "\<forall>p\<in>set ps. \<forall>h\<in>set hs. map_of (costs d) (p, h) \<noteq> None"
  shows "alloc_ports d (Some x) ps hs idx tot =
     Inr (alloc_spec d (take (length ps * length hs) (drop idx x)) ps hs,
          idx + length ps * length hs,
          tot + pilgrims_spec (take (length ps * length hs) (drop idx x)))"
  using assms
proof (induction ps arbitrary: idx tot)
  case Nil
  then show ?case by (simp add: alloc_spec_def pilgrims_spec_def)
next
  case (Cons p ps)
  let ?nh = "length hs" and ?m = "length ps * length hs"
  have split: "take (?nh + ?m) (drop idx x) = take ?nh (drop idx x) @ take ?m (drop (idx + ?nh) x)"
    by (simp add: take_add add.commute)
  have len: "length (take ?nh (drop idx x)) = ?nh" using Cons.prems(1) by simp
  from Cons.prems have h: "alloc_hotels d (Some x) p hs idx tot =
     Inr (alloc_spec d (take ?nh (drop idx x)) [p] hs, idx + ?nh,
          tot + pilgrims_spec (take ?nh (drop idx x)))"
    by (intro alloc_hotels_spec) simp_all
  from Cons.prems have r: "alloc_ports d (Some x) ps hs (idx + ?nh) t =
     Inr (alloc_spec d (take ?m (drop (idx + ?nh) x)) ps hs, idx + ?nh + ?m,
          t + pilgrims_spec (take ?m (drop (idx + ?nh) x)))" for t
    by (intro Cons.IH) simp_all
  show ?case
    by (simp add: h r split alloc_spec_Cons [OF len] pilgrims_spec_append add.assoc)
qed

text \<open>C22: the loops of lines 41--54, which thread the flat index \<open>idx\<close> and
  the running total, compute the index-free table: one line per route of
  positive truncated value, in row-major order, and the sum of the positive
  parts, with \<open>idx\<close> ending at the number of routes.\<close>

theorem alloc_ports_correct:
  assumes "length x = length ps * length hs"
    "\<forall>p\<in>set ps. \<forall>h\<in>set hs. map_of (costs d) (p, h) \<noteq> None"
  shows "alloc_ports d (Some x) ps hs 0 0 = Inr (alloc_spec d x ps hs, length x, pilgrims_spec x)"
  using alloc_ports_spec_gen [of 0 ps hs x d 0] assms by simp

lemma sum_at_Some:
  "\<forall>k\<in>set ks. k < length x \<Longrightarrow> sum_at (Some x) ks = Inr (\<Sum>k\<leftarrow>ks. py_int (x ! k))"
  by (induction ks) (simp_all add: point_at_def)

lemma port_indices_less: "k \<in> set (port_indices ps nh p) \<Longrightarrow> k < length ps * nh"
  by (auto simp: port_indices_def in_set_enumerate_eq split: if_splits)
    (metis Suc_leI mult_Suc mult_le_mono1 order_less_le_trans)

lemma hotel_indices_less: "k \<in> set (hotel_indices np hs h) \<Longrightarrow> k < np * length hs"
  by (auto simp: hotel_indices_def in_set_enumerate_eq port_index_less split: if_splits)

lemma port_indices_distinct:
  "distinct ps \<Longrightarrow> i < length ps \<Longrightarrow> port_indices ps nh (ps ! i) = map (\<lambda>j. i * nh + j) [0..<nh]"
  unfolding port_indices_def concat_map_filter_pairs
  by (simp add: comp_def filter_enumerate_distinct [of ps i 0, simplified comp_def])

lemma hotel_indices_distinct:
  "distinct hs \<Longrightarrow> j < length hs \<Longrightarrow> hotel_indices np hs (hs ! j) = map (\<lambda>i. i * length hs + j) [0..<np]"
  unfolding hotel_indices_def
  by (simp add: concat_map_filter_pairs comp_def filter_enumerate_distinct [of hs j 0, simplified comp_def]
      map_concat)

lemma usage_loop_Inr:
  "\<forall>(n, cap)\<in>set l. cap \<noteq> 0 \<and> f n = Inr (g n) \<Longrightarrow> usage_loop l f = Inr (usage_of l g)"
  by (induction l) (auto simp: usage_of_def)

lemma create_solution_report_Some:
  assumes len: "length x = length (ports d) * length (hotels d)"
    and costs: "\<forall>p\<in>set (map fst (ports d)). \<forall>h\<in>set (map fst (hotels d)). map_of (costs d) (p, h) \<noteq> None"
    and caps: "\<forall>v\<in>set (map snd (ports d) @ map snd (hotels d)). v \<noteq> 0"
  shows "create_solution_report d (Some x) v =
    sbind (avg_cost v (pilgrims_spec x)) (\<lambda>a. Inr
     \<lparr>rep_total_cost = v, rep_ports = length (ports d), rep_hotels = length (hotels d),
      rep_lines = alloc_spec d x (map fst (ports d)) (map fst (hotels d)),
      rep_total_pilgrims = pilgrims_spec x, rep_average = a,
      rep_port_usage = usage_of (ports d)
        (\<lambda>n. \<Sum>k\<leftarrow>port_indices (map fst (ports d)) (length (hotels d)) n. py_int (x ! k)),
      rep_hotel_usage = usage_of (hotels d)
        (\<lambda>n. \<Sum>k\<leftarrow>hotel_indices (length (ports d)) (map fst (hotels d)) n. py_int (x ! k))\<rparr>)"
proof -
  from caps have pc: "\<forall>(n, cap)\<in>set (ports d). cap \<noteq> 0" and hc: "\<forall>(n, cap)\<in>set (hotels d). cap \<noteq> 0"
    by force+
  have al: "alloc_ports d (Some x) (map fst (ports d)) (map fst (hotels d)) 0 0 =
    Inr (alloc_spec d x (map fst (ports d)) (map fst (hotels d)), length x, pilgrims_spec x)"
    using alloc_ports_spec_gen [of 0 "map fst (ports d)" "map fst (hotels d)" x d 0] len costs by simp
  have pu: "usage_loop (ports d) (\<lambda>p. sum_at (Some x) (port_indices (map fst (ports d)) (length (hotels d)) p))
    = Inr (usage_of (ports d) (\<lambda>n. \<Sum>k\<leftarrow>port_indices (map fst (ports d)) (length (hotels d)) n. py_int (x ! k)))"
    using pc len port_indices_less [of _ "map fst (ports d)"]
    by (intro usage_loop_Inr) (auto simp: sum_at_Some)
  have hu: "usage_loop (hotels d) (\<lambda>h. sum_at (Some x) (hotel_indices (length (ports d)) (map fst (hotels d)) h))
    = Inr (usage_of (hotels d) (\<lambda>n. \<Sum>k\<leftarrow>hotel_indices (length (ports d)) (map fst (hotels d)) n. py_int (x ! k)))"
    using hc len hotel_indices_less [of _ "length (ports d)" "map fst (hotels d)"]
    by (intro usage_loop_Inr) (auto simp: sum_at_Some)
  show ?thesis
    by (cases "avg_cost v (pilgrims_spec x)") (simp_all add: create_solution_report_def Let_def al pu hu)
qed

lemma usage_of_nth:
  "length (usage_of l g) = length l"
  "i < length l \<Longrightarrow> usage_used (usage_of l g ! i) = g (fst (l ! i))"
  "i < length l \<Longrightarrow> usage_capacity (usage_of l g ! i) = snd (l ! i)"
  by (simp_all add: usage_of_def split: prod.split)

lemma report_InrE:
  assumes wf: "wf_data d" and len: "length x = length (ports d) * length (hotels d)"
    and r: "create_solution_report d (Some x) v = Inr r"
  obtains a where "r = \<lparr>rep_total_cost = v, rep_ports = length (ports d), rep_hotels = length (hotels d),
      rep_lines = alloc_spec d x (map fst (ports d)) (map fst (hotels d)),
      rep_total_pilgrims = pilgrims_spec x, rep_average = a,
      rep_port_usage = usage_of (ports d)
        (\<lambda>n. \<Sum>k\<leftarrow>port_indices (map fst (ports d)) (length (hotels d)) n. py_int (x ! k)),
      rep_hotel_usage = usage_of (hotels d)
        (\<lambda>n. \<Sum>k\<leftarrow>hotel_indices (length (ports d)) (map fst (hotels d)) n. py_int (x ! k))\<rparr>"
  using r by (auto simp: create_solution_report_Some [OF len wf_dataD(3,4) [OF wf]] sbind_eq_Inr)

lemma report_usage_used:
  assumes wf: "wf_data d" and len: "length x = length (ports d) * length (hotels d)"
    and r: "create_solution_report d (Some x) v = Inr r"
  shows "rep_lines r = alloc_spec d x (map fst (ports d)) (map fst (hotels d))"
    "rep_total_pilgrims r = pilgrims_spec x"
    "length (rep_port_usage r) = length (ports d)"
    "i < length (ports d) \<Longrightarrow>
     usage_used (rep_port_usage r ! i) = (\<Sum>j<length (hotels d). py_int (x ! (i * length (hotels d) + j)))"
    "i < length (ports d) \<Longrightarrow> usage_capacity (rep_port_usage r ! i) = snd (ports d ! i)"
    "length (rep_hotel_usage r) = length (hotels d)"
    "j < length (hotels d) \<Longrightarrow>
     usage_used (rep_hotel_usage r ! j) = (\<Sum>i<length (ports d). py_int (x ! (i * length (hotels d) + j)))"
    "j < length (hotels d) \<Longrightarrow> usage_capacity (rep_hotel_usage r ! j) = snd (hotels d ! j)"
proof -
  note w = wf_dataD [OF wf]
  obtain a where r': "r = \<lparr>rep_total_cost = v, rep_ports = length (ports d), rep_hotels = length (hotels d),
      rep_lines = alloc_spec d x (map fst (ports d)) (map fst (hotels d)),
      rep_total_pilgrims = pilgrims_spec x, rep_average = a,
      rep_port_usage = usage_of (ports d)
        (\<lambda>n. \<Sum>k\<leftarrow>port_indices (map fst (ports d)) (length (hotels d)) n. py_int (x ! k)),
      rep_hotel_usage = usage_of (hotels d)
        (\<lambda>n. \<Sum>k\<leftarrow>hotel_indices (length (ports d)) (map fst (hotels d)) n. py_int (x ! k))\<rparr>"
    by (rule report_InrE [OF wf len r])
  show "length (rep_port_usage r) = length (ports d)" "length (rep_hotel_usage r) = length (hotels d)"
    "rep_lines r = alloc_spec d x (map fst (ports d)) (map fst (hotels d))"
    "rep_total_pilgrims r = pilgrims_spec x"
    by (simp_all add: r' usage_of_nth)
  show "usage_capacity (rep_port_usage r ! i) = snd (ports d ! i)" if "i < length (ports d)"
    using that by (simp add: r' usage_of_nth)
  show "usage_capacity (rep_hotel_usage r ! j) = snd (hotels d ! j)" if "j < length (hotels d)"
    using that by (simp add: r' usage_of_nth)
  show "usage_used (rep_port_usage r ! i) = (\<Sum>j<length (hotels d). py_int (x ! (i * length (hotels d) + j)))"
    if i: "i < length (ports d)"
  proof -
    have "port_indices (map fst (ports d)) (length (hotels d)) (fst (ports d ! i))
        = map (\<lambda>j. i * length (hotels d) + j) [0..<length (hotels d)]"
      using port_indices_distinct [OF w(1), of i] i by simp
    with i show ?thesis by (simp add: r' usage_of_nth sum_list_upt_lessThan)
  qed
  show "usage_used (rep_hotel_usage r ! j) = (\<Sum>i<length (ports d). py_int (x ! (i * length (hotels d) + j)))"
    if j: "j < length (hotels d)"
  proof -
    have "hotel_indices (length (ports d)) (map fst (hotels d)) (fst (hotels d ! j))
        = map (\<lambda>i. i * length (hotels d) + j) [0..<length (ports d)]"
      using hotel_indices_distinct [OF w(2), of j] j by simp
    with j show ?thesis by (simp add: r' usage_of_nth sum_list_upt_lessThan)
  qed
qed

text \<open>C21: for well-formed data and a point of the right length, the report
  holds the table of \<open>alloc_spec\<close>, the total of positive parts, and for
  every port (hotel) the sum of the truncated values on its row (column).\<close>

theorem create_solution_report_correct:
  assumes "wf_data d" "length x = length (ports d) * length (hotels d)"
    "create_solution_report d (Some x) v = Inr r"
  shows "rep_lines r = alloc_spec d x (map fst (ports d)) (map fst (hotels d))
    \<and> rep_total_pilgrims r = pilgrims_spec x
    \<and> (\<forall>i<length (ports d). usage_used (rep_port_usage r ! i) =
          (\<Sum>j<length (hotels d). py_int (x ! (i * length (hotels d) + j))))
    \<and> (\<forall>j<length (hotels d). usage_used (rep_hotel_usage r ! j) =
          (\<Sum>i<length (ports d). py_int (x ! (i * length (hotels d) + j))))"
  by (simp add: report_usage_used [OF assms])

lemma avg_cost_Inl: "avg_cost v n = Inl e \<longleftrightarrow> e = ZeroDivisionError \<and> v = PInf \<and> n = 0"
  by (cases v) (auto simp: avg_cost_def)

text \<open>C23: for well-formed data and a point of the right length, the report
  fails only when no route has a positive value and the value is Python's
  \<open>float('inf')\<close>, and then with \<open>ZeroDivisionError\<close>; a numpy value divides
  to an infinity or \<open>nan\<close> instead.\<close>

theorem create_solution_report_errors:
  assumes "wf_data d" "length x = length (ports d) * length (hotels d)"
  shows "create_solution_report d (Some x) v = Inl e \<longleftrightarrow>
    e = ZeroDivisionError \<and> v = PInf \<and> pilgrims_spec x = 0"
  by (simp only: create_solution_report_Some [OF assms(2) wf_dataD(3,4) [OF assms(1)]]
      sbind_Inr_eq_Inl avg_cost_Inl)

text \<open>C24: when the search found no point (\<open>optimal_point\<close> is \<open>None\<close>), the
  report raises \<open>TypeError\<close> at line 45 for any instance with a port and a
  hotel; the code never tests for \<open>None\<close>.\<close>

theorem report_no_point:
  assumes "ports d \<noteq> []" "hotels d \<noteq> []"
  shows "create_solution_report d None v = Inl TypeError"
proof -
  from assms obtain p ps h hs where "map fst (ports d) = p # ps" "map fst (hotels d) = h # hs"
    by (auto simp: neq_Nil_conv)
  then show ?thesis by (simp add: create_solution_report_def point_at_def)
qed

end
