(* ===== verification/Charts.thy ===== *)
theory Charts
  imports Report
begin

text \<open>
  The numbers behind the two charts of \<open>create_visualizations\<close> in
  \<open>src/main.py\<close> (lines 113--185). The flow diagram draws one line per route
  with a positive (truncated) number of pilgrims, with
  \<open>alpha = pilgrims / max(supplies)\<close> and five times that as line width
  (lines 138--147); matplotlib raises \<open>ValueError\<close> for an \<open>alpha\<close> outside
  \<open>[0, 1]\<close>, a check modelled from its documented behaviour. The bar chart
  plots the capacities and the use of every port and hotel (lines 159--179).
  The drawing calls that use these numbers are in theory \<open>Visualisation\<close>.
\<close>

section \<open>Flow diagram\<close>

text \<open>Python's \<open>max\<close> on a list: \<open>ValueError\<close> when it is empty.\<close>

fun py_max :: "real list \<Rightarrow> py_error + real" where
  "py_max [] = Inl ValueError"
| "py_max (v # vs) = Inr (fold max vs v)"

text \<open>\<open>plt.plot(..., alpha=a)\<close>: matplotlib checks the range.\<close>

definition check_alpha :: "real \<Rightarrow> py_error + real" where
  "check_alpha a = (if 0 \<le> a \<and> a \<le> 1 then Inr a else Inl ValueError)"

record flow =
  flow_port :: string
  flow_hotel :: string
  flow_alpha :: real
  flow_width :: real

text \<open>The loops of lines 138--147; \<open>max(data['ports'].values())\<close> is
  evaluated for every drawn route.\<close>

fun flow_hotels ::
  "real list \<Rightarrow> vec option \<Rightarrow> string \<Rightarrow> string list \<Rightarrow> nat \<Rightarrow> py_error + (flow list \<times> nat)" where
  "flow_hotels supplies pt p [] idx = Inr ([], idx)"
| "flow_hotels supplies pt p (h # hs) idx =
     sbind (point_at pt idx) (\<lambda>v.
       if 0 < py_int v then
         sbind (py_max supplies) (\<lambda>m.
         sbind (check_alpha (of_int (py_int v) / m)) (\<lambda>a.
         sbind (flow_hotels supplies pt p hs (Suc idx)) (\<lambda>(fs, r).
           Inr (\<lparr>flow_port = p, flow_hotel = h, flow_alpha = a,
                 flow_width = of_int (py_int v) / m * 5\<rparr> # fs, r))))
       else flow_hotels supplies pt p hs (Suc idx))"

fun flow_ports ::
  "real list \<Rightarrow> vec option \<Rightarrow> string list \<Rightarrow> string list \<Rightarrow> nat \<Rightarrow> py_error + (flow list \<times> nat)" where
  "flow_ports supplies pt [] hs idx = Inr ([], idx)"
| "flow_ports supplies pt (p # ps) hs idx =
     sbind (flow_hotels supplies pt p hs idx) (\<lambda>(fs, idx').
       sbind (flow_ports supplies pt ps hs idx') (\<lambda>(fs', r). Inr (fs @ fs', r)))"

definition flow_diagram :: "hajj_data \<Rightarrow> vec option \<Rightarrow> py_error + flow list" where
  "flow_diagram d pt =
     sbind (flow_ports (map snd (ports d)) pt (map fst (ports d)) (map fst (hotels d)) 0)
       (\<lambda>(fs, _). Inr fs)"

section \<open>Capacity bar chart\<close>

text \<open>The loops of lines 165--175: one sum per location, ports first.\<close>

fun sums_loop :: "string list \<Rightarrow> (string \<Rightarrow> py_error + int) \<Rightarrow> py_error + int list" where
  "sums_loop [] f = Inr []"
| "sums_loop (n # ns) f = sbind (f n) (\<lambda>u. sbind (sums_loop ns f) (\<lambda>us. Inr (u # us)))"

definition bar_used :: "hajj_data \<Rightarrow> vec option \<Rightarrow> py_error + int list" where
  "bar_used d pt =
     (let ps = map fst (ports d); hs = map fst (hotels d)
      in sbind (sums_loop ps (\<lambda>p. sum_at pt (port_indices ps (length hs) p))) (\<lambda>pu.
         sbind (sums_loop hs (\<lambda>h. sum_at pt (hotel_indices (length ps) hs h))) (\<lambda>hu.
         Inr (pu @ hu))))"

text \<open>Line 161: the capacities drawn behind the use.\<close>

definition bar_capacities :: "hajj_data \<Rightarrow> real list" where
  "bar_capacities d = map snd (ports d) @ map snd (hotels d)"

section \<open>Properties\<close>

lemma usage_loop_sums:
  "usage_loop l f = Inr us \<Longrightarrow> sums_loop (map fst l) f = Inr (map usage_used us)"
proof (induction l arbitrary: us)
  case (Cons e l)
  obtain n cap where e: "e = (n, cap)" by (cases e)
  from Cons.prems e obtain u us' where "f n = Inr u" "cap \<noteq> 0" "usage_loop l f = Inr us'"
    "us = \<lparr>usage_name = n, usage_used = u, usage_capacity = cap,
           usage_percent = of_int u / cap * 100\<rparr> # us'"
    by (auto simp: sbind_eq_Inr split: if_splits)
  with Cons.IH e show ?case by simp
qed simp

text \<open>C32: the bar chart plots exactly the uses the report prints, ports
  then hotels, whenever the report is produced.\<close>

theorem bar_used_matches_report:
  "create_solution_report d pt v = Inr r \<Longrightarrow>
   bar_used d pt = Inr (map usage_used (rep_port_usage r @ rep_hotel_usage r))"
  by (auto simp: create_solution_report_def bar_used_def Let_def sbind_eq_Inr usage_loop_sums
      split: prod.splits)

lemma py_int_le: "0 \<le> v \<Longrightarrow> of_int (py_int v) \<le> v"
  by (simp add: py_int_def)

lemma flow_hotels_ok:
  assumes "py_max supplies = Inr m" "0 < m" "idx + length hs \<le> length x"
    "\<forall>k<length x. x ! k \<le> m"
  shows "\<exists>fs. flow_hotels supplies (Some x) p hs idx = Inr (fs, idx + length hs)"
  using assms(3)
proof (induction hs arbitrary: idx)
  case (Cons h hs)
  then have i: "idx < length x" by simp
  from Cons.IH [of "Suc idx"] Cons.prems obtain fs
    where fs: "flow_hotels supplies (Some x) p hs (Suc idx) = Inr (fs, Suc idx + length hs)" by auto
  have "of_int (py_int (x ! idx)) / m \<le> 1" if "0 < py_int (x ! idx)"
  proof -
    from that have "0 \<le> x ! idx" by (simp add: py_int_def split: if_splits)
    then have "of_int (py_int (x ! idx)) \<le> m" using py_int_le assms(4) i order_trans by blast
    with assms(2) show ?thesis by simp
  qed
  with assms(1,2) i fs show ?case
    by (simp add: point_at_def check_alpha_def)
qed simp

lemma flow_ports_ok:
  assumes "py_max supplies = Inr m" "0 < m" "idx + length ps * length hs \<le> length x"
    "\<forall>k<length x. x ! k \<le> m"
  shows "\<exists>fs. flow_ports supplies (Some x) ps hs idx = Inr (fs, idx + length ps * length hs)"
  using assms(3)
proof (induction ps arbitrary: idx)
  case (Cons p ps)
  from flow_hotels_ok [OF assms(1,2) _ assms(4), of idx hs p] Cons.prems obtain fs
    where fs: "flow_hotels supplies (Some x) p hs idx = Inr (fs, idx + length hs)" by auto
  from Cons.IH [of "idx + length hs"] Cons.prems obtain fs'
    where "flow_ports supplies (Some x) ps hs (idx + length hs) = Inr (fs', idx + length hs + length ps * length hs)"
    by (auto simp: add.assoc)
  with fs show ?case by (simp add: add.assoc)
qed simp

text \<open>C33: for a point satisfying the system of \<open>get_problem_matrices\<close>, the
  flow diagram raises no \<open>ValueError\<close> when the bus capacity (plus the
  tolerance) is at most the largest supply: every drawn route carries at most
  the bus capacity, so its \<open>alpha\<close> lies in \<open>[0, 1]\<close>.\<close>

theorem flow_diagram_ok:
  assumes pm: "problem_matrices d = Inr (A, b, c)" and wf: "wf_data d"
    and fx: "feasible A b x" and len: "length x = length (ports d) * length (hotels d)"
    and m: "py_max (map snd (ports d)) = Inr m" and bus: "bus_capacity d + tol \<le> m"
  shows "\<exists>fs. flow_diagram d (Some x) = Inr fs"
proof -
  have "dot (eye_row (length x) k) x \<le> bus_capacity d + tol" if "k < length x" for k
    using feasible_problem_matrices_rows [OF pm, THEN iffD1, OF fx] that len by auto
  then have xk: "\<forall>k<length x. x ! k \<le> m"
    using bus dot_eye_row order_trans by (metis order_refl)
  have "0 < m" using wf bus tol_bounds(1) by (simp add: wf_data_def)
  from flow_ports_ok [OF m this _ xk, of 0 "map fst (ports d)" "map fst (hotels d)"] len
  show ?thesis by (auto simp: flow_diagram_def)
qed

end
