(* ===== verification/Driver.thy ===== *)
theory Driver
  imports Charts
begin

text \<open>
  The driver of \<open>src/main.py\<close>: \<open>main\<close> (lines 194--210) creates the
  \<open>results\<close> directory and runs \<open>solve_and_visualize\<close> (lines 81--111) for
  each example size in turn; that computes the matrices and the integer
  solution, prints the report, draws the two charts into PNG files and saves
  the report into a text file named after the current time
  (\<open>save_report\<close>, lines 187--192). An exception propagates out of \<open>main\<close>
  and ends the program. The state is a record of the driver's phase, whether
  the directory exists, what was printed and the files written (name and
  content); the steps are an inductive relation whose \<open>save_report\<close> step
  may take any timestamp. Printed text is a list of events carrying the
  modelled values, not the formatted strings.
\<close>

section \<open>Effects\<close>

datatype file_content =
    FlowChart "flow list"
  | CapacityChart "real list" "int list"
  | ReportFile report

datatype event = Processing string | PrintReport report | SavedNotice

text \<open>The file names of lines 152, 184 and 190.\<close>

definition flow_file :: "string \<Rightarrow> string" where
  "flow_file e = ''results/flow_diagram_'' @ e @ ''.png''"

definition capacity_file :: "string \<Rightarrow> string" where
  "capacity_file e = ''results/capacity_utilization_'' @ e @ ''.png''"

definition report_file :: "string \<Rightarrow> string \<Rightarrow> string" where
  "report_file e ts = ''results/hajj_optimization_report_'' @ e @ ''_'' @ ts @ ''.txt''"

type_synonym effects = "event list \<times> (string \<times> file_content) list \<times> py_error option"

text \<open>Lines 103--111 once the point is known: the report is printed, the
  flow diagram and the bar chart are drawn and saved, then the report file;
  \<open>plt.savefig\<close> into a missing directory raises.\<close>

definition after_solve ::
  "bool \<Rightarrow> hajj_data \<Rightarrow> string \<Rightarrow> string \<Rightarrow> vec option \<Rightarrow> xreal \<Rightarrow> effects" where
  "after_solve dir d e ts pt v =
     (case create_solution_report d pt v of
        Inl err \<Rightarrow> ([], [], Some err)
      | Inr r \<Rightarrow>
          (case flow_diagram d pt of
             Inl err \<Rightarrow> ([PrintReport r], [], Some err)
           | Inr fs \<Rightarrow>
               if \<not> dir then ([PrintReport r], [], Some FileNotFoundError)
               else (case bar_used d pt of
                       Inl err \<Rightarrow> ([PrintReport r], [(flow_file e, FlowChart fs)], Some err)
                     | Inr us \<Rightarrow>
                         ([PrintReport r],
                          [(flow_file e, FlowChart fs),
                           (capacity_file e, CapacityChart (bar_capacities d) us),
                           (report_file e ts, ReportFile r)], None))))"

text \<open>\<open>solve_and_visualize\<close>, lines 86--111; \<open>None\<close> when the search does not
  return.\<close>

definition solve_and_visualize :: "bool \<Rightarrow> string \<Rightarrow> string \<Rightarrow> effects option" where
  "solve_and_visualize dir e ts =
     (case get_problem_matrices e of
        Inl err \<Rightarrow> Some ([], [], Some err)
      | Inr (A, b, c) \<Rightarrow>
          map_option (\<lambda>(pt, v). after_solve dir (select_example e) e ts pt v) (optimizerIPBB A b c))"

section \<open>The driver\<close>

datatype phase = Start "string list" | Running "string list" | Finished | Raised py_error

record driver =
  phase :: phase
  results_dir :: bool
  printed :: "event list"
  files :: "(string \<times> file_content) list"

definition main_init :: "string list \<Rightarrow> driver" where
  "main_init ss = \<lparr>phase = Start ss, results_dir = False, printed = [], files = []\<rparr>"

text \<open>\<open>main()\<close>: the sizes of line 207.\<close>

definition main_sizes :: "string list" where
  "main_sizes = [''small'', ''medium'', ''large'']"

text \<open>One step of \<open>main\<close>: create the directory (lines 200--201), finish the
  loop, or run one size (lines 208--210), normally or with an exception that
  ends the program.\<close>

inductive drive_step :: "driver \<Rightarrow> driver \<Rightarrow> bool" where
  mkdir: "phase s = Start ss \<Longrightarrow> drive_step s (s\<lparr>phase := Running ss, results_dir := True\<rparr>)"
| finish: "phase s = Running [] \<Longrightarrow> drive_step s (s\<lparr>phase := Finished\<rparr>)"
| solved: "phase s = Running (e # ss) \<Longrightarrow>
    solve_and_visualize (results_dir s) e ts = Some (evs, fs, None) \<Longrightarrow>
    drive_step s (s\<lparr>phase := Running ss, printed := printed s @ [Processing e] @ evs @ [SavedNotice],
                   files := files s @ fs\<rparr>)"
| raised: "phase s = Running (e # ss) \<Longrightarrow>
    solve_and_visualize (results_dir s) e ts = Some (evs, fs, Some err) \<Longrightarrow>
    drive_step s (s\<lparr>phase := Raised err, printed := printed s @ [Processing e] @ evs,
                   files := files s @ fs\<rparr>)"

section \<open>Invariants\<close>

text \<open>The sizes still to run, the files one size may write, and the two
  invariants of the driver: the directory is created before any file, and
  every file name belongs to a size already processed, once.\<close>

definition remaining :: "driver \<Rightarrow> string list" where
  "remaining s = (case phase s of Start ss \<Rightarrow> ss | Running ss \<Rightarrow> ss | _ \<Rightarrow> [])"

definition file_of :: "string \<Rightarrow> string \<Rightarrow> bool" where
  "file_of e n \<longleftrightarrow> n = flow_file e \<or> n = capacity_file e \<or> (\<exists>ts. n = report_file e ts)"

definition main_ok :: "driver \<Rightarrow> bool" where
  "main_ok s \<longleftrightarrow>
     (case phase s of Start _ \<Rightarrow> files s = [] | _ \<Rightarrow> results_dir s) \<and>
     phase s \<noteq> Raised FileNotFoundError \<and>
     list_all (\<lambda>f. take 8 (fst f) = ''results/'') (files s)"

definition names_ok :: "string list \<Rightarrow> driver \<Rightarrow> bool" where
  "names_ok ss0 s \<longleftrightarrow>
     distinct (map fst (files s)) \<and> distinct (remaining s) \<and> set (remaining s) \<subseteq> set ss0 \<and>
     (\<forall>n\<in>fst ` set (files s). \<exists>e\<in>set ss0. e \<notin> set (remaining s) \<and> file_of e n)"

named_theorems no_fnf "computations of the model that never raise FileNotFoundError"

inductive_cases drive_stepE: "drive_step s s'"

section \<open>Properties\<close>




lemma point_at_fnf [no_fnf]: "point_at pt k \<noteq> Inl FileNotFoundError"
  by (simp add: point_at_def split: option.split)

lemma cost_of_fnf [no_fnf]: "cost_of d p h \<noteq> Inl FileNotFoundError"
  by (simp add: cost_of_def split: option.split)

lemma avg_cost_fnf [no_fnf]: "avg_cost v n \<noteq> Inl FileNotFoundError"
  by (simp add: avg_cost_def split: xreal.split)

lemma py_max_fnf [no_fnf]: "py_max xs \<noteq> Inl FileNotFoundError"
  by (cases xs) simp_all

lemma check_alpha_fnf [no_fnf]: "check_alpha a \<noteq> Inl FileNotFoundError"
  by (simp add: check_alpha_def)

lemma alloc_hotels_fnf [no_fnf]: "alloc_hotels d pt p hs idx tot \<noteq> Inl FileNotFoundError"
  by (induction hs arbitrary: idx tot)
    (auto simp: sbind_eq_Inl no_fnf split: prod.splits)

lemma alloc_ports_fnf [no_fnf]: "alloc_ports d pt ps hs idx tot \<noteq> Inl FileNotFoundError"
  by (induction ps arbitrary: idx tot) (auto simp: sbind_eq_Inl no_fnf split: prod.splits)

lemma sum_at_fnf [no_fnf]: "sum_at pt ks \<noteq> Inl FileNotFoundError"
  by (induction ks) (auto simp: sbind_eq_Inl no_fnf)

lemma usage_loop_fnf [no_fnf]:
  "(\<And>n. f n \<noteq> Inl FileNotFoundError) \<Longrightarrow> usage_loop l f \<noteq> Inl FileNotFoundError"
  by (induction l f rule: usage_loop.induct) (auto simp: sbind_eq_Inl)

lemma sums_loop_fnf [no_fnf]:
  "(\<And>n. f n \<noteq> Inl FileNotFoundError) \<Longrightarrow> sums_loop l f \<noteq> Inl FileNotFoundError"
  by (induction l) (auto simp: sbind_eq_Inl)

lemma flow_hotels_fnf [no_fnf]: "flow_hotels sp pt p hs idx \<noteq> Inl FileNotFoundError"
  by (induction hs arbitrary: idx) (auto simp: sbind_eq_Inl no_fnf split: prod.splits)

lemma flow_ports_fnf [no_fnf]: "flow_ports sp pt ps hs idx \<noteq> Inl FileNotFoundError"
  by (induction ps arbitrary: idx) (auto simp: sbind_eq_Inl no_fnf split: prod.splits)

lemma report_fnf [no_fnf]: "create_solution_report d pt v \<noteq> Inl FileNotFoundError"
  unfolding create_solution_report_def Let_def
  by (auto simp: sbind_eq_Inl no_fnf split: prod.splits)

lemma flow_diagram_fnf [no_fnf]: "flow_diagram d pt \<noteq> Inl FileNotFoundError"
  unfolding flow_diagram_def by (auto simp: sbind_eq_Inl no_fnf split: prod.splits)

lemma bar_used_fnf [no_fnf]: "bar_used d pt \<noteq> Inl FileNotFoundError"
  unfolding bar_used_def Let_def by (auto simp: sbind_eq_Inl no_fnf)

lemma get_problem_matrices_fnf [no_fnf]: "get_problem_matrices e \<noteq> Inl FileNotFoundError"
  by (simp add: get_problem_matrices_def problem_matrices_Inl_iff)

lemma after_solve_fnf:
  "after_solve True d e ts pt v = (evs, fs, Some err) \<Longrightarrow> err \<noteq> FileNotFoundError"
  using report_fnf [of d pt v] flow_diagram_fnf [of d pt] bar_used_fnf [of d pt]
  by (auto simp: after_solve_def split: sum.splits)

lemma solve_and_visualize_fnf:
  "solve_and_visualize True e ts = Some (evs, fs, Some err) \<Longrightarrow> err \<noteq> FileNotFoundError"
  using get_problem_matrices_fnf [of e]
  by (auto simp: solve_and_visualize_def split: sum.splits prod.splits dest: after_solve_fnf)

lemma after_solve_files:
  "after_solve dir d e ts pt v = (evs, fs, r) \<Longrightarrow>
   prefix (map fst fs) [flow_file e, capacity_file e, report_file e ts]
   \<and> (r = None \<longrightarrow> map fst fs = [flow_file e, capacity_file e, report_file e ts])"
  by (auto simp: after_solve_def split: sum.splits if_splits)

lemma solve_and_visualize_files:
  "solve_and_visualize dir e ts = Some (evs, fs, r) \<Longrightarrow>
   prefix (map fst fs) [flow_file e, capacity_file e, report_file e ts]
   \<and> (r = None \<longrightarrow> map fst fs = [flow_file e, capacity_file e, report_file e ts])"
  by (auto simp: solve_and_visualize_def split: sum.splits dest: after_solve_files)

lemma file_names_distinct: "distinct [flow_file e, capacity_file e, report_file e ts]"
  by (simp add: flow_file_def capacity_file_def report_file_def)

lemma append_sep_eq: "c \<notin> set e \<Longrightarrow> c \<notin> set e' \<Longrightarrow> e @ c # r = e' @ c # r' \<Longrightarrow> e = e'"
proof (induction e arbitrary: e')
  case Nil
  then show ?case by (cases e') auto
next
  case (Cons a e)
  then show ?case by (cases e') auto
qed

lemma file_of_disjoint:
  assumes "e \<noteq> e'" "CHR ''_'' \<notin> set e" "CHR ''_'' \<notin> set e'" "file_of e n"
  shows "\<not> file_of e' n"
proof
  assume "file_of e' n"
  with assms(4) have "e = e'"
    using append_sep_eq [OF assms(2,3)]
    by (auto simp: file_of_def flow_file_def capacity_file_def report_file_def)
  with assms(1) show False ..
qed

lemma file_of_names: "file_of e (flow_file e)" "file_of e (capacity_file e)" "file_of e (report_file e ts)"
  by (auto simp: file_of_def)

lemma results_prefix:
  "take 8 (flow_file e) = ''results/''" "take 8 (capacity_file e) = ''results/''"
  "take 8 (report_file e ts) = ''results/''"
  by (simp_all add: flow_file_def capacity_file_def report_file_def)

lemma prefix_names_results:
  "prefix (map fst fs) [flow_file e, capacity_file e, report_file e ts] \<Longrightarrow>
   list_all (\<lambda>f. take 8 (fst f) = ''results/'') fs"
proof -
  assume "prefix (map fst fs) [flow_file e, capacity_file e, report_file e ts]"
  from set_mono_prefix [OF this]
  have "fst ` set fs \<subseteq> {flow_file e, capacity_file e, report_file e ts}" by simp
  then show ?thesis by (force simp: list_all_iff results_prefix)
qed

lemma main_ok_step: "drive_step s s' \<Longrightarrow> main_ok s \<Longrightarrow> main_ok s'"
proof (induction rule: drive_step.induct)
  case (mkdir s ss)
  then show ?case by (simp add: main_ok_def)
next
  case (finish s)
  then show ?case by (simp add: main_ok_def)
next
  case (solved s e ss ts evs fs)
  from solve_and_visualize_files [OF solved.hyps(2)] have "list_all (\<lambda>f. take 8 (fst f) = ''results/'') fs"
    by (blast intro: prefix_names_results)
  with solved show ?case by (simp add: main_ok_def)
next
  case (raised s e ss ts evs fs err)
  from raised have dir: "results_dir s" by (simp add: main_ok_def)
  from solve_and_visualize_files [OF raised.hyps(2)] have "list_all (\<lambda>f. take 8 (fst f) = ''results/'') fs"
    by (blast intro: prefix_names_results)
  moreover from raised.hyps(2) dir have "err \<noteq> FileNotFoundError"
    using solve_and_visualize_fnf by auto
  ultimately show ?case using raised by (simp add: main_ok_def)
qed

lemma main_ok_reachable: "drive_step\<^sup>*\<^sup>* (main_init ss) s \<Longrightarrow> main_ok s"
proof (induction rule: rtranclp_induct)
  case base
  then show ?case by (simp add: main_ok_def main_init_def)
next
  case (step s s')
  then show ?case by (blast intro: main_ok_step)
qed

text \<open>C34: in every state \<open>main\<close> reaches, files exist only after the
  \<open>results\<close> directory was created, every file lies under \<open>results/\<close>, and
  the program never stops with \<open>FileNotFoundError\<close>.\<close>

theorem main_files_in_results:
  "drive_step\<^sup>*\<^sup>* (main_init ss) s \<Longrightarrow>
   (files s \<noteq> [] \<longrightarrow> results_dir s) \<and> phase s \<noteq> Raised FileNotFoundError \<and>
   list_all (\<lambda>f. take 8 (fst f) = ''results/'') (files s)"
  using main_ok_reachable [of ss s] by (auto simp: main_ok_def split: phase.splits)

lemma run_remaining:
  assumes "phase s = Running ss" "results_dir s"
    "\<forall>e\<in>set ss. \<exists>ts evs fs. solve_and_visualize True e ts = Some (evs, fs, None)"
  shows "\<exists>s'. drive_step\<^sup>*\<^sup>* s s' \<and> phase s' = Finished \<and> results_dir s'
    \<and> length (files s') = length (files s) + 3 * length ss"
  using assms
proof (induction ss arbitrary: s)
  case Nil
  then have "drive_step s (s\<lparr>phase := Finished\<rparr>)" by (intro drive_step.finish)
  with Nil show ?case by auto
next
  case (Cons e ss)
  then obtain ts evs fs where sv: "solve_and_visualize True e ts = Some (evs, fs, None)" by auto
  let ?s1 = "s\<lparr>phase := Running ss, printed := printed s @ [Processing e] @ evs @ [SavedNotice],
                files := files s @ fs\<rparr>"
  from Cons.prems sv have st: "drive_step s ?s1" by (intro drive_step.solved) simp_all
  from solve_and_visualize_files [OF sv] have "map fst fs = [flow_file e, capacity_file e, report_file e ts]"
    by simp
  then have "length (map fst fs) = 3" by simp
  then have l3: "length fs = 3" by simp
  from Cons.IH [of ?s1] Cons.prems obtain s' where r: "drive_step\<^sup>*\<^sup>* ?s1 s'"
    and f: "phase s' = Finished" "results_dir s'"
    and l: "length (files s') = length (files ?s1) + 3 * length ss"
    by auto
  from st r have "drive_step\<^sup>*\<^sup>* s s'" by (rule converse_rtranclp_into_rtranclp)
  moreover from l l3 have "length (files s') = length (files s) + 3 * length (e # ss)" by simp
  ultimately show ?case using f by blast
qed

text \<open>C35: liveness. When \<open>solve_and_visualize\<close> returns without an
  exception for every size (for some timestamp), \<open>main\<close> runs to its end and
  has written three files per size.\<close>

theorem main_completes:
  assumes "\<forall>e\<in>set ss. \<exists>ts evs fs. solve_and_visualize True e ts = Some (evs, fs, None)"
  shows "\<exists>s. drive_step\<^sup>*\<^sup>* (main_init ss) s \<and> phase s = Finished \<and> length (files s) = 3 * length ss"
proof -
  let ?s1 = "(main_init ss)\<lparr>phase := Running ss, results_dir := True\<rparr>"
  have "drive_step (main_init ss) ?s1" by (rule drive_step.mkdir) (simp add: main_init_def)
  moreover from run_remaining [of ?s1 ss] assms obtain s' where "drive_step\<^sup>*\<^sup>* ?s1 s'"
    "phase s' = Finished" "length (files s') = 3 * length ss"
    by (auto simp: main_init_def)
  ultimately show ?thesis by (blast intro: converse_rtranclp_into_rtranclp)
qed


lemma distinct_prefix: "prefix xs ys \<Longrightarrow> distinct ys \<Longrightarrow> distinct xs"
  by (auto simp: prefix_def)

lemma solve_and_visualize_names:
  assumes "solve_and_visualize dir e ts = Some (evs, fs, r)"
  shows "distinct (map fst fs) \<and> (\<forall>n\<in>fst ` set fs. file_of e n)"
proof -
  from solve_and_visualize_files [OF assms]
  have p: "prefix (map fst fs) [flow_file e, capacity_file e, report_file e ts]" ..
  from distinct_prefix [OF p file_names_distinct] have "distinct (map fst fs)" .
  moreover from set_mono_prefix [OF p]
  have sub: "fst ` set fs \<subseteq> {flow_file e, capacity_file e, report_file e ts}" by simp
  have "file_of e n" if "n \<in> fst ` set fs" for n
    using subsetD [OF sub that] unfolding file_of_def by blast
  then have "\<forall>n\<in>fst ` set fs. file_of e n" by blast
  ultimately show ?thesis ..
qed

lemma names_ok_add:
  assumes ok: "names_ok ss0 s" and ph: "phase s = Running (e # ss)"
    and us: "\<forall>e\<in>set ss0. CHR ''_'' \<notin> set e"
    and new: "distinct (map fst fs)" "\<forall>n\<in>fst ` set fs. file_of e n"
    and rest: "set rest \<subseteq> set ss" "distinct rest"
    and rem: "remaining (s\<lparr>phase := p, printed := out, files := files s @ fs\<rparr>) = rest"
  shows "names_ok ss0 (s\<lparr>phase := p, printed := out, files := files s @ fs\<rparr>)"
proof -
  have rs: "remaining s = e # ss" using ph by (simp add: remaining_def)
  from ok have d0: "distinct (map fst (files s))" and dss: "distinct (e # ss)"
    and sub: "set (e # ss) \<subseteq> set ss0"
    and old: "\<forall>n\<in>fst ` set (files s). \<exists>e'\<in>set ss0. e' \<notin> set (e # ss) \<and> file_of e' n"
    unfolding names_ok_def rs by blast+
  from sub have e0: "e \<in> set ss0" by simp
  have disj: "n \<notin> fst ` set (files s)" if "n \<in> fst ` set fs" for n
  proof
    assume "n \<in> fst ` set (files s)"
    with old obtain e' where "e' \<in> set ss0" "e' \<notin> set (e # ss)" "file_of e' n" by blast
    moreover from new(2) that have "file_of e n" by blast
    moreover from us e0 have "CHR ''_'' \<notin> set e" by blast
    moreover from us \<open>e' \<in> set ss0\<close> have "CHR ''_'' \<notin> set e'" by blast
    ultimately show False using file_of_disjoint [of e e' n] by auto
  qed
  have dist: "distinct (map fst (files s @ fs))"
  proof -
    have "set (map fst (files s)) \<inter> set (map fst fs) = {}" using disj by auto
    with d0 new(1) show ?thesis by simp
  qed
  have cover: "\<exists>e'\<in>set ss0. e' \<notin> set rest \<and> file_of e' n" if n: "n \<in> fst ` set (files s @ fs)" for n
  proof (cases "n \<in> fst ` set fs")
    case True
    with new(2) have "file_of e n" by blast
    moreover from dss rest(1) have "e \<notin> set rest" by auto
    ultimately show ?thesis using e0 by blast
  next
    case False
    with n have "n \<in> fst ` set (files s)" by auto
    with old obtain e' where "e' \<in> set ss0" "e' \<notin> set (e # ss)" "file_of e' n" by blast
    with rest(1) show ?thesis by auto
  qed
  have "set rest \<subseteq> set ss0" using rest(1) sub by auto
  with dist cover rest(2) show ?thesis unfolding names_ok_def rem by simp
qed

lemma names_ok_step:
  "drive_step s s' \<Longrightarrow> \<forall>e\<in>set ss0. CHR ''_'' \<notin> set e \<Longrightarrow> names_ok ss0 s \<Longrightarrow> names_ok ss0 s'"
proof (induction rule: drive_step.induct)
  case (mkdir s ss)
  then show ?case by (simp add: names_ok_def remaining_def)
next
  case (finish s)
  then show ?case by (simp add: names_ok_def remaining_def)
next
  case (solved s e ss ts evs fs)
  from solved.prems(2) solved.hyps(1) have d: "distinct ss" by (simp add: names_ok_def remaining_def)
  from solve_and_visualize_names [OF solved.hyps(2)]
  have nm: "distinct (map fst fs)" "\<forall>n\<in>fst ` set fs. file_of e n" by simp_all
  show ?case
    by (rule names_ok_add [OF solved.prems(2) solved.hyps(1) solved.prems(1) nm, of ss])
      (simp_all add: remaining_def d)
next
  case (raised s e ss ts evs fs err)
  from solve_and_visualize_names [OF raised.hyps(2)]
  have nm: "distinct (map fst fs)" "\<forall>n\<in>fst ` set fs. file_of e n" by simp_all
  show ?case
    by (rule names_ok_add [OF raised.prems(2) raised.hyps(1) raised.prems(1) nm, of "[]"])
      (simp_all add: remaining_def)
qed

text \<open>C36: for distinct sizes without an underscore (as in \<open>main\<close>), no
  file is written twice: the names of the two charts and of the timestamped
  report differ within a size and across sizes.\<close>

theorem main_files_distinct:
  assumes "distinct ss" "\<forall>e\<in>set ss. CHR ''_'' \<notin> set e" "drive_step\<^sup>*\<^sup>* (main_init ss) s"
  shows "distinct (map fst (files s))"
proof -
  have "names_ok ss s" using assms(3)
  proof (induction rule: rtranclp_induct)
    case base
    from assms(1) show ?case by (simp add: names_ok_def main_init_def remaining_def)
  next
    case (step s s')
    with assms(2) show ?case by (blast intro: names_ok_step)
  qed
  then show ?thesis by (simp add: names_ok_def)
qed

end
