(* ===== verification/Format.thy ===== *)
theory Format
  imports Report
begin

text \<open>
  The text the report prints for a number. \<open>format_cost\<close> (\<open>src/main.py\<close>,
  lines 14--16) is \<open>f"{cost:,.2f} SAR"\<close>: Python's fixed-point format with
  two decimals and a comma between groups of three digits. The format
  mini-language is library code and is modelled from its documented
  behaviour: the magnitude is rounded to hundredths, half to even (on the
  exact value, as Python rounds the exact binary value); a \<open>-\<close> is written
  for every negative value, also when the rounded magnitude is zero; the
  infinities and \<open>nan\<close> print as \<open>inf\<close>, \<open>-inf\<close> and \<open>nan\<close>. \<open>str()\<close> of an
  integer and the padding of \<open>{s:<n}\<close> and \<open>{s:>n}\<close> are here as well.
  \<open>parse_cost\<close> reads a formatted cost back; the round trip and the
  rounding error of at most half a hundredth are the properties proved.
\<close>

section \<open>Integers as text\<close>

text \<open>\<open>str(n)\<close> for a natural number, most significant digit first.\<close>

fun py_str_nat :: "nat \<Rightarrow> string" where
  "py_str_nat n =
     (if n < 10 then [char_of (48 + n)] else py_str_nat (n div 10) @ [char_of (48 + n mod 10)])"

declare py_str_nat.simps [simp del]

definition py_str_int :: "int \<Rightarrow> string" where
  "py_str_int i = (if i < 0 then ''-'' @ py_str_nat (nat (- i)) else py_str_nat (nat i))"

text \<open>The \<open>,\<close> option: a comma before every group of three digits, counted
  from the right.\<close>

fun group_thousands :: "string \<Rightarrow> string" where
  "group_thousands s =
     (if length s \<le> 3 then s
      else group_thousands (take (length s - 3) s) @ '','' @ drop (length s - 3) s)"

declare group_thousands.simps [simp del]

section \<open>Fixed point with two decimals\<close>

text \<open>Rounding to the nearest integer, a tie to the even one.\<close>

definition round_half_even :: "real \<Rightarrow> int" where
  "round_half_even r =
     (let f = \<lfloor>r\<rfloor>; d = r - of_int f
      in if d < 1 / 2 then f else if 1 / 2 < d then f + 1 else if even f then f else f + 1)"

text \<open>\<open>format(a, '.2f')\<close>, and with \<open>grp\<close> \<open>format(a, ',.2f')\<close>, of a finite
  value: sign, integer part, point, two digits.\<close>

definition fixed2 :: "bool \<Rightarrow> real \<Rightarrow> string" where
  "fixed2 grp a =
     (let c = nat (round_half_even (\<bar>a\<bar> * 100)); ip = py_str_nat (c div 100); f = c mod 100
      in (if a < 0 then ''-'' else []) @ (if grp then group_thousands ip else ip) @ ''.'' @
         [char_of (48 + f div 10), char_of (48 + f mod 10)])"

definition py_format_2f :: "bool \<Rightarrow> pyfloat \<Rightarrow> string" where
  "py_format_2f grp v =
     (case v of Num a \<Rightarrow> fixed2 grp a | PosInf \<Rightarrow> ''inf'' | NegInf \<Rightarrow> ''-inf'' | NaN \<Rightarrow> ''nan'')"

text \<open>Lines 14--16.\<close>

definition format_cost :: "pyfloat \<Rightarrow> string" where
  "format_cost v = py_format_2f True v @ '' SAR''"

text \<open>The float a \<open>best_val\<close> of the search is: \<open>float('inf')\<close> or a finite
  \<open>float64\<close>.\<close>

primrec xfloat :: "xreal \<Rightarrow> pyfloat" where
  "xfloat (Fin a) = Num a"
| "xfloat PInf = PosInf"

section \<open>Padding\<close>

text \<open>\<open>{s:<n}\<close> and \<open>{s:>n}\<close>: spaces after or before, up to width \<open>n\<close>; a
  longer string is kept whole.\<close>

definition ljust :: "nat \<Rightarrow> string \<Rightarrow> string" where
  "ljust n s = s @ replicate (n - length s) CHR '' ''"

definition rjust :: "nat \<Rightarrow> string \<Rightarrow> string" where
  "rjust n s = replicate (n - length s) CHR '' '' @ s"

section \<open>Reading a cost back\<close>

text \<open>Decimal digits to a number, accumulating as a parser does.\<close>

fun read_nat :: "nat \<Rightarrow> string \<Rightarrow> nat option" where
  "read_nat acc [] = Some acc"
| "read_nat acc (c # cs) =
     (if 48 \<le> (of_char c :: nat) \<and> (of_char c :: nat) \<le> 57
      then read_nat (10 * acc + (of_char c - 48)) cs else None)"

definition parse_unsigned :: "string \<Rightarrow> real option" where
  "parse_unsigned s =
     (let ip = takeWhile (\<lambda>c. c \<noteq> CHR ''.'') s; fp = drop (Suc (length ip)) s
      in if length fp = 2 \<and> ip \<noteq> [] then
           (case (read_nat 0 (filter (\<lambda>c. c \<noteq> CHR '','') ip), read_nat 0 fp) of
              (Some i, Some f) \<Rightarrow> Some (of_nat i + of_nat f / 100)
            | _ \<Rightarrow> None)
         else None)"

definition parse_cost :: "string \<Rightarrow> real option" where
  "parse_cost s =
     (if drop (length s - 4) s = '' SAR'' \<and> 4 \<le> length s then
        (let body = take (length s - 4) s in
         if body \<noteq> [] \<and> hd body = CHR ''-'' then map_option uminus (parse_unsigned (tl body))
         else parse_unsigned body)
      else None)"

text \<open>The value a finite cost prints as: its magnitude rounded to
  hundredths, with its sign.\<close>

definition cents :: "real \<Rightarrow> real" where
  "cents a = (if a < 0 then - 1 else 1) * of_int (round_half_even (\<bar>a\<bar> * 100)) / 100"

section \<open>Lemmas\<close>

lemma replicate_numeral: "replicate (numeral k) x = x # replicate (pred_numeral k) x"
  by (simp add: numeral_eq_Suc)

text \<open>The equations that evaluate the formatting on literals.\<close>

lemmas format_eval = format_cost_def py_format_2f_def fixed2_def round_half_even_def
  py_str_nat.simps group_thousands.simps py_str_int_def ljust_def rjust_def char_of_def bit_simps
  replicate_numeral

lemma of_char_digit [simp]: "d < 10 \<Longrightarrow> (of_char (char_of (48 + d)) :: nat) = 48 + d"
  by (simp add: of_char_of)

lemma py_str_nat_digits: "c \<in> set (py_str_nat n) \<Longrightarrow> 48 \<le> (of_char c :: nat) \<and> (of_char c :: nat) \<le> 57"
proof (induction n rule: py_str_nat.induct)
  case (1 n)
  then show ?case
    by (cases "n < 10") (auto simp: py_str_nat.simps [of n])
qed

lemma py_str_nat_not_Nil [simp]: "py_str_nat n \<noteq> []"
  by (simp add: py_str_nat.simps [of n])

lemma read_nat_append:
  "read_nat acc (xs @ ys) = (case read_nat acc xs of None \<Rightarrow> None | Some a \<Rightarrow> read_nat a ys)"
  by (induction acc xs rule: read_nat.induct) simp_all

lemma read_nat_py_str_nat:
  "read_nat acc (py_str_nat n) = Some (acc * 10 ^ length (py_str_nat n) + n)"
proof (induction n arbitrary: acc rule: py_str_nat.induct)
  case (1 n)
  show ?case
  proof (cases "n < 10")
    case True
    then show ?thesis by (simp add: py_str_nat.simps [of n])
  next
    case False
    then have "read_nat acc (py_str_nat n) =
        read_nat (acc * 10 ^ length (py_str_nat (n div 10)) + n div 10) [char_of (48 + n mod 10)]"
      using "1.IH" [OF False] by (simp add: py_str_nat.simps [of n] read_nat_append)
    also have "\<dots> = Some (acc * 10 ^ length (py_str_nat n) + n)"
      using False by (simp add: py_str_nat.simps [of n] algebra_simps)
    finally show ?thesis .
  qed
qed

lemma read_nat_py_str_nat_0 [simp]: "read_nat 0 (py_str_nat n) = Some n"
  by (simp add: read_nat_py_str_nat)


lemma filter_neq_absent: "c \<notin> set s \<Longrightarrow> filter (\<lambda>x. x \<noteq> c) s = s"
  by (induction s) auto

lemma group_thousands_step:
  "\<not> length s \<le> 3 \<Longrightarrow>
   group_thousands s = group_thousands (take (length s - 3) s) @ CHR '','' # drop (length s - 3) s"
  by (simp add: group_thousands.simps [of s])

lemma group_thousands_filter:
  "CHR '','' \<notin> set s \<Longrightarrow> filter (\<lambda>c. c \<noteq> CHR '','') (group_thousands s) = s"
proof (induction s rule: group_thousands.induct)
  case (1 s)
  show ?case
  proof (cases "length s \<le> 3")
    case True
    then have "group_thousands s = s" by (simp add: group_thousands.simps [of s])
    with "1.prems" show ?thesis by (simp add: filter_neq_absent)
  next
    case False
    have t: "CHR '','' \<notin> set (take (length s - 3) s)" and d: "CHR '','' \<notin> set (drop (length s - 3) s)"
      using "1.prems" by (meson in_set_takeD, meson in_set_dropD)
    have "filter (\<lambda>c. c \<noteq> CHR '','') (group_thousands s) =
        take (length s - 3) s @ filter (\<lambda>c. c \<noteq> CHR '','') (drop (length s - 3) s)"
      using "1.IH" [OF False t] False by (simp add: group_thousands_step)
    also have "\<dots> = s" using d by (simp add: filter_neq_absent)
    finally show ?thesis .
  qed
qed

lemma set_group_thousands: "set (group_thousands s) \<subseteq> insert (CHR '','') (set s)"
proof (induction s rule: group_thousands.induct)
  case (1 s)
  show ?case
  proof (cases "length s \<le> 3")
    case True
    then show ?thesis by (simp add: group_thousands.simps [of s] subset_insertI)
  next
    case False
    have "set (take (length s - 3) s) \<subseteq> set s" "set (drop (length s - 3) s) \<subseteq> set s"
      by (rule set_take_subset, rule set_drop_subset)
    with "1.IH" [OF False] False show ?thesis by (auto simp: group_thousands_step)
  qed
qed

lemma group_thousands_not_Nil [simp]: "s \<noteq> [] \<Longrightarrow> group_thousands s \<noteq> []"
  by (simp add: group_thousands.simps [of s])


lemma round_half_even_bound: "\<bar>of_int (round_half_even r) - r\<bar> \<le> 1 / 2"
  using floor_correct [of r] by (auto simp: round_half_even_def Let_def)

lemma round_half_even_nonneg: "0 \<le> r \<Longrightarrow> 0 \<le> round_half_even r"
  by (simp add: round_half_even_def Let_def)

lemma round_half_even_of_int [simp]: "round_half_even (of_int k) = k"
  by (simp add: round_half_even_def)

lemma digit_chars_no_sep:
  assumes "c \<in> set (group_thousands (py_str_nat q))"
  shows "c \<noteq> CHR ''.''" "c \<noteq> CHR ''-''"
proof -
  from assms set_group_thousands have "c = CHR '','' \<or> c \<in> set (py_str_nat q)" by blast
  then show "c \<noteq> CHR ''.''" "c \<noteq> CHR ''-''" by (auto dest: py_str_nat_digits)
qed

lemma read_two_digits:
  "f < 100 \<Longrightarrow> read_nat 0 [char_of (48 + f div 10), char_of (48 + f mod 10)] = Some f"
proof -
  assume "f < 100"
  then have "f div 10 < 10" by (simp add: div_less_iff_less_mult)
  then show ?thesis by simp
qed

lemma comma_not_digit: "CHR '','' \<notin> set (py_str_nat n)"
proof
  assume "CHR '','' \<in> set (py_str_nat n)"
  from py_str_nat_digits [OF this] show False by simp
qed


lemma real_div_mod_100: "real (c div 100) + real (c mod 100) / 100 = real c / 100"
proof -
  have "real c = real (c div 100) * 100 + real (c mod 100)"
    by (metis div_mult_mod_eq of_nat_add of_nat_mult of_nat_numeral)
  then show ?thesis by simp
qed

lemma parse_unsigned_fixed:
  "parse_unsigned (group_thousands (py_str_nat (c div 100)) @ ''.'' @
     [char_of (48 + c mod 100 div 10), char_of (48 + c mod 100 mod 10)]) = Some (of_nat c / 100)"
proof -
  let ?G = "group_thousands (py_str_nat (c div 100))"
  let ?ds = "[char_of (48 + c mod 100 div 10), char_of (48 + c mod 100 mod 10)]"
  have tw: "takeWhile (\<lambda>x. x \<noteq> CHR ''.'') (?G @ ''.'' @ ?ds) = ?G"
    by (simp add: takeWhile_append2 digit_chars_no_sep)
  have dr: "drop (Suc (length ?G)) (?G @ ''.'' @ ?ds) = ?ds" by simp
  have ip: "read_nat 0 (filter (\<lambda>x. x \<noteq> CHR '','') ?G) = Some (c div 100)"
    by (simp add: group_thousands_filter [OF comma_not_digit])
  have fp: "read_nat 0 ?ds = Some (c mod 100)" by (rule read_two_digits) simp
  have ne: "?G \<noteq> []" by simp
  show ?thesis
    unfolding parse_unsigned_def Let_def tw dr using ip fp ne by (simp add: real_div_mod_100)
qed


lemma parse_cost_suffix:
  "parse_cost (s @ '' SAR'') =
     (if s \<noteq> [] \<and> hd s = CHR ''-'' then map_option uminus (parse_unsigned (tl s)) else parse_unsigned s)"
  by (simp add: parse_cost_def)

lemma parse_fixed2: "parse_cost (fixed2 True a @ '' SAR'') = Some (cents a)"
proof -
  define r where "r = round_half_even (\<bar>a\<bar> * 100)"
  define c where "c = nat r"
  let ?U = "group_thousands (py_str_nat (c div 100)) @ ''.'' @
     [char_of (48 + c mod 100 div 10), char_of (48 + c mod 100 mod 10)]"
  have r0: "0 \<le> r" by (simp add: r_def round_half_even_nonneg)
  then have cr: "real c = of_int r" by (simp add: c_def)
  have f: "fixed2 True a = (if a < 0 then ''-'' else []) @ ?U"
    by (simp add: fixed2_def Let_def r_def c_def)
  have pu: "parse_unsigned ?U = Some (real c / 100)"
    by (rule parse_unsigned_fixed)
  have ca: "cents a = (if a < 0 then - 1 else 1) * of_int r / 100"
    by (simp add: cents_def r_def)
  show ?thesis
  proof (cases "a < 0")
    case True
    with f pu show ?thesis by (simp only: f ca parse_cost_suffix) (simp add: cr)
  next
    case False
    have "group_thousands (py_str_nat (c div 100)) \<noteq> []" by simp
    then have "hd ?U \<in> set (group_thousands (py_str_nat (c div 100)))" by simp
    then have "hd ?U \<noteq> CHR ''-''" by (rule digit_chars_no_sep)
    with False f pu show ?thesis by (simp only: f ca parse_cost_suffix) (simp add: cr)
  qed
qed

lemma cents_error: "\<bar>cents a - a\<bar> \<le> 1 / 200"
proof -
  have b: "\<bar>of_int (round_half_even (\<bar>a\<bar> * 100)) - \<bar>a\<bar> * 100\<bar> \<le> 1 / 2"
    by (rule round_half_even_bound)
  show ?thesis
  proof (cases "a < 0")
    case True
    with b show ?thesis by (simp add: cents_def abs_if split: if_splits; linarith)
  next
    case False
    with b show ?thesis by (simp add: cents_def abs_if split: if_splits; linarith)
  qed
qed

lemma cents_of_cents: "cents (of_int k / 100) = of_int k / 100"
proof -
  have "\<bar>of_int k / 100\<bar> * 100 = (of_int \<bar>k\<bar> :: real)" by simp
  then show ?thesis by (simp add: cents_def abs_if)
qed

text \<open>C38: \<open>format_cost\<close> prints a finite value so that it reads back as
  the value rounded to hundredths, at most half a hundredth away; a value
  with two decimals reads back exactly.\<close>

theorem format_cost_roundtrip:
  "parse_cost (format_cost (Num a)) = Some (cents a) \<and> \<bar>cents a - a\<bar> \<le> 1 / 200 \<and>
   parse_cost (format_cost (Num (of_int k / 100))) = Some (of_int k / 100)"
  using parse_fixed2 [of a] parse_fixed2 [of "of_int k / 100"] cents_error [of a] cents_of_cents [of k]
  by (simp add: format_cost_def py_format_2f_def)

end
