(* ===== verification/ReportText.thy ===== *)
theory ReportText
  imports Format
begin

text \<open>
  The text of the solution report: the list \<open>report\<close> that
  \<open>create_solution_report\<close> (\<open>src/main.py\<close>, lines 18--79) builds line by
  line and joins with newlines. Every line is written from the values of
  the report record of theory \<open>Report\<close>, with the formatting of theory
  \<open>Format\<close>. The execution time is a parameter: it is measured, not
  computed. The capacities of the dictionaries are Python ints
  (\<open>src/data/sample_data.py\<close>), held as integral reals, and print as
  \<open>str()\<close> of that int.
\<close>

section \<open>Text helpers\<close>

text \<open>\<open>sep.join(lines)\<close>.\<close>

fun py_join :: "string \<Rightarrow> string list \<Rightarrow> string" where
  "py_join sep [] = []"
| "py_join sep [l] = l"
| "py_join sep (l # ls) = l @ sep @ py_join sep ls"

text \<open>\<open>str.upper()\<close> on ASCII text.\<close>

definition py_upper :: "string \<Rightarrow> string" where
  "py_upper s = map (\<lambda>c. if 97 \<le> (of_char c :: nat) \<and> (of_char c :: nat) \<le> 122
                         then char_of (of_char c - (32 :: nat)) else c) s"

text \<open>\<open>"="*80\<close> and \<open>"-"*80\<close>.\<close>

definition rule_eq :: string where
  "rule_eq = replicate 80 CHR ''=''"

definition rule_dash :: string where
  "rule_dash = replicate 80 CHR ''-''"

section \<open>The lines\<close>

text \<open>Lines 49--52: \<open>f"{port:<20} {hotel:<20} {pilgrims:<10} ..."\<close>.\<close>

definition alloc_text :: "alloc_line \<Rightarrow> string" where
  "alloc_text l =
     ljust 20 (line_port l) @ '' '' @ ljust 20 (line_hotel l) @ '' '' @
     ljust 10 (py_str_int (line_pilgrims l)) @ '' '' @
     ljust 15 (format_cost (Num (line_cost l))) @ '' '' @ format_cost (Num (line_total l))"

text \<open>Lines 69 and 77:
  \<open>f"{name:<20} {used:>5}/{capacity:<5} ({utilization:>6.2f}%)"\<close>.\<close>

definition usage_text :: "usage_line \<Rightarrow> string" where
  "usage_text u =
     ljust 20 (usage_name u) @ '' '' @ rjust 5 (py_str_int (usage_used u)) @ ''/'' @
     ljust 5 (py_str_int (py_int (usage_capacity u))) @ '' ('' @
     rjust 6 (py_format_2f False (Num (usage_percent u))) @ ''%)''"

text \<open>Lines 23--77: the list \<open>report\<close>, in the order the code appends to it.\<close>

definition report_lines :: "string \<Rightarrow> real \<Rightarrow> report \<Rightarrow> string list" where
  "report_lines e t r =
     [''\<newline>'' @ rule_eq,
      ''HAJJ OPTIMIZATION REPORT - '' @ py_upper e @ '' EXAMPLE'',
      rule_eq,
      ''\<newline>SUMMARY:'',
      ''Total Cost: '' @ format_cost (xfloat (rep_total_cost r)),
      ''Execution Time: '' @ py_format_2f False (Num t) @ '' seconds'',
      ''Number of Ports: '' @ py_str_nat (rep_ports r),
      ''Number of Hotels: '' @ py_str_nat (rep_hotels r),
      ''\<newline>DETAILED ALLOCATION:'',
      rule_dash,
      ljust 20 ''From Port'' @ '' '' @ ljust 20 ''To Hotel'' @ '' '' @ ljust 10 ''Pilgrims'' @ '' '' @
        ljust 15 ''Cost/Pilgrim'' @ '' '' @ ''Total Cost'',
      rule_dash] @
     map alloc_text (rep_lines r) @
     [rule_dash,
      ''Total Pilgrims: '' @ py_str_int (rep_total_pilgrims r),
      ''Average Cost per Pilgrim: '' @ format_cost (rep_average r),
      ''\<newline>CAPACITY UTILIZATION:'',
      rule_dash,
      ''PORTS:''] @
     map usage_text (rep_port_usage r) @
     [''\<newline>HOTELS:''] @
     map usage_text (rep_hotel_usage r)"

text \<open>Lines 18--79: the report as the string the method returns.\<close>

definition create_solution_report_text ::
  "hajj_data \<Rightarrow> vec option \<Rightarrow> xreal \<Rightarrow> string \<Rightarrow> real \<Rightarrow> py_error + string" where
  "create_solution_report_text d pt v e t =
     sbind (create_solution_report d pt v) (\<lambda>r. Inr (py_join ''\<newline>'' (report_lines e t r)))"

end
