(* ===== verification/Pyplot.thy ===== *)
theory Pyplot
  imports Report
begin

text \<open>
  The drawing calls the program makes, as data. A figure is the sequence of
  \<open>matplotlib.pyplot\<close> calls the code issues, in order, each with the
  arguments it computes; what matplotlib renders from them is not
  modelled. Also here: the two pieces of \<open>numpy\<close> semantics the plotting
  code depends on, element-wise division of \<open>float64\<close> values (an infinity
  or \<open>nan\<close> instead of an exception) and the broadcasting comparison of two
  one-dimensional arrays, and \<open>np.linspace\<close>.
\<close>

section \<open>Drawing calls\<close>

text \<open>A keyword argument's value.\<close>

datatype kwarg = KNum real | KStr string | KFloat pyfloat

text \<open>One call of \<open>plt\<close>, with its positional arguments and its keyword
  arguments in the order written.\<close>

datatype plot_cmd =
    Figure "real \<times> real"
  | Title string
  | PlotXY "real list" "real list" string "(string \<times> kwarg) list"
  | AxVLine pyfloat "(string \<times> kwarg) list"
  | TextAt real real string "(string \<times> kwarg) list"
  | Bar "nat list" "real list" "(string \<times> kwarg) list"
  | XTicks "nat list" "string list" "(string \<times> kwarg) list"
  | XLabel string
  | YLabel string
  | GridOn
  | Legend
  | AxisOff
  | TightLayout
  | SaveFig string
  | CloseFig
  | ShowFig

section \<open>numpy semantics\<close>

text \<open>\<open>a / b\<close> on \<open>float64\<close>: division by zero gives a signed infinity, or
  \<open>nan\<close> for \<open>0 / 0\<close>, with a warning and no exception.\<close>

definition np_div :: "real \<Rightarrow> real \<Rightarrow> pyfloat" where
  "np_div a b =
     (if b \<noteq> 0 then Num (a / b) else if 0 < a then PosInf else if a < 0 then NegInf else NaN)"

text \<open>\<open>all(u <= v)\<close> for one-dimensional arrays: equal lengths compare
  element-wise; an array of length one is broadcast against the other;
  any other pair of shapes raises \<open>ValueError\<close>.\<close>

definition np_le_all :: "vec \<Rightarrow> vec \<Rightarrow> py_error + bool" where
  "np_le_all u v =
     (if length u = length v then Inr (list_all2 (\<le>) u v)
      else if length u = 1 then Inr (list_all (\<lambda>y. u ! 0 \<le> y) v)
      else if length v = 1 then Inr (list_all (\<lambda>x. x \<le> v ! 0) u)
      else Inl ValueError)"

text \<open>\<open>np.dot(A, p)\<close> for a matrix and a vector: the number of columns must
  be the length of the vector, or numpy raises \<open>ValueError\<close>. The rows of a
  numpy matrix all have the same length; for a matrix without rows the
  check passes.\<close>

definition np_mat_vec :: "mat \<Rightarrow> vec \<Rightarrow> py_error + vec" where
  "np_mat_vec A p =
     (if list_all (\<lambda>r. length r = length p) A then Inr (mat_vec A p) else Inl ValueError)"

text \<open>\<open>np.linspace(a, b, n)\<close>: \<open>n\<close> points, \<open>a + k * (b - a) / (n - 1)\<close>.\<close>

definition linspace :: "real \<Rightarrow> real \<Rightarrow> nat \<Rightarrow> vec" where
  "linspace a b n = map (\<lambda>k. a + of_nat k * ((b - a) / of_nat (n - 1))) [0..<n]"

section \<open>Loops that may raise\<close>

text \<open>A loop that computes one value per element, stopping at the first
  exception.\<close>

fun smap :: "('a \<Rightarrow> py_error + 'b) \<Rightarrow> 'a list \<Rightarrow> py_error + 'b list" where
  "smap f [] = Inr []"
| "smap f (x # xs) = sbind (f x) (\<lambda>y. sbind (smap f xs) (\<lambda>ys. Inr (y # ys)))"

text \<open>A loop that keeps the elements passing a test, stopping at the first
  exception the test raises.\<close>

fun sfilter :: "('a \<Rightarrow> py_error + bool) \<Rightarrow> 'a list \<Rightarrow> py_error + 'a list" where
  "sfilter f [] = Inr []"
| "sfilter f (x # xs) =
     sbind (f x) (\<lambda>t. sbind (sfilter f xs) (\<lambda>ys. Inr (if t then x # ys else ys)))"

section \<open>Lemmas\<close>

lemma smap_Inr: "(\<And>x. x \<in> set xs \<Longrightarrow> f x = Inr (g x)) \<Longrightarrow> smap f xs = Inr (map g xs)"
  by (induction xs) (simp_all add: sbind_def)

lemma sfilter_Inr: "(\<And>x. x \<in> set xs \<Longrightarrow> f x = Inr (P x)) \<Longrightarrow> sfilter f xs = Inr (filter P xs)"
  by (induction xs) (simp_all add: sbind_def)

lemma sfilter_first_Inl: "f x = Inl e \<Longrightarrow> sfilter f (x # xs) = Inl e"
  by (simp add: sbind_def)

lemma np_le_all_same_length [simp]:
  "length u = length v \<Longrightarrow> np_le_all u v = Inr (list_all2 (\<le>) u v)"
  by (simp add: np_le_all_def)

lemma np_mat_vec_ok [simp]:
  "list_all (\<lambda>r. length r = length p) A \<Longrightarrow> np_mat_vec A p = Inr (mat_vec A p)"
  by (simp add: np_mat_vec_def)

lemma length_linspace [simp]: "length (linspace a b n) = n"
  by (simp add: linspace_def)

lemma linspace_nth: "k < n \<Longrightarrow> linspace a b n ! k = a + of_nat k * ((b - a) / of_nat (n - 1))"
  by (simp add: linspace_def)

lemma linspace_last: "1 < n \<Longrightarrow> linspace a b n ! (n - 1) = b"
  by (simp add: linspace_nth)

end
