(* ===== verification/Plot2D.thy ===== *)
theory Plot2D
  imports Pyplot
begin

text \<open>
  \<open>Optimizer.plot_2d_problem\<close> (\<open>src/optimizer.py\<close>, lines 119--154): the
  picture of a two-variable system. It draws one line per constraint
  (vertical when the second coefficient is below the tolerance \<open>1e-10\<close>),
  a dot at every point of a 1000 by 1000 grid over \<open>[-10, 100]\<close> squared
  where \<open>all(np.dot(A, point) <= b)\<close> holds, and a star at the solution if
  one is given, then shows the figure. The model is the list of drawing
  calls, or the exception the code raises on the way: \<open>IndexError\<close> when a
  constraint has no second coefficient or there are more right-hand sides
  than rows, \<open>ValueError\<close> when numpy cannot multiply the matrix with a
  point of the plane or compare the result with \<open>b\<close>, \<open>IndexError\<close> when
  the solution has fewer than two coordinates. The cost vector is an
  argument the function never reads.
\<close>

section \<open>The grid\<close>

text \<open>Lines 127--128: \<open>np.linspace(-10, 100, 1000)\<close> for both axes.\<close>

definition plot_axis :: vec where
  "plot_axis = linspace (- 10) 100 1000"

text \<open>Lines 129 and 140--142: \<open>X, Y = np.meshgrid(x, y)\<close> puts \<open>x[j]\<close> at
  \<open>X[i, j]\<close> and \<open>y[i]\<close> at \<open>Y[i, j]\<close>; the loops visit the points row by
  row.\<close>

definition plot_points :: "vec \<Rightarrow> vec \<Rightarrow> vec list" where
  "plot_points xs ys = concat (map (\<lambda>y. map (\<lambda>x. [x, y]) xs) ys)"

section \<open>The drawing\<close>

text \<open>Lines 133--137 for constraint \<open>i\<close>: \<open>A[i, 1]\<close> is read first.\<close>

definition constraint_line :: "vec \<Rightarrow> mat \<Rightarrow> vec \<Rightarrow> nat \<Rightarrow> py_error + plot_cmd" where
  "constraint_line xs A b i =
     (if i < length A \<and> 2 \<le> length (A ! i) then
        (let a0 = A ! i ! 0; a1 = A ! i ! 1 in
         if \<bar>a1\<bar> < tol
         then Inr (AxVLine (np_div (b ! i) a0) [(''color'', KStr ''r''), (''alpha'', KNum (3 / 10))])
         else Inr (PlotXY xs (map (\<lambda>x. (b ! i - a0 * x) / a1) xs) ''r''
                     [(''alpha'', KNum (3 / 10))]))
      else Inl IndexError)"

text \<open>Line 143: the test of one grid point.\<close>

definition point_test :: "mat \<Rightarrow> vec \<Rightarrow> vec \<Rightarrow> py_error + bool" where
  "point_test A b p = sbind (np_mat_vec A p) (\<lambda>v. np_le_all v b)"

text \<open>Line 144: the dot drawn at a point.\<close>

definition dot_cmd :: "vec \<Rightarrow> plot_cmd" where
  "dot_cmd p = PlotXY [p ! 0] [p ! 1] ''b.'' [(''alpha'', KNum (1 / 10))]"

text \<open>Lines 146--147.\<close>

definition star_cmds :: "vec option \<Rightarrow> py_error + plot_cmd list" where
  "star_cmds sol =
     (case sol of
        None \<Rightarrow> Inr []
      | Some s \<Rightarrow> if 2 \<le> length s
                  then Inr [PlotXY [s ! 0] [s ! 1] ''g*''
                             [(''markersize'', KNum 15), (''label'', KStr ''Optimal Solution'')]]
                  else Inl IndexError)"

text \<open>Lines 149--154.\<close>

definition plot_tail :: "plot_cmd list" where
  "plot_tail = [GridOn, Legend, XLabel ''x1'', YLabel ''x2'',
                Title ''Feasible Region and Optimal Solution'', ShowFig]"

text \<open>Lines 119--154.\<close>

definition plot_2d_problem :: "mat \<Rightarrow> vec \<Rightarrow> vec \<Rightarrow> vec option \<Rightarrow> py_error + plot_cmd list" where
  "plot_2d_problem A b c sol =
     sbind (smap (constraint_line plot_axis A b) [0..<length b]) (\<lambda>ls.
     sbind (sfilter (point_test A b) (plot_points plot_axis plot_axis)) (\<lambda>ps.
     sbind (star_cmds sol) (\<lambda>st.
       Inr ([Figure (10, 8)] @ ls @ map dot_cmd ps @ st @ plot_tail))))"

section \<open>Properties\<close>

lemma plot_points_length: "p \<in> set (plot_points xs ys) \<Longrightarrow> length p = 2"
  by (auto simp: plot_points_def)

lemma set_plot_points: "set (plot_points xs ys) = {[x, y] | x y. x \<in> set xs \<and> y \<in> set ys}"
  by (auto simp: plot_points_def)

lemma plot_axis_not_Nil: "plot_axis \<noteq> []"
  by (simp add: plot_axis_def linspace_def)

lemma plot_points_Cons: "\<exists>p ps. plot_points plot_axis plot_axis = p # ps \<and> length p = 2"
proof -
  have "plot_points plot_axis plot_axis \<noteq> []"
    using plot_axis_not_Nil by (simp add: plot_points_def)
  then obtain p ps where pp: "plot_points plot_axis plot_axis = p # ps" by (meson neq_Nil_conv)
  then have "length p = 2" by (intro plot_points_length [of _ plot_axis plot_axis]) simp
  with pp show ?thesis by blast
qed

lemma constraint_line_Inr:
  assumes "i < length A" "2 \<le> length (A ! i)"
  shows "constraint_line xs A b i = Inr (projr (constraint_line xs A b i))"
  unfolding constraint_line_def using assms by (simp only: if_True conj_absorb simp_thms) (simp add: Let_def)

lemma constraint_lines_Inr:
  assumes "list_all (\<lambda>r. 2 \<le> length r) A" "length b = length A"
  shows "\<exists>ls. smap (constraint_line xs A b) [0..<length b] = Inr ls \<and> length ls = length b"
proof -
  have "constraint_line xs A b i = Inr (projr (constraint_line xs A b i))"
    if "i \<in> set [0..<length b]" for i
  proof (rule constraint_line_Inr)
    show "i < length A" using that assms(2) by simp
    then show "2 \<le> length (A ! i)" using assms(1) by (simp add: list_all_length)
  qed
  then have "smap (constraint_line xs A b) [0..<length b] =
      Inr (map (\<lambda>i. projr (constraint_line xs A b i)) [0..<length b])"
    by (rule smap_Inr)
  then show ?thesis by simp
qed

lemma point_test_2:
  assumes "list_all (\<lambda>r. length r = 2) A" "length b = length A" "length p = 2"
  shows "point_test A b p = Inr (\<forall>i<length A. dot (A ! i) p \<le> b ! i)"
proof -
  have "list_all (\<lambda>r. length r = length p) A" using assms(1,3) by simp
  with assms(2) show ?thesis
    by (simp add: point_test_def sbind_def mat_vec_def list_all2_conv_all_nth)
qed

lemma point_test_ValueError:
  assumes "A \<noteq> []" "list_all (\<lambda>r. length r = n) A" "n \<noteq> length p"
  shows "point_test A b p = Inl ValueError"
proof -
  from assms obtain r rs where "A = r # rs" "length r = n" by (cases A) auto
  with assms(3) show ?thesis by (simp add: point_test_def np_mat_vec_def sbind_def)
qed

lemma star_cmds_ok: "pred_option (\<lambda>s. 2 \<le> length s) sol \<Longrightarrow> \<exists>st. star_cmds sol = Inr st"
  by (cases sol) (auto simp: star_cmds_def)

text \<open>C39: on a system of two-variable constraints with one right-hand side
  per row, \<open>plot_2d_problem\<close> raises nothing (given a solution with two
  coordinates, or none): it opens the figure, draws one line per
  constraint, then a dot exactly at the grid points, row by row, that
  satisfy every constraint with no tolerance, then the star and the
  closing calls.\<close>

theorem plot_2d_problem_dots:
  assumes "list_all (\<lambda>r. length r = 2) A" "length b = length A"
    "pred_option (\<lambda>s. 2 \<le> length s) sol"
  shows "\<exists>ls st. plot_2d_problem A b c sol =
      Inr ([Figure (10, 8)] @ ls @
           map dot_cmd (filter (\<lambda>p. \<forall>i<length A. dot (A ! i) p \<le> b ! i)
                          (plot_points plot_axis plot_axis)) @ st @ plot_tail)
      \<and> length ls = length b"
proof -
  have "list_all (\<lambda>r. 2 \<le> length r) A" using assms(1) by (simp add: list_all_iff)
  then obtain ls where ls: "smap (constraint_line plot_axis A b) [0..<length b] = Inr ls"
      "length ls = length b"
    using constraint_lines_Inr assms(2) by blast
  have "sfilter (point_test A b) (plot_points plot_axis plot_axis) =
      Inr (filter (\<lambda>p. \<forall>i<length A. dot (A ! i) p \<le> b ! i) (plot_points plot_axis plot_axis))"
    by (rule sfilter_Inr) (simp add: point_test_2 assms(1,2) plot_points_length)
  moreover obtain st where "star_cmds sol = Inr st" using star_cmds_ok assms(3) by blast
  ultimately have "plot_2d_problem A b c sol =
      Inr ([Figure (10, 8)] @ ls @
           map dot_cmd (filter (\<lambda>p. \<forall>i<length A. dot (A ! i) p \<le> b ! i)
                          (plot_points plot_axis plot_axis)) @ st @ plot_tail)"
    using ls by (simp add: plot_2d_problem_def sbind_def)
  with ls(2) show ?thesis by blast
qed

lemma plot_2d_problem_ValueError:
  assumes "A \<noteq> []" "list_all (\<lambda>r. length r = n) A" "2 < n" "length b = length A"
  shows "plot_2d_problem A b c sol = Inl ValueError"
proof -
  have "list_all (\<lambda>r. 2 \<le> length r) A" using assms(2,3) by (simp add: list_all_iff)
  then obtain ls where ls: "smap (constraint_line plot_axis A b) [0..<length b] = Inr ls"
    using constraint_lines_Inr assms(4) by blast
  obtain p ps where p: "plot_points plot_axis plot_axis = p # ps" "length p = 2"
    using plot_points_Cons by blast
  have "n \<noteq> length p" using assms(3) p(2) by simp
  with assms(1,2) have "point_test A b p = Inl ValueError" by (rule point_test_ValueError)
  then have "sfilter (point_test A b) (plot_points plot_axis plot_axis) = Inl ValueError"
    by (simp add: p(1) sfilter_first_Inl)
  with ls show ?thesis by (simp add: plot_2d_problem_def sbind_def)
qed


lemma samples_size: "4 \<le> length (ports (select_example e)) * length (hotels (select_example e))"
  by (simp add: select_example_def small_example_def medium_example_def large_example_def)

lemma problem_matrices_plot_shape:
  assumes "problem_matrices d = Inr (A, b, c)" "0 < length (ports d) * length (hotels d)"
  shows "A \<noteq> [] \<and> list_all (\<lambda>r. length r = length (ports d) * length (hotels d)) A \<and>
         length b = length A"
  using assms by (elim problem_matrices_InrE) (auto simp: list_all_iff)

text \<open>C40: \<open>plot_2d_problem\<close> cannot draw any problem the program builds:
  every sample instance has at least four variables, so after drawing the
  constraint lines \<open>np.dot(A, point)\<close> raises \<open>ValueError\<close> at the first
  grid point.\<close>

theorem plot_2d_problem_samples:
  assumes "get_problem_matrices e = Inr (A, b, c)"
  shows "plot_2d_problem A b c sol = Inl ValueError"
proof -
  let ?n = "length (ports (select_example e)) * length (hotels (select_example e))"
  have n: "2 < ?n" using samples_size [of e] by simp
  have "problem_matrices (select_example e) = Inr (A, b, c)"
    using assms by (simp add: get_problem_matrices_def)
  moreover have "0 < ?n" using n by linarith
  ultimately have "A \<noteq> [] \<and> list_all (\<lambda>r. length r = ?n) A \<and> length b = length A"
    by (rule problem_matrices_plot_shape)
  with n show ?thesis by (intro plot_2d_problem_ValueError) simp_all
qed

end
