(* ===== verification/Visualisation.thy ===== *)
theory Visualisation
  imports Driver ReportText Pyplot
begin

text \<open>
  \<open>create_visualizations\<close> (\<open>src/main.py\<close>, lines 113--185) as the drawing
  calls it makes. The flow diagram (lines 121--153) places the ports at
  \<open>(0, i)\<close> and the hotels at \<open>(1, j)\<close> through two dictionaries, marks and
  labels them, draws one green line per route of theory \<open>Charts\<close>'s
  \<open>flow_diagram\<close> between the positions of its port and hotel, and saves the
  figure; the capacity chart (lines 156--185) draws the capacities and the
  uses of \<open>bar_used\<close> as two bar series over the port and hotel names and
  saves it. A figure is recorded once it is saved: the result is the list
  of saved figures, each the list of its calls, and the exception that
  stopped the method, if any. \<open>plt.savefig\<close> into a missing \<open>results\<close>
  directory raises \<open>FileNotFoundError\<close>, as in theory \<open>Driver\<close>.
\<close>

section \<open>Python dictionaries\<close>

text \<open>\<open>d[k] = v\<close> on a dictionary kept in insertion order: a present key
  keeps its place and takes the new value.\<close>

fun dict_set :: "('k \<times> 'v) list \<Rightarrow> 'k \<Rightarrow> 'v \<Rightarrow> ('k \<times> 'v) list" where
  "dict_set [] k v = [(k, v)]"
| "dict_set ((k', v') # kvs) k v = (if k' = k then (k, v) # kvs else (k', v') # dict_set kvs k v)"

text \<open>A dictionary comprehension \<open>{k: v for ...}\<close>.\<close>

definition py_dict :: "('k \<times> 'v) list \<Rightarrow> ('k \<times> 'v) list" where
  "py_dict kvs = fold (\<lambda>(k, v) d. dict_set d k v) kvs []"

section \<open>Flow diagram\<close>

text \<open>Lines 125--126: \<open>{port: (x, i) for i, port in enumerate(names)}\<close>.\<close>

definition positions :: "real \<Rightarrow> string list \<Rightarrow> (string \<times> (real \<times> real)) list" where
  "positions x names = py_dict (map (\<lambda>(i, n). (n, (x, of_nat i))) (enumerate 0 names))"

text \<open>Lines 129--135: the marker and the label of one location; the first
  location of the list gets the legend label.\<close>

definition point_cmds ::
  "string \<Rightarrow> real \<Rightarrow> string \<Rightarrow> string \<Rightarrow> string \<Rightarrow> string \<times> (real \<times> real) \<Rightarrow> plot_cmd list" where
  "point_cmds mk dx ha lbl first p =
     (let (n, (x, y)) = p in
      [PlotXY [x] [y] mk [(''markersize'', KNum 10), (''label'', KStr (if n = first then lbl else ''''))],
       TextAt (x + dx) y n [(''horizontalalignment'', KStr ha)]])"

text \<open>Lines 145--146: the transparency and width of a route's line.\<close>

definition flow_kwargs :: "flow \<Rightarrow> (string \<times> kwarg) list" where
  "flow_kwargs f = [(''alpha'', KNum (flow_alpha f)), (''linewidth'', KNum (flow_width f))]"

text \<open>Lines 143--146: the line of one route, from the positions of its
  port and hotel.\<close>

definition flow_line ::
  "(string \<times> (real \<times> real)) list \<Rightarrow> (string \<times> (real \<times> real)) list \<Rightarrow> flow \<Rightarrow> py_error + plot_cmd" where
  "flow_line pp hp f =
     (case (map_of pp (flow_port f), map_of hp (flow_hotel f)) of
        (Some (x1, y1), Some (x2, y2)) \<Rightarrow>
          Inr (PlotXY [x1, x2] [y1, y2] ''g-'' (flow_kwargs f))
      | _ \<Rightarrow> Inl KeyError)"

text \<open>Lines 117--153.\<close>

definition flow_figure :: "string \<Rightarrow> hajj_data \<Rightarrow> vec option \<Rightarrow> py_error + plot_cmd list" where
  "flow_figure e d pt =
     (let ps = map fst (ports d); hs = map fst (hotels d);
          pp = positions 0 ps; hp = positions 1 hs
      in sbind (flow_diagram d pt) (\<lambda>fs. sbind (smap (flow_line pp hp) fs) (\<lambda>ls.
           Inr ([Figure (12, 8), Title (''Pilgrim Flow Diagram - '' @ py_upper e @ '' Example'')] @
                concat (map (point_cmds ''bo'' (- 1 / 10) ''right'' ''Ports'' (hd ps)) pp) @
                concat (map (point_cmds ''rs'' (1 / 10) ''left'' ''Hotels'' (hd hs)) hp) @
                ls @ [Legend, GridOn, AxisOff, SaveFig (flow_file e), CloseFig]))))"

section \<open>Capacity chart\<close>

text \<open>Lines 156--185.\<close>

definition capacity_figure :: "string \<Rightarrow> hajj_data \<Rightarrow> vec option \<Rightarrow> py_error + plot_cmd list" where
  "capacity_figure e d pt =
     sbind (bar_used d pt) (\<lambda>us.
       (let locs = map fst (ports d) @ map fst (hotels d); x = [0..<length locs]
        in Inr [Figure (12, 6), Title (''Capacity Utilization - '' @ py_upper e @ '' Example''),
                Bar x (bar_capacities d) [(''alpha'', KNum (3 / 10)), (''label'', KStr ''Capacity'')],
                Bar x (map of_int us) [(''alpha'', KNum (7 / 10)), (''label'', KStr ''Used'')],
                XTicks x locs [(''rotation'', KNum 45), (''ha'', KStr ''right'')],
                YLabel ''Number of Pilgrims'', Legend, TightLayout, SaveFig (capacity_file e), CloseFig]))"

section \<open>The method\<close>

text \<open>Lines 113--185: the saved figures and the exception, if any.
  \<open>dir\<close> says whether the \<open>results\<close> directory exists.\<close>

definition create_visualizations ::
  "bool \<Rightarrow> string \<Rightarrow> hajj_data \<Rightarrow> vec option \<Rightarrow> plot_cmd list list \<times> py_error option" where
  "create_visualizations dir e d pt =
     (case flow_figure e d pt of
        Inl err \<Rightarrow> ([], Some err)
      | Inr f1 \<Rightarrow>
          if \<not> dir then ([], Some FileNotFoundError)
          else (case capacity_figure e d pt of
                  Inl err \<Rightarrow> ([f1], Some err)
                | Inr f2 \<Rightarrow> ([f1, f2], None)))"

section \<open>What a saved figure shows\<close>

text \<open>The file a figure is saved to, the green lines' keyword arguments,
  the bar heights, and how a saved figure matches the content the driver
  records for its file.\<close>

fun saved_file :: "plot_cmd list \<Rightarrow> string option" where
  "saved_file [] = None"
| "saved_file (SaveFig n # cs) = Some n"
| "saved_file (c # cs) = saved_file cs"

fun line_kwargs :: "plot_cmd list \<Rightarrow> (string \<times> kwarg) list list" where
  "line_kwargs [] = []"
| "line_kwargs (PlotXY xs ys fmt kw # cs) =
     (if fmt = ''g-'' then kw # line_kwargs cs else line_kwargs cs)"
| "line_kwargs (c # cs) = line_kwargs cs"

fun bar_heights :: "plot_cmd list \<Rightarrow> real list list" where
  "bar_heights [] = []"
| "bar_heights (Bar x hs kw # cs) = hs # bar_heights cs"
| "bar_heights (c # cs) = bar_heights cs"

primrec shows_content :: "plot_cmd list \<Rightarrow> file_content \<Rightarrow> bool" where
  "shows_content fig (FlowChart fs) \<longleftrightarrow> line_kwargs fig = map flow_kwargs fs"
| "shows_content fig (CapacityChart caps us) \<longleftrightarrow> bar_heights fig = [caps, map of_int us]"
| "shows_content fig (ReportFile r) \<longleftrightarrow> False"

primrec is_chart :: "file_content \<Rightarrow> bool" where
  "is_chart (FlowChart fs) = True"
| "is_chart (CapacityChart caps us) = True"
| "is_chart (ReportFile r) = False"

section \<open>Properties\<close>

lemma keys_dict_set: "fst ` set (dict_set d k v) = insert k (fst ` set d)"
  by (induction d k v rule: dict_set.induct) auto

lemma keys_py_dict_fold:
  "fst ` set (fold (\<lambda>(k, v) d. dict_set d k v) kvs d) = fst ` set d \<union> fst ` set kvs"
proof (induction kvs arbitrary: d)
  case (Cons kv kvs)
  then show ?case by (cases kv) (auto simp: keys_dict_set)
qed simp

lemma keys_positions: "fst ` set (positions x names) = set names"
proof -
  have "map fst (map (\<lambda>(i, n). (n, (x, of_nat i :: real))) (enumerate 0 names)) = names"
    by (simp add: enumerate_eq_zip comp_def case_prod_beta)
  then have "fst ` set (map (\<lambda>(i, n). (n, (x, of_nat i :: real))) (enumerate 0 names)) = set names"
    by (metis set_map)
  then show ?thesis by (simp add: positions_def py_dict_def keys_py_dict_fold)
qed

lemma map_of_positions: "n \<in> set names \<Longrightarrow> \<exists>p. map_of (positions x names) n = Some p"
  using keys_positions [of x names] by (metis map_of_eq_None_iff not_None_eq)

lemma flow_hotels_names:
  "flow_hotels supplies pt p hs idx = Inr (fs, r) \<Longrightarrow> f \<in> set fs \<Longrightarrow>
   flow_port f = p \<and> flow_hotel f \<in> set hs"
proof (induction hs arbitrary: idx fs)
  case (Cons h hs)
  from Cons.prems(1) obtain v where pv: "point_at pt idx = Inr v" by (auto simp: sbind_eq_Inr)
  show ?case
  proof (cases "0 < py_int v")
    case True
    with Cons.prems(1) pv obtain fl fs' where t: "flow_hotels supplies pt p hs (Suc idx) = Inr (fs', r)"
      and fs: "fs = fl # fs'" and fl: "flow_port fl = p" "flow_hotel fl = h"
      by (auto simp: sbind_eq_Inr split: prod.splits)
    show ?thesis
    proof (cases "f = fl")
      case True
      with fl show ?thesis by simp
    next
      case False
      with fs Cons.prems(2) have "f \<in> set fs'" by simp
      from Cons.IH [OF t this] show ?thesis by simp
    qed
  next
    case False
    with Cons.prems(1) pv have t: "flow_hotels supplies pt p hs (Suc idx) = Inr (fs, r)"
      by (simp add: sbind_def)
    from Cons.IH [OF t Cons.prems(2)] show ?thesis by simp
  qed
qed simp

lemma flow_ports_names:
  "flow_ports supplies pt ps hs idx = Inr (fs, r) \<Longrightarrow> f \<in> set fs \<Longrightarrow>
   flow_port f \<in> set ps \<and> flow_hotel f \<in> set hs"
proof (induction ps arbitrary: idx fs)
  case (Cons p ps)
  from Cons.prems(1) obtain a b aa where h: "flow_hotels supplies pt p hs idx = Inr (a, b)"
    and t: "flow_ports supplies pt ps hs b = Inr (aa, r)" and fs: "fs = a @ aa"
    by (auto simp: sbind_eq_Inr split: prod.splits)
  show ?case
  proof (cases "f \<in> set a")
    case True
    from flow_hotels_names [OF h True] show ?thesis by simp
  next
    case False
    with Cons.prems(2) fs have "f \<in> set aa" by simp
    from Cons.IH [OF t this] show ?thesis by simp
  qed
qed simp

lemma flow_diagram_names:
  "flow_diagram d pt = Inr fs \<Longrightarrow> f \<in> set fs \<Longrightarrow>
   flow_port f \<in> set (map fst (ports d)) \<and> flow_hotel f \<in> set (map fst (hotels d))"
  by (auto simp: flow_diagram_def sbind_eq_Inr dest: flow_ports_names split: prod.splits)

lemma line_kwargs_append [simp]: "line_kwargs (xs @ ys) = line_kwargs xs @ line_kwargs ys"
  by (induction xs rule: line_kwargs.induct) simp_all

lemma bar_heights_append [simp]: "bar_heights (xs @ ys) = bar_heights xs @ bar_heights ys"
  by (induction xs rule: bar_heights.induct) simp_all

lemma saved_file_append [simp]:
  "saved_file (xs @ ys) = (case saved_file xs of None \<Rightarrow> saved_file ys | Some n \<Rightarrow> Some n)"
  by (induction xs rule: saved_file.induct) simp_all

lemma point_cmds_draw [simp]:
  "mk \<noteq> ''g-'' \<Longrightarrow> line_kwargs (point_cmds mk dx ha lbl first p) = []"
  "saved_file (point_cmds mk dx ha lbl first p) = None"
  "bar_heights (point_cmds mk dx ha lbl first p) = []"
  by (simp_all add: point_cmds_def split: prod.splits)

lemma concat_point_cmds [simp]:
  "mk \<noteq> ''g-'' \<Longrightarrow> line_kwargs (concat (map (point_cmds mk dx ha lbl first) ps)) = []"
  "saved_file (concat (map (point_cmds mk dx ha lbl first) ps)) = None"
  "bar_heights (concat (map (point_cmds mk dx ha lbl first) ps)) = []"
  by (induction ps) simp_all

lemma smap_flow_line:
  assumes "\<forall>f\<in>set fs. flow_port f \<in> fst ` set pp \<and> flow_hotel f \<in> fst ` set hp"
  shows "\<exists>ls. smap (flow_line pp hp) fs = Inr ls \<and> line_kwargs ls = map flow_kwargs fs \<and>
    saved_file ls = None \<and> bar_heights ls = []"
  using assms
proof (induction fs)
  case (Cons f fs)
  then obtain x1 y1 x2 y2 where "map_of pp (flow_port f) = Some (x1, y1)"
      "map_of hp (flow_hotel f) = Some (x2, y2)"
    by (metis list.set_intros(1) map_of_eq_None_iff not_None_eq surj_pair)
  then have "flow_line pp hp f = Inr (PlotXY [x1, x2] [y1, y2] ''g-'' (flow_kwargs f))"
    by (simp add: flow_line_def)
  with Cons show ?case by (auto simp: sbind_def)
qed simp

lemma flow_figure_Inr:
  assumes "flow_diagram d pt = Inr fs"
  shows "\<exists>f1. flow_figure e d pt = Inr f1 \<and> saved_file f1 = Some (flow_file e) \<and>
    line_kwargs f1 = map flow_kwargs fs"
proof -
  let ?pp = "positions 0 (map fst (ports d))" and ?hp = "positions 1 (map fst (hotels d))"
  have "\<forall>f\<in>set fs. flow_port f \<in> fst ` set ?pp \<and> flow_hotel f \<in> fst ` set ?hp"
    using flow_diagram_names [OF assms] by (simp only: keys_positions) blast
  then obtain ls where "smap (flow_line ?pp ?hp) fs = Inr ls" "line_kwargs ls = map flow_kwargs fs"
      "saved_file ls = None"
    using smap_flow_line by blast
  with assms show ?thesis by (simp add: flow_figure_def Let_def sbind_def)
qed

lemma flow_figure_Inl: "flow_diagram d pt = Inl err \<Longrightarrow> flow_figure e d pt = Inl err"
  by (simp add: flow_figure_def Let_def sbind_def)

lemma capacity_figure_Inr:
  "bar_used d pt = Inr us \<Longrightarrow> \<exists>f2. capacity_figure e d pt = Inr f2 \<and>
     saved_file f2 = Some (capacity_file e) \<and> bar_heights f2 = [bar_capacities d, map of_int us]"
  by (simp add: capacity_figure_def sbind_def Let_def)

lemma capacity_figure_Inl: "bar_used d pt = Inl err \<Longrightarrow> capacity_figure e d pt = Inl err"
  by (simp add: capacity_figure_def sbind_def Let_def)


end
