(* ===== verification/Spec2Isabelle.thy ===== *)
theory Spec2Isabelle
  imports BranchBound HajjData Report Charts Driver ReportText Plot2D Visualisation
begin

text \<open>
  \<^bold>\<open>A verification model of the Hajj pilgrim transport optimizer.\<close>

  \<^bold>\<open>The program.\<close> \<open>src/main.py\<close> takes one of three sample instances of
  \<open>src/data/sample_data.py\<close> (ports with pilgrims, hotels with capacities, a
  bus capacity per route, a cost per route), turns it into a system
  \<open>A x \<le> b\<close> with cost vector \<open>c\<close> (\<open>HajjData.get_problem_matrices\<close>),
  solves the integer program with \<open>Optimizer.optimizerIPBB\<close> of
  \<open>src/optimizer.py\<close>, prints a report and draws two charts. The solver has
  two layers: \<open>optimizerLP\<close> enumerates the vertices of \<open>A x \<le> b\<close> by solving
  the square subsystem of every \<open>n\<close>-subset of rows (\<open>intersections\<close>, with
  \<open>itertools.combinations\<close> and \<open>np.linalg.solve\<close>) and returns the cheapest;
  \<open>optimizerIPBB\<close> runs a depth-first branch and bound over it, threading the
  incumbent through the recursion.

  \<^bold>\<open>The theories.\<close>
  \<^item> \<open>Prelude\<close>: vectors as \<open>real list\<close>, \<open>dot\<close> (\<open>np.dot\<close>), \<open>argmin\<close>
    (\<open>np.argmin\<close>, first least index), the tolerance \<open>tol\<close> (\<open>1e-10\<close>), and
    \<open>xreal\<close>, the reals with Python's \<open>float('inf')\<close>, a \<open>linorder\<close>.
  \<^item> \<open>LinSolve\<close>: \<open>np.linalg.solve\<close> as Gaussian elimination with partial
    pivoting (\<open>solve_rows\<close>, \<open>lin_solve\<close>); \<open>lin_solve_correct\<close>: it returns
    \<open>x\<close> exactly when \<open>x\<close> is the unique solution, and \<open>None\<close>
    (\<open>LinAlgError\<close>) means a singular or non-square matrix.
  \<^item> \<open>Combinations\<close>: \<open>itertools.combinations\<close>; the \<open>k\<close>-subsequences, each
    once, \<open>m choose k\<close> of them, in strict lexicographic order.
  \<^item> \<open>VertexEnum\<close>: \<open>intersections\<close> (lines 10--38) and \<open>optimizerLP\<close>
    (lines 40--60); the result is a feasible vertex, tight and unique on \<open>n\<close>
    rows, of least cost among all vertices, the first such in enumeration order.
  \<^item> \<open>BranchBound\<close>: \<open>branch_and_bound\<close> as a \<open>partial_function (option)\<close>
    (lines 71--115; \<open>None\<close> is a search that never returns), \<open>optimizerIPBB\<close>,
    and \<open>bb_fuel\<close>, the same recursion with a depth bound, which computes the
    same results (\<open>bb_fuel_sound\<close>). The incumbent invariant is proved by
    fixpoint induction (\<open>bb_inc_ok\<close>).
  \<^item> \<open>HajjData\<close>: the three instances and \<open>get_problem_matrices\<close>, with the
    code's loops over zero matrices, and \<open>KeyError\<close> for a missing cost; the
    rows in closed form (\<open>dot_port_row\<close>, \<open>dot_hotel_row\<close>, \<open>dot_eye_row\<close>),
    \<open>wf_data\<close>, what the dictionaries guarantee.
  \<^item> \<open>Report\<close>: \<open>create_solution_report\<close> of \<open>src/main.py\<close> for the numbers it
    prints (allocation table, total pilgrims, average cost, utilisation), with
    \<open>int()\<close> as \<open>py_int\<close>, the exceptions of \<open>Prelude.py_error\<close> threaded by
    \<open>sbind\<close>, and \<open>solve_report\<close>, the pipeline of \<open>solve_and_visualize\<close>.
    \<open>alloc_spec\<close>, \<open>pilgrims_spec\<close> and \<open>usage_of\<close> are the index-free
    specifications the loops are proved against.
  \<^item> \<open>Charts\<close>: the numbers of \<open>create_visualizations\<close>: the flow lines with
    their \<open>alpha\<close> (matplotlib's range check as \<open>ValueError\<close>, \<open>check_alpha\<close>)
    and the uses of the bar chart.
  \<^item> \<open>Driver\<close>: \<open>main\<close>, \<open>solve_and_visualize\<close> and \<open>save_report\<close>
    as an inductive step relation \<open>drive_step\<close> on a record of the phase,
    the \<open>results\<close> directory, the printed events and the files written; the
    report file's timestamp is any string. Invariants by rule induction over
    the reachable states (\<open>main_ok\<close>, \<open>names_ok\<close>), and the computations
    that never raise \<open>FileNotFoundError\<close> collected in \<open>no_fnf\<close>.
  \<^item> \<open>Format\<close>: \<open>format_cost\<close> (lines 14--16) with Python's \<open>',.2f'\<close> format
    (rounding half to even, sign, thousands separator, \<open>inf\<close> and \<open>nan\<close>),
    \<open>str()\<close> of an integer and the f-string padding; \<open>parse_cost\<close> reads a
    cost back.
  \<^item> \<open>ReportText\<close>: the lines of the list \<open>report\<close> of
    \<open>create_solution_report\<close> (lines 23--77), written from the record of
    \<open>Report\<close>, and the joined string the method returns
    (\<open>create_solution_report_text\<close>); the execution time is a parameter.
  \<^item> \<open>Pyplot\<close>: \<open>matplotlib.pyplot\<close> calls as a datatype \<open>plot_cmd\<close>, numpy's
    \<open>float64\<close> division, broadcasting comparison, \<open>np.dot\<close> shape check and
    \<open>np.linspace\<close>, and \<open>smap\<close>/\<open>sfilter\<close>, loops that stop at the first
    exception.
  \<^item> \<open>Plot2D\<close>: \<open>Optimizer.plot_2d_problem\<close> (optimizer.py lines 119--154) as
    its list of pyplot calls or the exception it raises.
  \<^item> \<open>Visualisation\<close>: \<open>create_visualizations\<close> (lines 113--185) as the pyplot
    calls of its two figures, with the position dictionaries of lines
    125--126 (\<open>py_dict\<close>, insertion order kept), the saved figures and the
    exception; \<open>shows_content\<close> relates a saved figure to the content the
    driver records for its file.
  \<^item> this theory: the properties that span the components, on the instances.

  \<^bold>\<open>What is shown.\<close> The integer solver's answer is integral, feasible for
  the original system and priced by its cost (C1). The LP result is a vertex
  of least cost (C2, C8--C10) and every enumerated point is a genuine vertex
  (C3). On the small instance the whole pipeline returns the allocation
  \<open>(10, 50, 50, -10)\<close> of cost 8300 (C4): \<open>get_problem_matrices\<close> emits no
  lower bounds, so pilgrims may travel a route a negative number of times,
  and the cost is below every non-negative allocation's. The ceil branch
  imposes \<open>x_i \<le> -ceil(x_i)\<close> instead of \<open>x_i \<ge> ceil(x_i)\<close> (C5); an
  infeasible node returns \<open>(None, inf)\<close> and not the incumbent it was given
  (C7); the strict tests \<open>< 1e-10\<close> and \<open>> 1e-10\<close> leave a coordinate at
  exactly the tolerance neither integral nor branched on, so the search
  reports no solution where an integral point exists (C14).

  The matrices mean what the comments of \<open>get_problem_matrices\<close> say (C15,
  a refinement to port, hotel and route bounds), with costs at the right
  index (C25), \<open>KeyError\<close> exactly for a missing pair (C26), the shapes the
  solvers require (C27), and sample data that satisfies all of it (C28). The
  system is closed under lowering routes (C19) and moving nobody is always
  feasible (C20), so the spec's infeasibility scenario cannot occur, and the
  small instance is unbounded below (C18), although the design assumes the bus
  rows bound it. The report's loops equal their index-free specification
  (C22, C21); with well-formed data it can only fail by dividing
  \<open>float('inf')\<close> by zero pilgrims (C23), and without a point it raises
  \<open>TypeError\<close> (C24). For an integral feasible point no line of the report
  exceeds a capacity (C16). On the small instance the printed report counts
  110 pilgrims although the ports send 100 (C17). \<open>int()\<close> truncates within
  one unit (C29). The search returns whenever the branching tree of
  the system is finite (C31, \<open>settled_within\<close>). The bar chart plots the
  uses the report prints (C32), and the flow diagram passes matplotlib valid
  \<open>alpha\<close> values for feasible points as long as the bus capacity does not
  exceed the largest supply (C33). \<open>main\<close> creates the directory before any file, writes only
  under \<open>results/\<close> and never fails for a missing directory (C34); it runs
  to its end, three files per size, whenever every size solves without an
  exception (C35, liveness); it never writes a file twice (C36); and an
  exception ends it (C37). The run of \<open>main\<close> on the small instance alone is
  computed (\<open>small_main_run\<close>).

  The detailed drawing model refines the driver's: once the report is
  produced, \<open>create_visualizations\<close> and the chart effects of
  \<open>solve_and_visualize\<close> raise the same exception or none and save the
  same files in the same order, each figure showing its file's content (C30).
  A cost printed by \<open>format_cost\<close> reads back as the value rounded half to
  even to hundredths, at most half a hundredth away, and exactly when it has
  two decimals (C38); the small report's text is computed
  (\<open>small_report_text\<close>: total cost \<open>8,300.00 SAR\<close>, 110 pilgrims, average
  \<open>75.45 SAR\<close>). \<open>plot_2d_problem\<close> on a two-variable system draws one line
  per constraint and a dot exactly at the grid points satisfying
  \<open>A p \<le> b\<close> without tolerance (C39), and raises \<open>ValueError\<close> on every
  problem the program builds, all of which have at least four variables
  (C40).

  \<^bold>\<open>Bounds and fuel.\<close> The search has no termination argument: the ceil
  child need not shrink the region, and the region may be unbounded (C18). It
  is therefore partial. Concrete runs are evaluated through \<open>bb_fuel\<close> and
  transferred by \<open>bb_fuel_sound\<close>: depth 1 suffices for the small instance
  (the root relaxation is integral) and depth 2 for the one-variable examples,
  and a run that would need more fuel fails to evaluate rather than loop.

  \<^bold>\<open>Not modelled.\<close> Floating point: every entry is an exact real, so the
  tolerance only matters where the code compares against it, and the results
  are those of exact arithmetic (numpy's \<open>float64\<close> division by zero is
  modelled by its IEEE outcome, and \<open>format_cost\<close> rounds the exact value).
  Time: the execution time and the report's timestamp are parameters (any
  value, any string). Rendering: the drawing is the sequence of pyplot calls
  with their arguments; what matplotlib makes of them (and its warnings) is
  not modelled, except the \<open>alpha\<close> range check, which raises. The driver
  records the report's and the charts' content as values (\<open>Driver\<close>); the
  text and the calls they correspond to are \<open>ReportText\<close> and
  \<open>Visualisation\<close>, related to it by C30 and \<open>small_report_text\<close>. The
  capacities print as \<open>str()\<close> of the Python ints of the dictionaries; a
  float capacity would print differently. The medium and large instances are
  modelled as data but not solved here (the vertex enumeration of the large
  one has \<open>C(41, 30)\<close> subsystems), so the run of \<open>main\<close> over all three
  sizes is characterised by C35 rather than computed. Open: the depth of the
  branching tree (\<open>settled_within\<close>) on the medium instance, and points that
  are integral only up to the tolerance, where \<open>int()\<close> may truncate
  2.9999999999 to 2.\<close>

section \<open>The small instance end to end\<close>

text \<open>The report, the flow lines and the files of \<open>main\<close> on the small
  instance alone, with the timestamp \<open>20250101_000000\<close>.\<close>

abbreviation small_R :: report where
  "small_R \<equiv> projr (create_solution_report small_example (Some [10, 50, 50, -10]) (Fin 8300))"

abbreviation small_flows :: "flow list" where
  "small_flows \<equiv>
     [\<lparr>flow_port = ''p1'', flow_hotel = ''h1'', flow_alpha = 1 / 6, flow_width = 5 / 6\<rparr>,
      \<lparr>flow_port = ''p1'', flow_hotel = ''h2'', flow_alpha = 5 / 6, flow_width = 25 / 6\<rparr>,
      \<lparr>flow_port = ''p2'', flow_hotel = ''h1'', flow_alpha = 5 / 6, flow_width = 25 / 6\<rparr>]"

abbreviation small_files :: "(string \<times> file_content) list" where
  "small_files \<equiv>
     [(flow_file ''small'', FlowChart small_flows),
      (capacity_file ''small'', CapacityChart [60, 40, 80, 40] [60, 40, 60, 40]),
      (report_file ''small'' ''20250101_000000'', ReportFile small_R)]"

abbreviation small_final :: driver where
  "small_final \<equiv> \<lparr>phase = Finished, results_dir = True,
     printed = [Processing ''small'', PrintReport small_R, SavedNotice], files = small_files\<rparr>"


lemma small_matrices:
  "get_problem_matrices ''small'' =
     Inr ([[1, 1, 0, 0], [0, 0, 1, 1], [1, 0, 1, 0], [0, 1, 0, 1],
           [1, 0, 0, 0], [0, 1, 0, 0], [0, 0, 1, 0], [0, 0, 0, 1]],
          [60, 40, 80, 40, 50, 50, 50, 50], [100, 80, 90, 120])"
  by (simp add: get_problem_matrices_def select_example_def problem_matrices_def
      small_example_def cost_of_def port_row_def hotel_row_def eye_row_def
      numeral_eq_Suc upt_rec)

lemma small_lp:
  "optimizerLP [[1, 1, 0, 0], [0, 0, 1, 1], [1, 0, 1, 0], [0, 1, 0, 1],
           [1, 0, 0, 0], [0, 1, 0, 0], [0, 0, 1, 0], [0, 0, 0, 1]]
     [60, 40, 80, 40, 50, 50, 50, 50] [100, 80, 90, 120] = Some ([10, 50, 50, -10], 8300)"
  by (simp add: lp_eval)

lemma small_ip:
  "optimizerIPBB [[1, 1, 0, 0], [0, 0, 1, 1], [1, 0, 1, 0], [0, 1, 0, 1],
           [1, 0, 0, 0], [0, 1, 0, 0], [0, 0, 1, 0], [0, 0, 0, 1]]
     [60, 40, 80, 40, 50, 50, 50, 50] [100, 80, 90, 120] = Some (Some [10, 50, 50, -10], Fin 8300)"
proof -
  have "bb_fuel 1 [[1, 1, 0, 0], [0, 0, 1, 1], [1, 0, 1, 0], [0, 1, 0, 1],
           [1, 0, 0, 0], [0, 1, 0, 0], [0, 0, 1, 0], [0, 0, 0, 1]]
     [60, 40, 80, 40, 50, 50, 50, 50] [100, 80, 90, 120] None PInf
     = Some (Some [10, 50, 50, -10], Fin 8300)"
    by (simp only: One_nat_def bb_fuel.simps small_lp) (simp add: ip_eval)
  from bb_fuel_sound [OF this] show ?thesis by (simp add: optimizerIPBB_def)
qed

lemma small_problem_matrices:
  "problem_matrices small_example =
     Inr ([[1, 1, 0, 0], [0, 0, 1, 1], [1, 0, 1, 0], [0, 1, 0, 1],
           [1, 0, 0, 0], [0, 1, 0, 0], [0, 0, 1, 0], [0, 0, 0, 1]],
          [60, 40, 80, 40, 50, 50, 50, 50], [100, 80, 90, 120])"
  using small_matrices by (simp add: get_problem_matrices_def select_example_def)

lemma small_report:
  "create_solution_report small_example (Some [10, 50, 50, -10]) (Fin 8300) =
   Inr \<lparr>rep_total_cost = Fin 8300, rep_ports = 2, rep_hotels = 2,
        rep_lines = [\<lparr>line_port = ''p1'', line_hotel = ''h1'', line_pilgrims = 10, line_cost = 100,
                       line_total = 1000\<rparr>,
                     \<lparr>line_port = ''p1'', line_hotel = ''h2'', line_pilgrims = 50, line_cost = 80,
                       line_total = 4000\<rparr>,
                     \<lparr>line_port = ''p2'', line_hotel = ''h1'', line_pilgrims = 50, line_cost = 90,
                       line_total = 4500\<rparr>],
        rep_total_pilgrims = 110, rep_average = Num (8300 / 110),
        rep_port_usage = [\<lparr>usage_name = ''p1'', usage_used = 60, usage_capacity = 60, usage_percent = 100\<rparr>,
                          \<lparr>usage_name = ''p2'', usage_used = 40, usage_capacity = 40, usage_percent = 100\<rparr>],
        rep_hotel_usage = [\<lparr>usage_name = ''h1'', usage_used = 60, usage_capacity = 80, usage_percent = 75\<rparr>,
                           \<lparr>usage_name = ''h2'', usage_used = 40, usage_capacity = 40, usage_percent = 100\<rparr>]\<rparr>"
  by (simp add: create_solution_report_def small_example_def point_at_def py_int_def cost_of_def
      avg_cost_def port_indices_def hotel_indices_def numeral_eq_Suc upt_rec)



section \<open>The report on the instances\<close>

text \<open>C16: for an integer-valued point that satisfies the system built by
  \<open>get_problem_matrices\<close>, every port and hotel line of the report shows a
  use within its capacity (up to the tolerance): the report's sums are the
  rows of the system.\<close>

theorem report_within_capacity:
  assumes pm: "problem_matrices d = Inr (A, b, c)" and wf: "wf_data d"
    and fx: "feasible A b x" and ints: "\<forall>v\<in>set x. v \<in> \<int>"
    and len: "length x = length (ports d) * length (hotels d)"
    and r: "create_solution_report d (Some x) v = Inr r"
  shows "\<forall>u\<in>set (rep_port_usage r @ rep_hotel_usage r). of_int (usage_used u) \<le> usage_capacity u + tol"
proof -
  let ?np = "length (ports d)" and ?nh = "length (hotels d)"
  have px: "of_int (py_int (x ! (i * ?nh + j))) = x ! (i * ?nh + j)" if "i < ?np" "j < ?nh" for i j
    using that ints len port_index_less [OF that] by (intro py_int_Ints) (simp add: nth_mem)
  note rows = feasible_problem_matrices_rows [OF pm, THEN iffD1, OF fx]
  note u = report_usage_used [OF wf len r]
  have "of_int (usage_used (rep_port_usage r ! i)) \<le> usage_capacity (rep_port_usage r ! i) + tol"
    if i: "i < ?np" for i
  proof -
    have "of_int (usage_used (rep_port_usage r ! i)) = (\<Sum>j<?nh. x ! (i * ?nh + j))"
      using i px by (simp add: u(4) [OF i])
    also have "\<dots> = dot (port_row ?nh (?np * ?nh) i) x" using i len by (simp add: dot_port_row)
    also have "\<dots> \<le> snd (ports d ! i) + tol" using rows i by blast
    finally show ?thesis by (simp add: u(5) [OF i])
  qed
  moreover have "of_int (usage_used (rep_hotel_usage r ! j)) \<le> usage_capacity (rep_hotel_usage r ! j) + tol"
    if j: "j < ?nh" for j
  proof -
    have "of_int (usage_used (rep_hotel_usage r ! j)) = (\<Sum>i<?np. x ! (i * ?nh + j))"
      using j px by (simp add: u(7) [OF j])
    also have "\<dots> = dot (hotel_row ?np ?nh (?np * ?nh) j) x" using j len by (simp add: dot_hotel_row)
    also have "\<dots> \<le> snd (hotels d ! j) + tol" using rows j by blast
    finally show ?thesis by (simp add: u(8) [OF j])
  qed
  ultimately show ?thesis using u(3,6) by (auto simp: in_set_conv_nth)
qed



section \<open>Witnesses\<close>

lemma ip_example:
  "optimizerIPBB [[2], [-1]] [3, 0] [-1] = Some (Some [1], Fin (-1))"
  unfolding optimizerIPBB_def by (rule bb_fuel_sound [of 2]) (simp add: lp_eval ip_eval)

theorem optimizerIPBB_sound_witness:
  "is_integral [1] \<and> feasible [[2], [-1]] [3, 0] [1] \<and> Fin (-1) = Fin (dot [1] [-1])"
  using optimizerIPBB_sound [OF ip_example] by simp

lemma lp_example:
  "optimizerLP [[1, 0], [0, 1], [-1, -1]] [1, 1, 0] [1, 2] = Some ([1, -1], -1)"
  by (simp add: lp_eval)

theorem optimizerLP_optimal_witness:
  "is_vertex [[1, 0], [0, 1], [-1, -1]] [1, 1, 0] [1, -1] \<and> -1 = dot [1, -1] [1, 2] \<and>
   is_vertex [[1, 0], [0, 1], [-1, -1]] [1, 1, 0] [-1, 1] \<and> -1 \<le> dot [-1, 1] [1, 2]"
proof -
  have v: "is_vertex [[1, 0], [0, 1], [-1, -1]] [1, 1, 0] [-1, 1]"
    by (simp add: is_vertex_def lp_eval)
  with optimizerLP_optimal [OF lp_example] show ?thesis by simp
qed

theorem optimizerLP_first_min_witness:
  "\<exists>i<length (intersections [[1, 0], [0, 1], [-1, -1]] [1, 1, 0]).
     [1, -1] = intersections [[1, 0], [0, 1], [-1, -1]] [1, 1, 0] ! i \<and>
     (\<forall>j<i. -1 < dot (intersections [[1, 0], [0, 1], [-1, -1]] [1, 1, 0] ! j) [1, 2])"
  by (rule optimizerLP_first_min [OF lp_example])

theorem optimizerLP_infeasible_witness:
  "\<forall>x. \<not> is_vertex [[1], [-1]] [-1, -1] x"
proof -
  have "optimizerLP [[1], [-1]] [-1, -1] [1] = None" by (simp add: lp_eval)
  then show ?thesis by (simp add: optimizerLP_infeasible)
qed

theorem intersections_vertex_witness:
  "[1, -1] \<in> set (intersections [[1, 0], [0, 1], [-1, -1]] [1, 1, 0]) \<and>
   (\<exists>idx. length idx = 2 \<and> (\<forall>i\<in>set idx. dot ([[1, 0], [0, 1], [-1, -1]] ! i) [1, -1] = [1, 1, 0] ! i) \<and>
      (\<forall>z. length z = 2 \<longrightarrow> (\<forall>i\<in>set idx. dot ([[1, 0], [0, 1], [-1, -1]] ! i) z = [1, 1, 0] ! i) \<longrightarrow> z = [1, -1]))"
proof -
  have wf: "wf_sys [[1, 0], [0, 1], [-1, -1]] [1, 1, 0]" by (simp add: wf_sys_def ncols_def)
  have mem: "[1, -1] \<in> set (intersections [[1, 0], [0, 1], [-1, -1]] [1, 1, 0])"
    by (simp add: lp_eval)
  from intersections_vertex [OF wf mem] mem show ?thesis
    by (auto simp: ncols_def numeral_2_eq_2)
qed

theorem optimizerLP_square_witness:
  "optimizerLP [[2, 1], [1, 3]] [3, 5] [1, 1] =
     (case lin_solve [[2, 1], [1, 3]] [3, 5] of None \<Rightarrow> None
      | Some x \<Rightarrow> if feasible [[2, 1], [1, 3]] [3, 5] x then Some (x, dot x [1, 1]) else None)"
  by (rule optimizerLP_square) (simp_all add: ncols_def)

theorem optimizerIPBB_integral_relaxation_witness:
  "optimizerIPBB [[1, 0], [0, 1], [-1, -1]] [1, 1, 0] [1, 2] = Some (Some [1, -1], Fin (-1))"
  by (rule optimizerIPBB_integral_relaxation [OF lp_example]) (simp add: ip_eval)

theorem bb_infeasible_node_witness:
  "branch_and_bound [[1], [-1]] [-1, -1] [1] (Some [0]) (Fin 0) = Some (None, PInf)"
  by (rule bb_infeasible_node) (simp add: lp_eval)

theorem bb_prune_witness:
  "branch_and_bound [[2], [-1]] [3, 0] [-1] (Some [1]) (Fin (-2)) = Some (Some [1], Fin (-2))"
proof -
  have "optimizerLP [[2], [-1]] [3, 0] [-1] = Some ([3 / 2], - 3 / 2)" by (simp add: lp_eval)
  then show ?thesis by (rule bb_prune) simp
qed

theorem bb_value_le_witness:
  "snd (Some [1::real], Fin (-1)) \<le> Fin 0"
proof -
  have run: "branch_and_bound [[2], [-1]] [3, 0] [-1] None (Fin 0) = Some (Some [1], Fin (-1))"
    by (rule bb_fuel_sound [of 2]) (simp add: lp_eval ip_eval)
  have "optimizerLP [[2], [-1]] [3, 0] [-1] \<noteq> None" by (simp add: lp_eval)
  from bb_value_le [OF run this] show ?thesis .
qed

theorem floor_child_feasible_witness:
  "feasible (A_new [[2], [-1]] [3 / 2] 0) (b_floor [3, 0] [3 / 2] 0) [1]"
proof -
  have "feasible [[2], [-1]] [3, 0] [1] \<and> [1::real] ! 0 \<le> of_int \<lfloor>[3 / 2 :: real] ! 0\<rfloor> + tol"
    by (simp add: feasible_def tol_def)
  with floor_child_feasible [of 0 "[3 / 2]" "[1]" "[[2], [-1]]" "[3, 0]"] show ?thesis by simp
qed

theorem ceil_child_excludes_ceiling_witness:
  "[-3 :: real] ! 0 < of_int \<lceil>[3 / 2 :: real] ! 0\<rceil>"
proof -
  have "feasible (A_new [[1]] [3 / 2] 0) (b_ceil [5] [3 / 2] 0) [-3]"
    by (simp add: ip_eval feasible_def)
  then show ?thesis by (rule ceil_child_excludes_ceiling [rotated 3]) simp_all
qed

lemma small_wf: "wf_data small_example"
  by (simp add: wf_data_def small_example_def)

lemma small_len:
  "length [10, 50, 50, -10 :: real] = length (ports small_example) * length (hotels small_example)"
  by (simp add: small_example_def)

theorem problem_matrices_feasible_witness:
  "problem_matrices small_example = Inr ([[1, 1, 0, 0], [0, 0, 1, 1], [1, 0, 1, 0], [0, 1, 0, 1],
      [1, 0, 0, 0], [0, 1, 0, 0], [0, 0, 1, 0], [0, 0, 0, 1]], [60, 40, 80, 40, 50, 50, 50, 50], [100, 80, 90, 120]) \<and>
   length [10, 50, 50, -10 :: real] = length (ports small_example) * length (hotels small_example) \<and>
   feasible [[1, 1, 0, 0], [0, 0, 1, 1], [1, 0, 1, 0], [0, 1, 0, 1],
      [1, 0, 0, 0], [0, 1, 0, 0], [0, 0, 1, 0], [0, 0, 0, 1]] [60, 40, 80, 40, 50, 50, 50, 50] [10, 50, 50, -10]"
proof -
  have "feasible [[1, 1, 0, 0], [0, 0, 1, 1], [1, 0, 1, 0], [0, 1, 0, 1],
      [1, 0, 0, 0], [0, 1, 0, 0], [0, 0, 1, 0], [0, 0, 0, 1]] [60, 40, 80, 40, 50, 50, 50, 50] [10, 50, 50, -10]"
    using small_len
    by (rule problem_matrices_feasible [OF small_problem_matrices, THEN iffD2])
      (simp add: small_example_def tol_def numeral_eq_Suc less_Suc_eq)
  with small_problem_matrices small_len show ?thesis by simp
qed

theorem problem_matrices_down_closed_witness:
  "problem_matrices small_example = Inr ([[1, 1, 0, 0], [0, 0, 1, 1], [1, 0, 1, 0], [0, 1, 0, 1],
      [1, 0, 0, 0], [0, 1, 0, 0], [0, 0, 1, 0], [0, 0, 0, 1]], [60, 40, 80, 40, 50, 50, 50, 50], [100, 80, 90, 120]) \<and> feasible [[1, 1, 0, 0], [0, 0, 1, 1], [1, 0, 1, 0], [0, 1, 0, 1],
      [1, 0, 0, 0], [0, 1, 0, 0], [0, 0, 1, 0], [0, 0, 0, 1]] [60, 40, 80, 40, 50, 50, 50, 50] [10, 50, 50, -10] \<and>
   list_all2 (\<le>) [0, 0, 0, -20 :: real] [10, 50, 50, -10] \<and> feasible [[1, 1, 0, 0], [0, 0, 1, 1], [1, 0, 1, 0], [0, 1, 0, 1],
      [1, 0, 0, 0], [0, 1, 0, 0], [0, 0, 1, 0], [0, 0, 0, 1]] [60, 40, 80, 40, 50, 50, 50, 50] [0, 0, 0, -20]"
proof -
  have fy: "feasible [[1, 1, 0, 0], [0, 0, 1, 1], [1, 0, 1, 0], [0, 1, 0, 1],
      [1, 0, 0, 0], [0, 1, 0, 0], [0, 0, 1, 0], [0, 0, 0, 1]] [60, 40, 80, 40, 50, 50, 50, 50] [10, 50, 50, -10]" by (simp add: feasible_def tol_def)
  have le: "list_all2 (\<le>) [0, 0, 0, -20 :: real] [10, 50, 50, -10]" by simp
  from problem_matrices_down_closed [OF small_problem_matrices fy le] fy le small_problem_matrices
  show ?thesis by simp
qed


theorem problem_matrices_costs_witness:
  "problem_matrices small_example = Inr ([[1, 1, 0, 0], [0, 0, 1, 1], [1, 0, 1, 0], [0, 1, 0, 1],
      [1, 0, 0, 0], [0, 1, 0, 0], [0, 0, 1, 0], [0, 0, 0, 1]], [60, 40, 80, 40, 50, 50, 50, 50], [100, 80, 90, 120]) \<and> 1 < length (ports small_example) \<and>
   1 < length (hotels small_example) \<and>
   map_of (costs small_example) (fst (ports small_example ! 1), fst (hotels small_example ! 1))
     = Some ([100, 80, 90, 120] ! (1 * length (hotels small_example) + 1))"
  using problem_matrices_costs [OF small_problem_matrices, of 1 1] small_problem_matrices
  by (simp add: small_example_def)

theorem problem_matrices_KeyError_witness:
  "\<exists>e. problem_matrices (small_example\<lparr>costs := []\<rparr>) = Inl e"
  by (rule problem_matrices_KeyError [THEN iffD2]) (auto simp: small_example_def)

theorem problem_matrices_shape_witness:
  "problem_matrices small_example = Inr ([[1, 1, 0, 0], [0, 0, 1, 1], [1, 0, 1, 0], [0, 1, 0, 1],
      [1, 0, 0, 0], [0, 1, 0, 0], [0, 0, 1, 0], [0, 0, 0, 1]], [60, 40, 80, 40, 50, 50, 50, 50], [100, 80, 90, 120]) \<and>
   length [60, 40, 80, 40, 50, 50, 50, 50] = length [[1, 1, 0, 0], [0, 0, 1, 1], [1, 0, 1, 0], [0, 1, 0, 1],
      [1, 0, 0, 0], [0, 1, 0, 0], [0, 0, 1, 0], [0, 0, 0, 1]] \<and> length [100, 80, 90, 120] = length (ports small_example) * length (hotels small_example)"
  using problem_matrices_shape [OF small_problem_matrices] small_problem_matrices by simp

theorem create_solution_report_correct_witness:
  "wf_data small_example \<and>
   length [10, 50, 50, -10 :: real] = length (ports small_example) * length (hotels small_example) \<and>
   (\<exists>r. create_solution_report small_example (Some [10, 50, 50, -10]) (Fin 8300) = Inr r \<and>
        rep_total_pilgrims r = pilgrims_spec [10, 50, 50, -10] \<and>
        usage_used (rep_port_usage r ! 1) = py_int 50 + py_int (-10))"
proof -
  obtain r where r: "create_solution_report small_example (Some [10, 50, 50, -10]) (Fin 8300) = Inr r"
    using small_report by blast
  from create_solution_report_correct [OF small_wf small_len r] r small_wf small_len
  show ?thesis by (auto simp: small_example_def)
qed

theorem alloc_ports_correct_witness:
  "alloc_ports small_example (Some [10, 50, 50, -10]) [''p1'', ''p2''] [''h1'', ''h2''] 0 0 =
     Inr (alloc_spec small_example [10, 50, 50, -10] [''p1'', ''p2''] [''h1'', ''h2''], 4, 110)"
  using alloc_ports_correct [of "[10, 50, 50, -10]" "[''p1'', ''p2'']" "[''h1'', ''h2'']" small_example]
  by (simp add: small_example_def pilgrims_spec_def py_int_def)

theorem create_solution_report_errors_witness:
  "wf_data small_example \<and>
   length [0, 0, 0, 0 :: real] = length (ports small_example) * length (hotels small_example) \<and>
   create_solution_report small_example (Some [0, 0, 0, 0]) PInf = Inl ZeroDivisionError"
proof -
  have len: "length [0, 0, 0, 0 :: real] = length (ports small_example) * length (hotels small_example)"
    by (simp add: small_example_def)
  have "create_solution_report small_example (Some [0, 0, 0, 0]) PInf = Inl ZeroDivisionError"
    by (rule create_solution_report_errors [OF small_wf len, THEN iffD2])
      (simp add: pilgrims_spec_def py_int_def)
  with small_wf len show ?thesis by simp
qed

theorem report_no_point_witness:
  "ports small_example \<noteq> [] \<and> hotels small_example \<noteq> [] \<and>
   create_solution_report small_example None PInf = Inl TypeError"
proof -
  have "ports small_example \<noteq> []" "hotels small_example \<noteq> []" by (simp_all add: small_example_def)
  with report_no_point [OF this] show ?thesis by simp
qed

theorem report_within_capacity_witness:
  "problem_matrices small_example = Inr ([[1, 1, 0, 0], [0, 0, 1, 1], [1, 0, 1, 0], [0, 1, 0, 1],
      [1, 0, 0, 0], [0, 1, 0, 0], [0, 0, 1, 0], [0, 0, 0, 1]], [60, 40, 80, 40, 50, 50, 50, 50], [100, 80, 90, 120]) \<and> wf_data small_example \<and>
   feasible [[1, 1, 0, 0], [0, 0, 1, 1], [1, 0, 1, 0], [0, 1, 0, 1],
      [1, 0, 0, 0], [0, 1, 0, 0], [0, 0, 1, 0], [0, 0, 0, 1]] [60, 40, 80, 40, 50, 50, 50, 50] [10, 50, 50, -10] \<and> list_all (\<lambda>v. v \<in> \<int>) [10, 50, 50, -10 :: real] \<and>
   length [10, 50, 50, -10 :: real] = length (ports small_example) * length (hotels small_example) \<and>
   (\<exists>r. create_solution_report small_example (Some [10, 50, 50, -10]) (Fin 8300) = Inr r \<and>
        of_int (usage_used (rep_port_usage r ! 1)) \<le> usage_capacity (rep_port_usage r ! 1) + tol)"
proof -
  obtain r where r: "create_solution_report small_example (Some [10, 50, 50, -10]) (Fin 8300) = Inr r"
    using small_report by blast
  have fx: "feasible [[1, 1, 0, 0], [0, 0, 1, 1], [1, 0, 1, 0], [0, 1, 0, 1],
      [1, 0, 0, 0], [0, 1, 0, 0], [0, 0, 1, 0], [0, 0, 0, 1]] [60, 40, 80, 40, 50, 50, 50, 50] [10, 50, 50, -10]" by (simp add: feasible_def tol_def)
  have ints: "\<forall>v\<in>set [10, 50, 50, -10 :: real]. v \<in> \<int>" by simp
  from report_within_capacity [OF small_problem_matrices small_wf fx ints small_len r] r small_report
  have "of_int (usage_used (rep_port_usage r ! 1)) \<le> usage_capacity (rep_port_usage r ! 1) + tol"
    by auto
  with r small_problem_matrices small_wf fx ints small_len show ?thesis by auto
qed


theorem bar_used_matches_report_witness:
  "(\<exists>r. create_solution_report small_example (Some [10, 50, 50, -10]) (Fin 8300) = Inr r) \<and>
   bar_used small_example (Some [10, 50, 50, -10]) = Inr [60, 40, 60, 40]"
proof -
  obtain r where r: "create_solution_report small_example (Some [10, 50, 50, -10]) (Fin 8300) = Inr r"
    using small_report by blast
  from bar_used_matches_report [OF r] r small_report show ?thesis by auto
qed

theorem flow_diagram_ok_witness:
  "problem_matrices small_example = Inr ([[1, 1, 0, 0], [0, 0, 1, 1], [1, 0, 1, 0], [0, 1, 0, 1],
      [1, 0, 0, 0], [0, 1, 0, 0], [0, 0, 1, 0], [0, 0, 0, 1]], [60, 40, 80, 40, 50, 50, 50, 50], [100, 80, 90, 120]) \<and>
   wf_data small_example \<and> feasible [[1, 1, 0, 0], [0, 0, 1, 1], [1, 0, 1, 0], [0, 1, 0, 1],
      [1, 0, 0, 0], [0, 1, 0, 0], [0, 0, 1, 0], [0, 0, 0, 1]] [60, 40, 80, 40, 50, 50, 50, 50] [10, 50, 50, -10] \<and>
   length [10, 50, 50, -10 :: real] = length (ports small_example) * length (hotels small_example) \<and>
   py_max (map snd (ports small_example)) = Inr 60 \<and> bus_capacity small_example + tol \<le> 60 \<and>
   (\<exists>fs. flow_diagram small_example (Some [10, 50, 50, -10]) = Inr fs)"
proof -
  have fx: "feasible [[1, 1, 0, 0], [0, 0, 1, 1], [1, 0, 1, 0], [0, 1, 0, 1],
      [1, 0, 0, 0], [0, 1, 0, 0], [0, 0, 1, 0], [0, 0, 0, 1]] [60, 40, 80, 40, 50, 50, 50, 50] [10, 50, 50, -10]"
    by (simp add: feasible_def tol_def)
  have m: "py_max (map snd (ports small_example)) = Inr 60" by (simp add: small_example_def)
  have bus: "bus_capacity small_example + tol \<le> 60" by (simp add: small_example_def tol_def)
  from flow_diagram_ok [OF small_problem_matrices small_wf fx small_len m bus]
    small_problem_matrices small_wf fx small_len m bus
  show ?thesis by simp
qed

lemma small_flow:
  "flow_diagram small_example (Some [10, 50, 50, -10]) = Inr small_flows"
  by (simp add: flow_diagram_def small_example_def point_at_def py_int_def check_alpha_def)

lemma small_bars: "bar_used small_example (Some [10, 50, 50, -10]) = Inr [60, 40, 60, 40]"
  by (simp add: bar_used_def small_example_def point_at_def py_int_def port_indices_def
      hotel_indices_def numeral_eq_Suc upt_rec)

lemma small_caps: "bar_capacities small_example = [60, 40, 80, 40]"
  by (simp add: bar_capacities_def small_example_def)

lemma small_sv:
  "solve_and_visualize True ''small'' ts =
     Some ([PrintReport small_R],
           [(flow_file ''small'', FlowChart small_flows),
            (capacity_file ''small'', CapacityChart [60, 40, 80, 40] [60, 40, 60, 40]),
            (report_file ''small'' ts, ReportFile small_R)], None)"
proof -
  have "select_example ''small'' = small_example" by (simp add: select_example_def)
  then show ?thesis
    by (simp add: solve_and_visualize_def small_matrices small_ip after_solve_def small_report
        small_flow small_bars small_caps)
qed

lemma small_main_run: "drive_step\<^sup>*\<^sup>* (main_init [''small'']) small_final"
proof -
  let ?s1 = "\<lparr>phase = Running [''small''], results_dir = True, printed = [], files = []\<rparr>"
  let ?s2 = "?s1\<lparr>phase := Running [], printed := printed ?s1 @ [Processing ''small''] @ [PrintReport small_R] @ [SavedNotice],
                  files := files ?s1 @ small_files\<rparr>"
  have "drive_step (main_init [''small'']) ((main_init [''small''])\<lparr>phase := Running [''small''], results_dir := True\<rparr>)"
    by (rule drive_step.mkdir) (simp add: main_init_def)
  also have "(main_init [''small''])\<lparr>phase := Running [''small''], results_dir := True\<rparr> = ?s1"
    by (simp add: main_init_def)
  finally have 1: "drive_step (main_init [''small'']) ?s1" .
  have 2: "drive_step ?s1 ?s2"
  proof (rule drive_step.solved [where ts = "''20250101_000000''"])
    show "phase ?s1 = Running [''small'']" by (simp only: driver.simps)
    show "solve_and_visualize (results_dir ?s1) ''small'' ''20250101_000000''
        = Some ([PrintReport small_R], small_files, None)"
      by (simp only: driver.simps small_sv)
  qed
  have 3: "drive_step ?s2 (?s2\<lparr>phase := Finished\<rparr>)"
    by (rule drive_step.finish) simp
  from 1 have "drive_step\<^sup>*\<^sup>* (main_init [''small'']) ?s1" by (rule r_into_rtranclp [where r = drive_step])
  then have "drive_step\<^sup>*\<^sup>* (main_init [''small'']) ?s2" using 2 by (rule rtranclp.rtrancl_into_rtrancl)
  then have "drive_step\<^sup>*\<^sup>* (main_init [''small'']) (?s2\<lparr>phase := Finished\<rparr>)"
    using 3 by (rule rtranclp.rtrancl_into_rtrancl)
  moreover have "?s2\<lparr>phase := Finished\<rparr> = small_final" by simp
  ultimately show ?thesis by (rule back_subst)
qed

theorem main_files_in_results_witness:
  "drive_step\<^sup>*\<^sup>* (main_init [''small'']) small_final \<and> files small_final \<noteq> [] \<and>
   results_dir small_final \<and> phase small_final \<noteq> Raised FileNotFoundError \<and>
   list_all (\<lambda>f. take 8 (fst f) = ''results/'') (files small_final)"
  using main_files_in_results [OF small_main_run] small_main_run by simp

theorem main_completes_witness:
  "(\<exists>ts evs fs. solve_and_visualize True ''small'' ts = Some (evs, fs, None)) \<and>
   (\<exists>s. drive_step\<^sup>*\<^sup>* (main_init [''small'']) s \<and> phase s = Finished \<and>
        length (files s) = 3 * length [''small''])"
proof -
  have sv: "\<exists>ts evs fs. solve_and_visualize True ''small'' ts = Some (evs, fs, None)"
    using small_sv by blast
  then have "\<forall>e\<in>set [''small'']. \<exists>ts evs fs. solve_and_visualize True e ts = Some (evs, fs, None)"
    by simp
  from main_completes [OF this] sv show ?thesis by blast
qed

theorem main_files_distinct_witness:
  "distinct [''small''] \<and> CHR ''_'' \<notin> set ''small'' \<and>
   drive_step\<^sup>*\<^sup>* (main_init [''small'']) small_final \<and> distinct (map fst (files small_final))"
proof -
  have "\<forall>e\<in>set [''small'']. CHR ''_'' \<notin> set e" by simp
  from main_files_distinct [OF _ this small_main_run] small_main_run show ?thesis by simp
qed


lemma small_R_eq: "small_R = \<lparr>rep_total_cost = Fin 8300, rep_ports = 2, rep_hotels = 2,
        rep_lines = [\<lparr>line_port = ''p1'', line_hotel = ''h1'', line_pilgrims = 10, line_cost = 100,
                       line_total = 1000\<rparr>,
                     \<lparr>line_port = ''p1'', line_hotel = ''h2'', line_pilgrims = 50, line_cost = 80,
                       line_total = 4000\<rparr>,
                     \<lparr>line_port = ''p2'', line_hotel = ''h1'', line_pilgrims = 50, line_cost = 90,
                       line_total = 4500\<rparr>],
        rep_total_pilgrims = 110, rep_average = Num (8300 / 110),
        rep_port_usage = [\<lparr>usage_name = ''p1'', usage_used = 60, usage_capacity = 60, usage_percent = 100\<rparr>,
                          \<lparr>usage_name = ''p2'', usage_used = 40, usage_capacity = 40, usage_percent = 100\<rparr>],
        rep_hotel_usage = [\<lparr>usage_name = ''h1'', usage_used = 60, usage_capacity = 80, usage_percent = 75\<rparr>,
                           \<lparr>usage_name = ''h2'', usage_used = 40, usage_capacity = 40, usage_percent = 100\<rparr>]\<rparr>"
  by (simp add: small_report)
text \<open>The text of the small instance's report: the string the method
  returns, and some of its lines as Python prints them.\<close>

lemma small_report_text:
  "create_solution_report_text small_example (Some [10, 50, 50, -10]) (Fin 8300) ''small'' t =
     Inr (py_join ''\<newline>'' (report_lines ''small'' t small_R)) \<and>
   report_lines ''small'' t small_R ! 1 = ''HAJJ OPTIMIZATION REPORT - SMALL EXAMPLE'' \<and>
   report_lines ''small'' t small_R ! 4 = ''Total Cost: 8,300.00 SAR'' \<and>
   report_lines ''small'' t small_R ! 14 =
     ''p2                   h1                   50         90.00 SAR       4,500.00 SAR'' \<and>
   report_lines ''small'' t small_R ! 16 = ''Total Pilgrims: 110'' \<and>
   report_lines ''small'' t small_R ! 17 = ''Average Cost per Pilgrim: 75.45 SAR''"
proof (intro conjI)
  show "create_solution_report_text small_example (Some [10, 50, 50, -10]) (Fin 8300) ''small'' t =
     Inr (py_join ''\<newline>'' (report_lines ''small'' t small_R))"
    by (simp only: create_solution_report_text_def small_report sbind_def sum.case sum.sel)
  show "report_lines ''small'' t small_R ! 1 = ''HAJJ OPTIMIZATION REPORT - SMALL EXAMPLE''"
    by (simp add: small_R_eq report_lines_def py_upper_def format_eval)
  show "report_lines ''small'' t small_R ! 4 = ''Total Cost: 8,300.00 SAR''"
    by (simp add: small_R_eq report_lines_def format_eval)
  show "report_lines ''small'' t small_R ! 14 =
     ''p2                   h1                   50         90.00 SAR       4,500.00 SAR''"
    by (simp add: small_R_eq report_lines_def alloc_text_def format_eval)
  show "report_lines ''small'' t small_R ! 16 = ''Total Pilgrims: 110''"
    by (simp add: small_R_eq report_lines_def format_eval)
  show "report_lines ''small'' t small_R ! 17 = ''Average Cost per Pilgrim: 75.45 SAR''"
    by (simp add: small_R_eq report_lines_def format_eval)
qed

text \<open>Witness of C39: a square with a diagonal cut, and a solution.\<close>

theorem plot_2d_problem_dots_witness:
  "list_all (\<lambda>r. length r = 2) [[1, 1], [1 :: real, 0]] \<and>
   length [100, 50 :: real] = length [[1, 1], [1 :: real, 0]] \<and>
   pred_option (\<lambda>s. 2 \<le> length s) (Some [50, 50 :: real]) \<and>
   (\<exists>ls st. plot_2d_problem [[1, 1], [1, 0]] [100, 50] [1, 1] (Some [50, 50]) =
      Inr ([Figure (10, 8)] @ ls @
           map dot_cmd (filter (\<lambda>p. \<forall>i<length [[1, 1], [1 :: real, 0]].
                                      dot ([[1, 1], [1, 0]] ! i) p \<le> [100, 50] ! i)
                          (plot_points plot_axis plot_axis)) @ st @ plot_tail)
      \<and> length ls = length [100, 50 :: real])"
proof -
  have a: "list_all (\<lambda>r. length r = 2) [[1, 1], [1 :: real, 0]]" by simp
  have b: "length [100, 50 :: real] = length [[1, 1], [1 :: real, 0]]" by simp
  have c: "pred_option (\<lambda>s. 2 \<le> length s) (Some [50, 50 :: real])" by simp
  from a b c plot_2d_problem_dots [OF a b c, of "[1, 1]"] show ?thesis by blast
qed

text \<open>Witness of C40: the small instance.\<close>

theorem plot_2d_problem_samples_witness:
  "get_problem_matrices ''small'' =
     Inr ([[1, 1, 0, 0], [0, 0, 1, 1], [1, 0, 1, 0], [0, 1, 0, 1],
           [1, 0, 0, 0], [0, 1, 0, 0], [0, 0, 1, 0], [0, 0, 0, 1]],
          [60, 40, 80, 40, 50, 50, 50, 50], [100, 80, 90, 120]) \<and>
   plot_2d_problem [[1, 1, 0, 0], [0, 0, 1, 1], [1, 0, 1, 0], [0, 1, 0, 1],
           [1, 0, 0, 0], [0, 1, 0, 0], [0, 0, 1, 0], [0, 0, 0, 1]]
          [60, 40, 80, 40, 50, 50, 50, 50] [100, 80, 90, 120] (Some [10, 50, 50, -10]) = Inl ValueError"
  using small_matrices plot_2d_problem_samples [OF small_matrices] by blast


end
